(* ===== verification/Prelude.thy ===== *)
theory Prelude
  imports Main "HOL-Library.AList" "HOL-Library.State_Monad"
begin

text \<open>
  The vocabulary every component of the development shares.

  \<^item> Go's error values (\<open>goerror\<close>): an error is a value with a text, a Kubernetes API
    status error also carries the reason that \<^verbatim>\<open>apierrors.IsNotFound\<close> and
    \<^verbatim>\<open>IsConflict\<close> read, and \<^verbatim>\<open>fmt.Errorf("...: %w", err)\<close> is \<open>Wrapf\<close>.
    A run-time panic is the value \<open>Panic\<close>, so that a model in which the code could
    panic shows it.
  \<^item> Go's maps (\<open>gomap\<close>): \<open>None\<close> is the nil map, \<open>Some al\<close> an allocated map whose
    association list gives its entries in the order one \<^verbatim>\<open>range\<close> loop happens to visit them.
  \<^item> Programs with effects: a state monad over the history of the calls made so far.
    The answer of a remote service is a function of that history, so a theorem that
    quantifies over the services covers every behaviour they can show, interference by
    other clients included.
  \<^item> The predicate \<open>emits\<close> and its rules: which calls a program can make.
\<close>

named_theorems run_simps \<open>what the primitive calls do to the history\<close>
named_theorems emits_rules \<open>compositional rules for the calls a program can make\<close>
named_theorems go_defs \<open>definitions of the standard-library helpers, for evaluation\<close>

section \<open>Error values\<close>

datatype status_reason = ReasonNotFound | ReasonConflict | ReasonOther

datatype goerror =
    ErrText string
  | StatusErr status_reason string
  | Wrapf string goerror
  | Panic string

primrec Error :: "goerror \<Rightarrow> string" where
  "Error (ErrText s) = s"
| "Error (StatusErr r s) = s"
| "Error (Wrapf p e) = p @ '': '' @ Error e"
| "Error (Panic s) = s"

primrec reason_of :: "goerror \<Rightarrow> status_reason option" where
  "reason_of (ErrText s) = None"
| "reason_of (StatusErr r s) = Some r"
| "reason_of (Wrapf p e) = reason_of e"
| "reason_of (Panic s) = None"

definition IsNotFound :: "goerror \<Rightarrow> bool" where
  "IsNotFound e \<longleftrightarrow> reason_of e = Some ReasonNotFound"

definition IsConflict :: "goerror \<Rightarrow> bool" where
  "IsConflict e \<longleftrightarrow> reason_of e = Some ReasonConflict"

primrec is_panic :: "goerror \<Rightarrow> bool" where
  "is_panic (ErrText s) = False"
| "is_panic (StatusErr r s) = False"
| "is_panic (Wrapf p e) = is_panic e"
| "is_panic (Panic s) = True"

lemma IsNotFound_simps [simp]:
  "IsNotFound (StatusErr r s) \<longleftrightarrow> r = ReasonNotFound"
  "IsNotFound (Wrapf p e) \<longleftrightarrow> IsNotFound e"
  "\<not> IsNotFound (ErrText s)"
  "\<not> IsNotFound (Panic s)"
  by (auto simp: IsNotFound_def)

lemma IsConflict_simps [simp]:
  "IsConflict (StatusErr r s) \<longleftrightarrow> r = ReasonConflict"
  "IsConflict (Wrapf p e) \<longleftrightarrow> IsConflict e"
  "\<not> IsConflict (ErrText s)"
  "\<not> IsConflict (Panic s)"
  by (auto simp: IsConflict_def)

lemma not_found_not_conflict: "IsNotFound e \<Longrightarrow> \<not> IsConflict e"
  by (simp add: IsNotFound_def IsConflict_def)

section \<open>Go maps\<close>

type_synonym ('k, 'v) gomap = "('k \<times> 'v) list option"

definition map_entries :: "('k, 'v) gomap \<Rightarrow> ('k \<times> 'v) list" where
  "map_entries m = (case m of None \<Rightarrow> [] | Some al \<Rightarrow> al)"

definition map_get :: "('k, 'v) gomap \<Rightarrow> 'k \<Rightarrow> 'v option" where
  "map_get m k = map_of (map_entries m) k"

text \<open>\<^verbatim>\<open>m[k]\<close> on a map of strings: the zero value \<open>''''\<close> where the key is absent.\<close>

definition map_read :: "(string, string) gomap \<Rightarrow> string \<Rightarrow> string" where
  "map_read m k = (case map_get m k of None \<Rightarrow> '''' | Some v \<Rightarrow> v)"

text \<open>\<^verbatim>\<open>m[k] = v\<close>: a write to a nil map panics.\<close>

definition map_set :: "'k \<Rightarrow> 'v \<Rightarrow> ('k, 'v) gomap \<Rightarrow> goerror + ('k, 'v) gomap" where
  "map_set k v m =
     (case m of None \<Rightarrow> Inl (Panic ''assignment to entry in nil map'')
      | Some al \<Rightarrow> Inr (Some (AList.update k v al)))"

text \<open>A map value that Go can hold: no key twice.\<close>

definition wf_map :: "('k, 'v) gomap \<Rightarrow> bool" where
  "wf_map m \<longleftrightarrow> distinct (map fst (map_entries m))"

text \<open>\<^verbatim>\<open>if m == nil { m = map[K]V{} }\<close>\<close>

definition ensure_map :: "('k, 'v) gomap \<Rightarrow> ('k, 'v) gomap" where
  "ensure_map m = (case m of None \<Rightarrow> Some [] | Some al \<Rightarrow> Some al)"

lemma map_entries_simps [simp]:
  "map_entries None = []" "map_entries (Some al) = al"
  by (simp_all add: map_entries_def)

lemma map_get_simps [simp]:
  "map_get None k = None"
  "map_get (Some al) k = map_of al k"
  by (simp_all add: map_get_def)

lemma map_get_eq: "map_get m = map_of (map_entries m)"
  by (simp add: fun_eq_iff map_get_def)

lemma dom_map_get: "dom (map_get m) = fst ` set (map_entries m)"
  by (simp add: map_get_eq dom_map_of_conv_image_fst)

lemma map_read_None [simp]: "map_read None k = ''''"
  by (simp add: map_read_def)

lemma map_read_Some: "map_get m k = Some v \<Longrightarrow> map_read m k = v"
  by (simp add: map_read_def)

lemma ensure_map_simps [simp]:
  "ensure_map None = Some []" "ensure_map (Some al) = Some al"
  by (simp_all add: ensure_map_def)

lemma map_get_ensure [simp]: "map_get (ensure_map m) k = map_get m k"
  by (cases m) simp_all

lemma map_set_simps [simp]:
  "map_set k v None = Inl (Panic ''assignment to entry in nil map'')"
  "map_set k v (Some al) = Inr (Some (AList.update k v al))"
  by (simp_all add: map_set_def)

lemma map_set_ensure:
  obtains al where "map_set k v (ensure_map m) = Inr (Some al)"
    and "map_of al = (map_get m)(k \<mapsto> v)"
proof (cases m)
  case None
  with that show ?thesis by (auto simp: update_conv' fun_eq_iff)
next
  case (Some al)
  with that show ?thesis by (auto simp: update_conv' fun_eq_iff)
qed

lemma map_set_Inr:
  "map_set k v m = Inr m' \<Longrightarrow> map_get m' = (map_get m)(k \<mapsto> v)"
  by (cases m) (auto simp: update_conv' fun_eq_iff)

lemma wf_map_set: "wf_map m \<Longrightarrow> map_set k v m = Inr m' \<Longrightarrow> wf_map m'"
  by (cases m) (auto simp: wf_map_def distinct_update)

section \<open>Programs over a history of calls\<close>

type_synonym ('e, 'a) io = "('e list, 'a) state"

definition call :: "'e \<Rightarrow> ('e list \<Rightarrow> 'a) \<Rightarrow> ('e, 'a) io" where
  "call e resp = State (\<lambda>h. (resp h, h @ [e]))"

abbreviation ret :: "'a \<Rightarrow> ('e, 'a) io" where
  "ret \<equiv> State_Monad.return"

lemma run_call [simp, run_simps]: "run_state (call e resp) h = (resp h, h @ [e])"
  by (simp add: call_def)

lemma run_if [run_simps]:
  "run_state (if b then m else n) h = (if b then run_state m h else run_state n h)"
  by simp

text \<open>The calls a program can make: every run extends the history by events in \<open>P\<close>.\<close>

definition emits :: "('e \<Rightarrow> bool) \<Rightarrow> ('e, 'a) io \<Rightarrow> bool" where
  "emits P m \<longleftrightarrow> (\<forall>h. \<exists>evs. snd (run_state m h) = h @ evs \<and> list_all P evs)"

lemma emitsI:
  "(\<And>h. \<exists>evs. snd (run_state m h) = h @ evs \<and> list_all P evs) \<Longrightarrow> emits P m"
  by (simp add: emits_def)

lemma emitsE:
  assumes "emits P m"
  obtains evs where "snd (run_state m h) = h @ evs" and "list_all P evs"
  using assms by (auto simp: emits_def)

lemma emits_return [emits_rules]: "emits P (ret x)"
  by (simp add: emits_def)

lemma emits_call [emits_rules]: "P e \<Longrightarrow> emits P (call e resp)"
  by (simp add: emits_def)

lemma emits_bind [emits_rules]:
  assumes "emits P m" and "\<And>x. emits P (f x)"
  shows "emits P (State_Monad.bind m f)"
proof (rule emitsI)
  fix h
  obtain a h' where m: "run_state m h = (a, h')" by fastforce
  obtain es where es: "h' = h @ es" "list_all P es"
    using emitsE [OF assms(1), of h] m by auto
  obtain fs where fs: "snd (run_state (f a) h') = h' @ fs" "list_all P fs"
    using emitsE [OF assms(2) [of a], of h'] by auto
  show "\<exists>evs. snd (run_state (State_Monad.bind m f) h) = h @ evs \<and> list_all P evs"
    using m es fs by (intro exI [of _ "es @ fs"]) simp
qed

lemma emits_if [emits_rules]:
  "(b \<Longrightarrow> emits P m) \<Longrightarrow> (\<not> b \<Longrightarrow> emits P n) \<Longrightarrow> emits P (if b then m else n)"
  by simp

lemma emits_case_option [emits_rules]:
  "(x = None \<Longrightarrow> emits P m) \<Longrightarrow> (\<And>y. x = Some y \<Longrightarrow> emits P (f y)) \<Longrightarrow>
     emits P (case x of None \<Rightarrow> m | Some y \<Rightarrow> f y)"
  by (cases x) simp_all

lemma emits_case_sum [emits_rules]:
  "(\<And>e. x = Inl e \<Longrightarrow> emits P (m e)) \<Longrightarrow> (\<And>y. x = Inr y \<Longrightarrow> emits P (f y)) \<Longrightarrow>
     emits P (case x of Inl e \<Rightarrow> m e | Inr y \<Rightarrow> f y)"
  by (cases x) simp_all

lemma emits_mono: "emits P m \<Longrightarrow> (\<And>e. P e \<Longrightarrow> Q e) \<Longrightarrow> emits Q m"
  by (fastforce simp: emits_def list_all_iff)

text \<open>A program that can make only calls in \<open>P\<close> makes no call outside it.\<close>

lemma emits_new_events:
  assumes "emits P m" and "run_state m h = (r, h @ evs)"
  shows "list_all P evs"
  using emitsE [OF assms(1), of h] assms(2) by auto

lemma emits_extends:
  assumes "emits P m" and "run_state m h = (r, h')"
  obtains evs where "h' = h @ evs" and "list_all P evs"
  using emitsE [OF assms(1), of h] assms(2) by auto

lemma emits_True_call_first:
  assumes "\<And>x. emits P (f x)"
  shows "\<exists>evs. snd (run_state (State_Monad.bind (call e resp) f) h) = h @ e # evs"
proof -
  obtain evs where "snd (run_state (f (resp h)) (h @ [e])) = (h @ [e]) @ evs"
    using assms [of "resp h"] unfolding emits_def by blast
  then show ?thesis by simp
qed

section \<open>Lists\<close>

lemma list_all_filter_None: "list_all (\<lambda>x. \<not> P x) xs \<Longrightarrow> filter P xs = []"
  by (simp add: list_all_iff)

lemma find_append_None: "find P xs = None \<Longrightarrow> find P (xs @ ys) = find P ys"
  by (induction xs) (auto split: if_splits)

lemma map_of_eq_Some_last:
  "map_of (rev xs) k = Some v \<Longrightarrow> (k, v) \<in> set xs"
  by (drule map_of_SomeD) simp

end
