(* ===== verification/Go_Strings.thy ===== *)
theory Go_Strings
  imports Prelude "HOL-Library.Char_ord" "HOL-Library.List_Lexorder"
begin

text \<open>
  The string functions of Go's standard library that the program calls. A Go string is a
  sequence of bytes, so a string of the model is a list of \<open>char\<close>, each one byte.
  \<^item> \<^verbatim>\<open>strings\<close>: \<open>HasPrefix\<close>, \<open>TrimPrefix\<close>, \<open>Contains\<close>, \<open>ReplaceAll\<close>
    (with a one-byte pattern, the only use), \<open>Split\<close> and \<open>Join\<close>, \<open>Repeat\<close>,
    \<open>IndexAny\<close> and \<open>ToUpper\<close>;
  \<^item> \<^verbatim>\<open>unicode/utf8\<close>: the runes of a string and \<open>ValidString\<close>;
  \<^item> \<^verbatim>\<open>fmt\<close>: the verbs \<^verbatim>\<open>%d\<close> and \<^verbatim>\<open>%016x\<close>.
  The lemmas are the algebra the components use: prefixes and their removal, splitting
  against joining, UTF-8 validity of a concatenation, injectivity of the printed numbers.
\<close>

section \<open>Prefixes and substrings\<close>

definition HasPrefix :: "string \<Rightarrow> string \<Rightarrow> bool" where
  "HasPrefix s p \<longleftrightarrow> take (length p) s = p"

definition TrimPrefix :: "string \<Rightarrow> string \<Rightarrow> string" where
  "TrimPrefix s p = (if HasPrefix s p then drop (length p) s else s)"

primrec Contains :: "string \<Rightarrow> string \<Rightarrow> bool" where
  "Contains [] sub \<longleftrightarrow> sub = []"
| "Contains (c # cs) sub \<longleftrightarrow> HasPrefix (c # cs) sub \<or> Contains cs sub"

definition ReplaceAll :: "string \<Rightarrow> char \<Rightarrow> string \<Rightarrow> string" where
  "ReplaceAll s old new = concat (map (\<lambda>c. if c = old then new else [c]) s)"

lemma HasPrefix_append [simp]: "HasPrefix (p @ s) p"
  by (simp add: HasPrefix_def)

lemma HasPrefix_iff: "HasPrefix s p \<longleftrightarrow> (\<exists>r. s = p @ r)"
  by (metis HasPrefix_append HasPrefix_def append_take_drop_id)

lemma TrimPrefix_append [simp]: "TrimPrefix (p @ s) p = s"
  by (simp add: TrimPrefix_def)

lemma TrimPrefix_no_prefix: "\<not> HasPrefix s p \<Longrightarrow> TrimPrefix s p = s"
  by (simp add: TrimPrefix_def)

lemma Contains_iff: "Contains s sub \<longleftrightarrow> (\<exists>a b. s = a @ sub @ b)"
proof (induction s)
  case Nil
  then show ?case by auto
next
  case (Cons c cs)
  show ?case
  proof
    assume "Contains (c # cs) sub"
    then consider "HasPrefix (c # cs) sub" | "Contains cs sub" by auto
    then show "\<exists>a b. c # cs = a @ sub @ b"
    proof cases
      case 1
      then show ?thesis by (metis HasPrefix_iff append_Nil)
    next
      case 2
      then show ?thesis using Cons.IH by (metis append_Cons)
    qed
  next
    assume "\<exists>a b. c # cs = a @ sub @ b"
    then obtain a b where ab: "c # cs = a @ sub @ b" by blast
    show "Contains (c # cs) sub"
    proof (cases a)
      case Nil
      with ab have "HasPrefix (c # cs) sub" by (auto simp: HasPrefix_iff)
      then show ?thesis by simp
    next
      case (Cons a0 as)
      with ab have "Contains cs sub" using \<open>Contains cs sub \<longleftrightarrow> (\<exists>a b. cs = a @ sub @ b)\<close> by auto
      then show ?thesis by simp
    qed
  qed
qed

lemma Contains_appendI: "Contains (a @ sub @ b) sub"
  by (auto simp: Contains_iff)

lemma ReplaceAll_simps [simp]:
  "ReplaceAll [] old new = []"
  "ReplaceAll (c # cs) old new = (if c = old then new else [c]) @ ReplaceAll cs old new"
  by (simp_all add: ReplaceAll_def)

lemma ReplaceAll_remove: "ReplaceAll s old [] = filter (\<lambda>c. c \<noteq> old) s"
  by (induction s) auto

section \<open>Split, Join, Repeat, IndexAny\<close>

text \<open>\<^verbatim>\<open>strings.Split(s, sep)\<close> with a one-byte separator: \<open>Split\<close> of the empty string is one empty piece.\<close>

fun Split :: "string \<Rightarrow> char \<Rightarrow> string list" where
  "Split [] sep = [[]]"
| "Split (c # cs) sep =
     (if c = sep then [] # Split cs sep
      else (case Split cs sep of [] \<Rightarrow> [[c]] | p # ps \<Rightarrow> (c # p) # ps))"

fun Join :: "string list \<Rightarrow> string \<Rightarrow> string" where
  "Join [] sep = []"
| "Join [x] sep = x"
| "Join (x # y # zs) sep = x @ sep @ Join (y # zs) sep"

definition Repeat :: "string \<Rightarrow> nat \<Rightarrow> string" where
  "Repeat s n = concat (replicate n s)"

text \<open>\<^verbatim>\<open>strings.IndexAny\<close>: \<open>None\<close> is the result \<open>-1\<close>.\<close>

primrec IndexAny :: "string \<Rightarrow> string \<Rightarrow> nat option" where
  "IndexAny [] chars = None"
| "IndexAny (c # cs) chars =
     (if c \<in> set chars then Some 0 else map_option Suc (IndexAny cs chars))"

lemma Split_nonempty [simp]: "Split s sep \<noteq> []"
  by (induction s sep rule: Split.induct) (auto split: list.splits)

lemma Join_Cons: "ps \<noteq> [] \<Longrightarrow> Join (p # ps) sep = p @ sep @ Join ps sep"
  by (cases ps) auto

lemma Join_Split: "Join (Split s sep) [sep] = s"
proof (induction s sep rule: Split.induct)
  case (2 c cs sep)
  obtain p ps where ps: "Split cs sep = p # ps" by (cases "Split cs sep") auto
  with 2 have IH: "Join (p # ps) [sep] = cs" by auto
  show ?case
    using IH ps by (cases ps) (auto simp: Join_Cons)
qed simp

lemma Split_no_sep: "sep \<notin> set s \<Longrightarrow> Split s sep = [s]"
  by (induction s) auto

lemma Split_pieces_no_sep: "p \<in> set (Split s sep) \<Longrightarrow> sep \<notin> set p"
proof (induction s sep arbitrary: p rule: Split.induct)
  case (2 c cs sep)
  obtain q qs where qs: "Split cs sep = q # qs" by (cases "Split cs sep") auto
  then show ?case using 2 by (auto split: if_splits)
qed simp

lemma Split_append_sep:
  "sep \<notin> set a \<Longrightarrow> Split (a @ sep # b) sep = a # Split b sep"
  by (induction a) auto

lemma Split_Join:
  assumes "ps \<noteq> []" and "\<forall>p \<in> set ps. sep \<notin> set p"
  shows "Split (Join ps [sep]) sep = ps"
  using assms
proof (induction ps rule: list_nonempty_induct)
  case (single p)
  then show ?case by (simp add: Split_no_sep)
next
  case (cons p ps)
  then show ?case by (simp add: Join_Cons Split_append_sep)
qed

lemma IndexAny_None: "IndexAny s chars = None \<longleftrightarrow> set s \<inter> set chars = {}"
  by (induction s) auto

lemma IndexAny_Some:
  "IndexAny s chars = Some i \<Longrightarrow> i < length s \<and> s ! i \<in> set chars"
  by (induction s arbitrary: i) (auto split: if_splits)

lemma Repeat_space: "Repeat [c] n = replicate n c"
  by (induction n) (auto simp: Repeat_def)

section \<open>Upper case\<close>

text \<open>
  \<^verbatim>\<open>strings.ToUpper\<close> on bytes. ASCII letters are mapped. Of the letters outside ASCII
  exactly two have an ASCII upper case, U+017F (bytes C5 BF, to S) and U+0131 (bytes C4 B1,
  to I), and they are mapped; every other letter outside ASCII stays outside ASCII, so its
  bytes, all at least 80, are left as they are. The program only looks for an ASCII word in the
  result, which no byte outside ASCII can be part of.
\<close>

definition upper_byte :: "char \<Rightarrow> char" where
  "upper_byte c =
     (if CHR ''a'' \<le> c \<and> c \<le> CHR ''z'' then char_of (of_char c - 32 :: nat) else c)"

fun ToUpper :: "string \<Rightarrow> string" where
  "ToUpper [] = []"
| "ToUpper [c] = [upper_byte c]"
| "ToUpper (c # d # cs) =
     (if c = CHR 0xC5 \<and> d = CHR 0xBF then CHR ''S'' # ToUpper cs
      else if c = CHR 0xC4 \<and> d = CHR 0xB1 then CHR ''I'' # ToUpper cs
      else upper_byte c # ToUpper (d # cs))"

definition is_ascii :: "char \<Rightarrow> bool" where
  "is_ascii c \<longleftrightarrow> (of_char c :: nat) < 128"

lemma ToUpper_ascii: "\<forall>c \<in> set s. is_ascii c \<Longrightarrow> ToUpper s = map upper_byte s"
  by (induction s rule: ToUpper.induct) (auto simp: is_ascii_def)

section \<open>UTF-8\<close>

definition byte :: "char \<Rightarrow> nat" where
  "byte c = of_char c"

definition cont :: "char \<Rightarrow> bool" where
  "cont c \<longleftrightarrow> 0x80 \<le> byte c \<and> byte c \<le> 0xBF"

text \<open>The first rune of a string and the rest; \<open>None\<close> where the bytes are not UTF-8.\<close>

definition second_ok :: "nat \<Rightarrow> char \<Rightarrow> bool" where
  "second_ok b c \<longleftrightarrow>
     (if b = 0xE0 then 0xA0 \<le> byte c \<and> byte c \<le> 0xBF
      else if b = 0xED then 0x80 \<le> byte c \<and> byte c \<le> 0x9F
      else if b = 0xF0 then 0x90 \<le> byte c \<and> byte c \<le> 0xBF
      else if b = 0xF4 then 0x80 \<le> byte c \<and> byte c \<le> 0x8F
      else cont c)"

fun decode_rune :: "string \<Rightarrow> (nat \<times> string) option" where
  "decode_rune [] = None"
| "decode_rune (c # cs) =
     (let b = byte c in
      if b < 0x80 then Some (b, cs)
      else if 0xC2 \<le> b \<and> b \<le> 0xDF then
        (case cs of c1 # r \<Rightarrow>
           if cont c1 then Some ((b - 0xC0) * 64 + (byte c1 - 0x80), r) else None
         | _ \<Rightarrow> None)
      else if 0xE0 \<le> b \<and> b \<le> 0xEF then
        (case cs of c1 # c2 # r \<Rightarrow>
           if second_ok b c1 \<and> cont c2
           then Some ((b - 0xE0) * 4096 + (byte c1 - 0x80) * 64 + (byte c2 - 0x80), r) else None
         | _ \<Rightarrow> None)
      else if 0xF0 \<le> b \<and> b \<le> 0xF4 then
        (case cs of c1 # c2 # c3 # r \<Rightarrow>
           if second_ok b c1 \<and> cont c2 \<and> cont c3
           then Some ((b - 0xF0) * 262144 + (byte c1 - 0x80) * 4096
                      + (byte c2 - 0x80) * 64 + (byte c3 - 0x80), r) else None
         | _ \<Rightarrow> None)
      else None)"

lemma decode_rune_shorter: "decode_rune s = Some (r, rest) \<Longrightarrow> length rest < length s"
  by (cases s) (auto simp: Let_def split: if_splits list.splits)

function runes :: "string \<Rightarrow> nat list option" where
  "runes [] = Some []"
| "runes (c # cs) =
     (case decode_rune (c # cs) of None \<Rightarrow> None
      | Some (r, rest) \<Rightarrow> map_option (Cons r) (runes rest))"
  by pat_completeness auto
termination
  by (relation "measure length") (auto dest: decode_rune_shorter simp del: decode_rune.simps)

definition ValidString :: "string \<Rightarrow> bool" where
  "ValidString s \<longleftrightarrow> runes s \<noteq> None"

declare decode_rune.simps(2) [simp del]

lemma decode_rune_append:
  "decode_rune a = Some (r, rest) \<Longrightarrow> decode_rune (a @ b) = Some (r, rest @ b)"
  by (cases a) (auto simp: decode_rune.simps Let_def split: if_splits list.splits)

lemma runes_append:
  "runes a = Some ra \<Longrightarrow> runes (a @ b) = map_option ((@) ra) (runes b)"
proof (induction a arbitrary: ra rule: runes.induct)
  case 1
  then show ?case by (cases "runes b") auto
next
  case (2 c cs)
  obtain r rest where d: "decode_rune (c # cs) = Some (r, rest)"
    using 2(2) by (auto split: option.splits)
  with 2(2) obtain ra' where ra: "runes rest = Some ra'" "ra = r # ra'" by auto
  have "decode_rune (c # cs @ b) = Some (r, rest @ b)"
    using decode_rune_append [OF d, of b] by simp
  moreover have "runes (rest @ b) = map_option ((@) ra') (runes b)"
    using 2(1) d ra(1) by simp
  ultimately show ?case
    using ra(2) by (cases "runes b") auto
qed

lemma decode_rune_ascii: "is_ascii c \<Longrightarrow> decode_rune (c # cs) = Some (byte c, cs)"
  by (simp add: decode_rune.simps is_ascii_def byte_def)

lemma runes_ascii_Cons: "is_ascii c \<Longrightarrow> runes (c # cs) = map_option (Cons (byte c)) (runes cs)"
  by (simp add: decode_rune_ascii)

text \<open>An ASCII byte is never inside another rune, so it splits the string cleanly.\<close>

lemma decode_rune_stops_at_ascii:
  assumes "decode_rune (a @ c # b) = Some (r, rest)" and "is_ascii c" and "a \<noteq> []"
  shows "\<exists>a'. decode_rune a = Some (r, a') \<and> rest = a' @ c # b"
proof -
  have nc: "\<not> cont c" "\<And>x. \<not> second_ok x c"
    using assms(2) by (auto simp: cont_def second_ok_def is_ascii_def byte_def)
  obtain d ds where a: "a = d # ds" using assms(3) by (cases a) auto
  show ?thesis
  proof (cases ds)
    case Nil
    then show ?thesis using assms a nc
      by (auto simp: decode_rune.simps Let_def split: if_splits list.splits)
  next
    case (Cons d1 ds1)
    note ds = this
    show ?thesis
    proof (cases ds1)
      case Nil
      then show ?thesis using assms a ds nc
        by (auto simp: decode_rune.simps Let_def split: if_splits list.splits)
    next
      case (Cons d2 ds2)
      then show ?thesis using assms a ds nc
        by (cases ds2) (auto simp: decode_rune.simps Let_def split: if_splits list.splits)
    qed
  qed
qed

lemma runes_ascii_split:
  "is_ascii c \<Longrightarrow> runes (a @ c # b) = Some rs \<Longrightarrow>
     \<exists>ra rb. runes a = Some ra \<and> runes b = Some rb \<and> rs = ra @ byte c # rb"
proof (induction a arbitrary: rs rule: length_induct)
  case (1 a)
  show ?case
  proof (cases a)
    case Nil
    then show ?thesis using 1 by (auto simp: decode_rune_ascii)
  next
    case (Cons d ds)
    with 1(3) obtain r rest rs' where d: "decode_rune (a @ c # b) = Some (r, rest)"
      and rs: "runes rest = Some rs'" "rs = r # rs'"
      by (auto split: option.splits)
    from decode_rune_stops_at_ascii [OF d 1(2)] Cons obtain a' where
      a': "decode_rune a = Some (r, a')" "rest = a' @ c # b" by auto
    have "length a' < length a" using a'(1) by (rule decode_rune_shorter)
    with 1(1,2) rs(1) a'(2) obtain ra rb where
      "runes a' = Some ra" "runes b = Some rb" "rs' = ra @ byte c # rb" by blast
    then show ?thesis using a'(1) rs(2) Cons by auto
  qed
qed

lemma ValidString_ascii_split:
  assumes "is_ascii c"
  shows "ValidString (a @ c # b) \<longleftrightarrow> ValidString a \<and> ValidString b"
proof
  assume "ValidString (a @ c # b)"
  then show "ValidString a \<and> ValidString b"
    using runes_ascii_split [OF assms] by (fastforce simp: ValidString_def)
next
  assume "ValidString a \<and> ValidString b"
  then obtain ra rb where "runes a = Some ra" "runes b = Some rb"
    by (auto simp: ValidString_def)
  then show "ValidString (a @ c # b)"
    using runes_append [of a ra "c # b"] runes_ascii_Cons [OF assms, of b]
    by (simp add: ValidString_def)
qed

text \<open>Every ASCII byte of a valid string is one of its runes.\<close>

lemma runes_ascii_member:
  assumes "runes s = Some rs" and "c \<in> set s" and "is_ascii c"
  shows "byte c \<in> set rs"
proof -
  obtain a b where "s = a @ c # b" using assms(2) by (metis split_list)
  then show ?thesis using runes_ascii_split [OF assms(3)] assms(1) by fastforce
qed

section \<open>Printed numbers\<close>

definition digit_char :: "nat \<Rightarrow> char" where
  "digit_char d = char_of (if d < 10 then 48 + d else 87 + d)"

fun digits :: "nat \<Rightarrow> nat \<Rightarrow> nat list" where
  "digits b n = (if b < 2 \<or> n < b then [n] else digits b (n div b) @ [n mod b])"

declare digits.simps [simp del]

text \<open>\<^verbatim>\<open>%d\<close> of an integer.\<close>

definition print_nat :: "nat \<Rightarrow> string" where
  "print_nat n = map digit_char (digits 10 n)"

definition print_int :: "int \<Rightarrow> string" where
  "print_int i = (if i < 0 then CHR ''-'' # print_nat (nat (- i)) else print_nat (nat i))"

text \<open>\<^verbatim>\<open>%016x\<close>: hexadecimal, padded with zeros to 16 characters.\<close>

definition print_hex16 :: "nat \<Rightarrow> string" where
  "print_hex16 n =
     (let ds = digits 16 n in replicate (16 - length ds) CHR ''0'' @ map digit_char ds)"

primrec digits_value :: "nat \<Rightarrow> nat list \<Rightarrow> nat" where
  "digits_value b [] = 0"
| "digits_value b (d # ds) = d * b ^ length ds + digits_value b ds"

lemma digits_value_append: "digits_value b (xs @ [d]) = digits_value b xs * b + d"
  by (induction xs) (auto simp: algebra_simps)

lemma digits_value_digits: "2 \<le> b \<Longrightarrow> digits_value b (digits b n) = n"
proof (induction b n rule: digits.induct)
  case (1 b n)
  show ?case
  proof (cases "n < b")
    case True
    then show ?thesis by (simp add: digits.simps [of b n])
  next
    case False
    with 1 have "digits_value b (digits b (n div b)) = n div b" by auto
    with False 1(2) show ?thesis
      by (simp add: digits.simps [of b n] digits_value_append)
  qed
qed

lemma digits_small: "2 \<le> b \<Longrightarrow> d \<in> set (digits b n) \<Longrightarrow> d < b"
proof (induction b n rule: digits.induct)
  case (1 b n)
  then show ?case
    by (cases "n < b") (auto simp: digits.simps [of b n])
qed

lemma digits_nonempty: "digits b n \<noteq> []"
  by (subst digits.simps) simp

lemma digits_length: "2 \<le> b \<Longrightarrow> n < b ^ Suc k \<Longrightarrow> length (digits b n) \<le> Suc k"
proof (induction k arbitrary: n)
  case 0
  then show ?case by (simp add: digits.simps)
next
  case (Suc k)
  show ?case
  proof (cases "n < b")
    case True
    then show ?thesis by (simp add: digits.simps)
  next
    case False
    have "n div b < b ^ Suc k"
      using Suc.prems by (simp add: less_mult_imp_div_less mult.commute)
    then have "length (digits b (n div b)) \<le> Suc k" using Suc by simp
    with False Suc.prems show ?thesis by (simp add: digits.simps [of b n])
  qed
qed

lemma of_digit_char: "d < 16 \<Longrightarrow> of_char (digit_char d) = (if d < 10 then 48 + d else 87 + d)"
  by (simp add: digit_char_def)

lemma digit_char_inj: "d < 16 \<Longrightarrow> e < 16 \<Longrightarrow> digit_char d = digit_char e \<longleftrightarrow> d = e"
proof
  assume d: "d < 16" and e: "e < 16" and "digit_char d = digit_char e"
  then have "(of_char (digit_char d) :: nat) = of_char (digit_char e)" by simp
  then have "(if d < 10 then 48 + d else 87 + d) = (if e < 10 then 48 + e else 87 + e)"
    by (simp only: of_digit_char [OF d] of_digit_char [OF e])
  then show "d = e" using d e by (simp split: if_splits)
qed simp

lemma digit_char_0: "digit_char 0 = CHR ''0''"
  by code_simp

lemma map_digit_char_inj:
  assumes "\<forall>d \<in> set xs. d < 16" and "\<forall>d \<in> set ys. d < 16"
    and "map digit_char xs = map digit_char ys"
  shows "xs = ys"
  using assms(3,1,2)
  by (induction xs arbitrary: ys) (auto simp: digit_char_inj Cons_eq_map_conv)

lemma digits_below_16: "2 \<le> b \<Longrightarrow> b \<le> 16 \<Longrightarrow> \<forall>d \<in> set (digits b n). d < 16"
  using digits_small [of b _ n] by fastforce

lemma print_nat_inj: "print_nat m = print_nat n \<longleftrightarrow> m = n"
proof
  assume "print_nat m = print_nat n"
  then have "digits 10 m = digits 10 n"
    unfolding print_nat_def
    by (intro map_digit_char_inj [OF digits_below_16 digits_below_16]) simp_all
  then have "digits_value 10 (digits 10 m) = digits_value 10 (digits 10 n)" by simp
  then show "m = n" by (simp add: digits_value_digits)
qed simp

lemma digits_value_zeros: "digits_value b (replicate n 0 @ xs) = digits_value b xs"
  by (induction n) auto

lemma print_hex16_length: "n < 2 ^ 64 \<Longrightarrow> length (print_hex16 n) = 16"
proof -
  assume "n < 2 ^ 64"
  then have "length (digits 16 n) \<le> Suc 15"
    by (intro digits_length) simp_all
  then show ?thesis by (simp add: print_hex16_def Let_def)
qed

lemma print_hex16_inj: "print_hex16 m = print_hex16 n \<Longrightarrow> m = n"
proof -
  let ?pad = "\<lambda>n. replicate (16 - length (digits 16 n)) 0 @ digits 16 n"
  have pad: "print_hex16 k = map digit_char (?pad k)" for k
    by (simp add: print_hex16_def Let_def digit_char_0)
  have small: "\<forall>d \<in> set (?pad k). d < 16" for k
    using digits_below_16 [of 16 k] by auto
  assume "print_hex16 m = print_hex16 n"
  then have "?pad m = ?pad n"
    unfolding pad by (rule map_digit_char_inj [OF small small])
  then have "digits_value 16 (?pad m) = digits_value 16 (?pad n)" by simp
  then show "m = n" by (simp add: digits_value_zeros digits_value_digits)
qed

end
