(* ===== verification/Go_Time.thy ===== *)
theory Go_Time
  imports Go_Strings
begin

text \<open>
  The part of Go's \<^verbatim>\<open>time\<close> package the program uses. An instant is its number of
  nanoseconds since 1970-01-01T00:00:00Z, a \<^verbatim>\<open>time.Duration\<close> a signed 64-bit number of
  nanoseconds.
  \<^item> \<open>Since\<close>: the difference of two instants, saturated to the range of a duration;
    \<open>dur_sub\<close>: subtraction of durations, which wraps around;
  \<^item> \<open>civil_of_days\<close> and \<open>days_of_civil\<close>: the proleptic Gregorian calendar;
  \<^item> \<open>Format_RFC3339\<close> and \<open>Parse_RFC3339\<close>: the layout \<^verbatim>\<open>2006-01-02T15:04:05Z07:00\<close>.
    The parser follows the standard library: it takes a one-digit hour, a fraction of a second
    after a period or a comma, and offsets up to 24:60.
  The main lemma, \<open>Parse_Format_RFC3339\<close>, is that an instant written in this layout and
  read back is the instant cut to whole seconds.
\<close>

section \<open>Durations\<close>

type_synonym gotime = int
type_synonym duration = int

definition maxDuration :: duration where
  "maxDuration = 2 ^ 63 - 1"

definition minDuration :: duration where
  "minDuration = - (2 ^ 63)"

definition wrap64 :: "int \<Rightarrow> int" where
  "wrap64 x = (x + 2 ^ 63) mod 2 ^ 64 - 2 ^ 63"

text \<open>\<^verbatim>\<open>t.Sub(u)\<close> and \<^verbatim>\<open>time.Since(start)\<close>, read at the instant \<open>now\<close>.\<close>

definition Sub :: "gotime \<Rightarrow> gotime \<Rightarrow> duration" where
  "Sub t u = max minDuration (min maxDuration (t - u))"

definition Since :: "gotime \<Rightarrow> gotime \<Rightarrow> duration" where
  "Since now start = Sub now start"

definition dur_sub :: "duration \<Rightarrow> duration \<Rightarrow> duration" where
  "dur_sub a b = wrap64 (a - b)"

definition Second :: duration where "Second = 10 ^ 9"
definition Minute :: duration where "Minute = 60 * 10 ^ 9"

definition is_duration :: "int \<Rightarrow> bool" where
  "is_duration d \<longleftrightarrow> minDuration \<le> d \<and> d \<le> maxDuration"

text \<open>The zero \<^verbatim>\<open>time.Time\<close>: year 1.\<close>

definition zeroTime :: gotime where
  "zeroTime = - 62135596800 * 10 ^ 9"

text \<open>\<^verbatim>\<open>(*metav1.Time).IsZero()\<close>: a nil pointer or the zero time.\<close>

definition IsZero :: "gotime option \<Rightarrow> bool" where
  "IsZero t \<longleftrightarrow> t = None \<or> t = Some zeroTime"

lemma wrap64_id: "is_duration x \<Longrightarrow> wrap64 x = x"
  by (simp add: wrap64_def is_duration_def minDuration_def maxDuration_def)

lemma Since_bounds: "is_duration (Since now start)"
  by (simp add: Since_def Sub_def is_duration_def minDuration_def maxDuration_def)

lemma Since_nonneg: "start \<le> now \<Longrightarrow> 0 \<le> Since now start"
  by (simp add: Since_def Sub_def minDuration_def maxDuration_def)

lemma Since_less_iff:
  "is_duration ttl \<Longrightarrow> Since now start < ttl \<longleftrightarrow> now - start < ttl \<and> minDuration < ttl"
  by (auto simp: Since_def Sub_def is_duration_def minDuration_def maxDuration_def)

lemma Since_exact: "is_duration (now - start) \<Longrightarrow> Since now start = now - start"
  by (simp add: Since_def Sub_def is_duration_def)

section \<open>The calendar\<close>

definition is_leap :: "int \<Rightarrow> bool" where
  "is_leap y \<longleftrightarrow> y mod 4 = 0 \<and> (y mod 100 \<noteq> 0 \<or> y mod 400 = 0)"

text \<open>Days from 0001-01-01 to the first of January of a year.\<close>

definition year_start :: "int \<Rightarrow> int" where
  "year_start y = 365 * (y - 1) + (y - 1) div 4 - (y - 1) div 100 + (y - 1) div 400"

definition month_lengths :: "int \<Rightarrow> int list" where
  "month_lengths y = [31, if is_leap y then 29 else 28, 31, 30, 31, 30, 31, 31, 30, 31, 30, 31]"

definition daysIn :: "int \<Rightarrow> int \<Rightarrow> int" where
  "daysIn m y = (if 1 \<le> m \<and> m \<le> 12 then month_lengths y ! nat (m - 1) else 0)"

definition daysBefore :: "int \<Rightarrow> int \<Rightarrow> int" where
  "daysBefore m y = sum_list (take (nat (m - 1)) (month_lengths y))"

text \<open>Days since 1970-01-01 of a date.\<close>

definition days_of_civil :: "int \<Rightarrow> int \<Rightarrow> int \<Rightarrow> int" where
  "days_of_civil y m d = year_start y + daysBefore m y + (d - 1) - 719162"

text \<open>The year and the day of the year: 400-, 100-, 4- and 1-year cycles.\<close>

definition year_yday :: "int \<Rightarrow> int \<times> int" where
  "year_yday n =
     (let a = n div 146097; r = n mod 146097;
          b = min 3 (r div 36524); r2 = r - 36524 * b;
          c = r2 div 1461; r3 = r2 - 1461 * c;
          e = min 3 (r3 div 365)
      in (400 * a + 100 * b + 4 * c + e + 1, r3 - 365 * e))"

text \<open>Month and day of the month from the day of the year.\<close>

fun month_day :: "int list \<Rightarrow> int \<Rightarrow> int \<Rightarrow> int \<times> int" where
  "month_day [] m yd = (m, yd + 1)"
| "month_day (l # ls) m yd = (if yd < l \<or> ls = [] then (m, yd + 1) else month_day ls (m + 1) (yd - l))"

definition civil_of_days :: "int \<Rightarrow> int \<times> int \<times> int" where
  "civil_of_days days =
     (let (y, yd) = year_yday (days + 719162); (m, d) = month_day (month_lengths y) 1 yd
      in (y, m, d))"

lemma year_cycles:
  fixes a b c e :: int
  assumes "0 \<le> b" "b \<le> 3" "0 \<le> c" "c \<le> 24" "0 \<le> e" "e \<le> 3"
  shows "year_start (400 * a + 100 * b + 4 * c + e + 1) = 146097 * a + 36524 * b + 1461 * c + 365 * e"
proof -
  let ?z = "400 * a + 100 * b + 4 * c + e"
  have "?z div 4 = 100 * a + 25 * b + c" using assms by linarith
  moreover have "?z div 100 = 4 * a + b" using assms by linarith
  moreover have "?z div 400 = a" using assms by linarith
  ultimately show ?thesis by (simp add: year_start_def)
qed

text \<open>The last year of a cycle of four is leap, unless it ends a century other than the fourth.\<close>

lemma last_of_four_is_leap:
  fixes a b c :: int
  assumes "0 \<le> c" and "c \<le> 24" and "c = 24 \<longrightarrow> b = 3"
  shows "is_leap (400 * a + 100 * b + 4 * (c + 1))"
proof -
  define y where "y = 400 * a + 100 * b + 4 * (c + 1)"
  have "y mod 4 = 0" unfolding y_def by presburger
  moreover have "y mod 100 \<noteq> 0 \<or> y mod 400 = 0"
  proof (cases "c = 24")
    case True
    then have "y = 400 * (a + 1)" using assms(3) by (simp add: y_def)
    then show ?thesis by simp
  next
    case False
    then have c': "0 < 4 * (c + 1)" "4 * (c + 1) < 100" using assms by auto
    have "y = 4 * (c + 1) + 100 * (4 * a + b)" unfolding y_def by simp
    then have "y mod 100 = 4 * (c + 1) mod 100" by (simp only: mod_mult_self2)
    also have "\<dots> = 4 * (c + 1)" using c' by (intro mod_pos_pos_trivial) auto
    finally show ?thesis using c' by simp
  qed
  ultimately show ?thesis unfolding y_def [symmetric] by (simp add: is_leap_def)
qed

lemma year_yday_correct:
  assumes "year_yday n = (y, yd)"
  shows "year_start y + yd = n" and "0 \<le> yd" and "yd \<le> (if is_leap y then 365 else 364)"
proof -
  define a r where "a = n div 146097" and "r = n mod 146097"
  define b where "b = min 3 (r div 36524)"
  define r2 where "r2 = r - 36524 * b"
  define c where "c = r2 div 1461"
  define r3 where "r3 = r2 - 1461 * c"
  define e where "e = min 3 (r3 div 365)"
  have "year_yday n = (400 * a + 100 * b + 4 * c + e + 1, r3 - 365 * e)"
    unfolding year_yday_def a_def r_def b_def r2_def c_def r3_def e_def Let_def by (rule refl)
  with assms have y: "y = 400 * a + 100 * b + 4 * c + e + 1" and yd: "yd = r3 - 365 * e"
    by simp_all
  have n: "n = 146097 * a + r" unfolding a_def r_def by simp
  have r: "0 \<le> r" "r < 146097" unfolding r_def by auto
  have b: "0 \<le> b" "b \<le> 3" using r unfolding b_def by auto
  have r2: "0 \<le> r2" "r2 \<le> 36524" "b < 3 \<longrightarrow> r2 < 36524"
    using r unfolding r2_def b_def by (auto simp: min_def split: if_splits)
  have c: "0 \<le> c" "c \<le> 24" using r2 unfolding c_def by auto
  have r3: "0 \<le> r3" "r3 < 1461" "c = 24 \<longrightarrow> r3 \<le> 1460 \<and> (b < 3 \<longrightarrow> r3 < 1460)"
    using r2 unfolding r3_def c_def by auto
  have e: "0 \<le> e" "e \<le> 3" using r3 unfolding e_def by auto
  have yd_b: "0 \<le> yd" "yd \<le> 365" "yd = 365 \<longrightarrow> e = 3 \<and> r3 = 1460"
    using r3 unfolding yd e_def by (auto simp: min_def split: if_splits)
  show "year_start y + yd = n"
    using year_cycles [OF b c e, of a] n unfolding y yd r3_def r2_def by simp
  show "0 \<le> yd" by fact
  show "yd \<le> (if is_leap y then 365 else 364)"
  proof (cases "yd = 365")
    case True
    then have e3: "e = 3" and r1460: "r3 = 1460" using yd_b by auto
    have y4: "y = 400 * a + 100 * b + 4 * (c + 1)" unfolding y e3 by simp
    have "is_leap y" unfolding y4 by (rule last_of_four_is_leap) (use r3 r1460 b c in auto)
    then show ?thesis using yd_b by simp
  next
    case False
    then show ?thesis using yd_b by simp
  qed
qed

lemma month_day_correct:
  assumes "month_day ls m yd = (m', d)" "0 \<le> yd" "yd < sum_list ls" "\<forall>l \<in> set ls. 0 \<le> l"
  shows "m \<le> m' \<and> m' < m + int (length ls) \<and> 1 \<le> d \<and> d \<le> ls ! nat (m' - m)
         \<and> sum_list (take (nat (m' - m)) ls) + (d - 1) = yd"
  using assms
proof (induction ls arbitrary: m yd)
  case Nil
  then show ?case by simp
next
  case (Cons l ls)
  show ?case
  proof (cases "yd < l \<or> ls = []")
    case True
    with Cons.prems show ?thesis by auto
  next
    case False
    with Cons have IH: "m + 1 \<le> m' \<and> m' < m + 1 + int (length ls) \<and> 1 \<le> d
        \<and> d \<le> ls ! nat (m' - (m + 1)) \<and> sum_list (take (nat (m' - (m + 1))) ls) + (d - 1) = yd - l"
      by auto
    moreover from IH have "nat (m' - m) = Suc (nat (m' - (m + 1)))" by linarith
    ultimately show ?thesis by auto
  qed
qed

lemma sum_month_lengths: "sum_list (month_lengths y) = (if is_leap y then 366 else 365)"
  by (simp add: month_lengths_def)

lemma civil_of_days_correct:
  assumes "civil_of_days days = (y, m, d)"
  shows "days_of_civil y m d = days" and "1 \<le> m" and "m \<le> 12" and "1 \<le> d" and "d \<le> daysIn m y"
proof -
  obtain yd where yd: "year_yday (days + 719162) = (y, yd)"
    and md: "month_day (month_lengths y) 1 yd = (m, d)"
    using assms by (auto simp: civil_of_days_def split: prod.splits)
  note Y = year_yday_correct [OF yd]
  have "yd < sum_list (month_lengths y)" using Y(3) by (auto simp: sum_month_lengths split: if_splits)
  moreover have "\<forall>l \<in> set (month_lengths y). 0 \<le> l" by (simp add: month_lengths_def)
  ultimately have M: "1 \<le> m \<and> m < 1 + int (length (month_lengths y)) \<and> 1 \<le> d
      \<and> d \<le> month_lengths y ! nat (m - 1)
      \<and> sum_list (take (nat (m - 1)) (month_lengths y)) + (d - 1) = yd"
    using month_day_correct [OF md Y(2)] by blast
  then show "1 \<le> m" "1 \<le> d" by auto
  show m12: "m \<le> 12" using M by (simp add: month_lengths_def)
  show "d \<le> daysIn m y" using M m12 by (simp add: daysIn_def)
  show "days_of_civil y m d = days" using M Y(1) by (simp add: days_of_civil_def daysBefore_def)
qed

section \<open>Printing\<close>

text \<open>\<^verbatim>\<open>appendInt(x, width)\<close>\<close>

definition appendInt :: "int \<Rightarrow> nat \<Rightarrow> string" where
  "appendInt x width =
     (let s = print_nat (nat \<bar>x\<bar>)
      in (if x < 0 then ''-'' else '''') @ replicate (width - length s) CHR ''0'' @ s)"

text \<open>\<open>offset\<close> is the offset of the local zone in seconds.\<close>

definition Format_RFC3339 :: "gotime \<Rightarrow> int \<Rightarrow> string" where
  "Format_RFC3339 t offset =
     (let sec = t div 10 ^ 9 + offset;
          (y, m, d) = civil_of_days (sec div 86400);
          s = sec mod 86400;
          zone = \<bar>offset\<bar> div 60
      in appendInt y 4 @ ''-'' @ appendInt m 2 @ ''-'' @ appendInt d 2 @ ''T''
         @ appendInt (s div 3600) 2 @ '':'' @ appendInt (s mod 3600 div 60) 2 @ '':''
         @ appendInt (s mod 60) 2
         @ (if offset = 0 then ''Z''
            else (if offset < 0 then ''-'' else ''+'')
              @ appendInt (zone div 60) 2 @ '':'' @ appendInt (zone mod 60) 2))"

section \<open>Parsing\<close>

definition isDigit :: "char \<Rightarrow> bool" where
  "isDigit c \<longleftrightarrow> 48 \<le> byte c \<and> byte c \<le> 57"

definition digit_val :: "char \<Rightarrow> int" where
  "digit_val c = int (byte c) - 48"

definition getnum :: "bool \<Rightarrow> string \<Rightarrow> (int \<times> string) option" where
  "getnum fixed s =
     (case s of
        [] \<Rightarrow> None
      | c # r \<Rightarrow>
          if \<not> isDigit c then None
          else (case r of
                  c' # r' \<Rightarrow> if isDigit c' then Some (digit_val c * 10 + digit_val c', r')
                            else if fixed then None else Some (digit_val c, r)
                | [] \<Rightarrow> if fixed then None else Some (digit_val c, r)))"

definition skip :: "char \<Rightarrow> string \<Rightarrow> string option" where
  "skip c s = (case s of [] \<Rightarrow> None | c' # r \<Rightarrow> if c' = c then Some r else None)"

definition getyear :: "string \<Rightarrow> (int \<times> string) option" where
  "getyear s =
     (case s of
        a # b # c # d # r \<Rightarrow>
          if isDigit a \<and> isDigit b \<and> isDigit c \<and> isDigit d
          then Some (digit_val a * 1000 + digit_val b * 100 + digit_val c * 10 + digit_val d, r)
          else None
      | _ \<Rightarrow> None)"

definition digits_int :: "string \<Rightarrow> int" where
  "digits_int s = foldl (\<lambda>v c. v * 10 + digit_val c) 0 s"

text \<open>The optional fraction of a second: nine digits count, further digits are dropped.\<close>

definition getfrac :: "string \<Rightarrow> int \<times> string" where
  "getfrac s =
     (case s of
        p # q # r \<Rightarrow>
          if (p = CHR ''.'' \<or> p = CHR '','') \<and> isDigit q
          then (let ds = takeWhile isDigit (q # r); used = take 9 ds
                in (digits_int used * 10 ^ (9 - length used), dropWhile isDigit (q # r)))
          else (0, s)
      | _ \<Rightarrow> (0, s))"

definition getzone :: "string \<Rightarrow> (int \<times> string) option" where
  "getzone s =
     (case s of
        [] \<Rightarrow> None
      | c # r \<Rightarrow>
          if c = CHR ''Z'' then Some (0, r)
          else (case r of
                  h1 # h2 # col # m1 # m2 # rest \<Rightarrow>
                    (case (getnum True [h1, h2], getnum True [m1, m2]) of
                       (Some (hr, _), Some (mm, _)) \<Rightarrow>
                         if col \<noteq> CHR '':'' \<or> 24 < hr \<or> 60 < mm then None
                         else if c = CHR ''+'' then Some ((hr * 60 + mm) * 60, rest)
                         else if c = CHR ''-'' then Some (- ((hr * 60 + mm) * 60), rest)
                         else None
                     | _ \<Rightarrow> None)
                | _ \<Rightarrow> None))"

definition Parse_RFC3339 :: "string \<Rightarrow> gotime option" where
  "Parse_RFC3339 s0 =
     do {
       (y, s) \<leftarrow> getyear s0;
       s \<leftarrow> skip CHR ''-'' s;
       (m, s) \<leftarrow> getnum True s;
       s \<leftarrow> skip CHR ''-'' s;
       (d, s) \<leftarrow> getnum True s;
       s \<leftarrow> skip CHR ''T'' s;
       (hh, s) \<leftarrow> getnum False s;
       s \<leftarrow> skip CHR '':'' s;
       (mi, s) \<leftarrow> getnum True s;
       s \<leftarrow> skip CHR '':'' s;
       (ss, s) \<leftarrow> getnum True s;
       let (ns, s) = getfrac s;
       (off, s) \<leftarrow> getzone s;
       if s \<noteq> [] \<or> m < 1 \<or> 12 < m \<or> d < 1 \<or> daysIn m y < d \<or> 24 \<le> hh \<or> 60 \<le> mi \<or> 60 \<le> ss
       then None
       else Some ((days_of_civil y m d * 86400 + hh * 3600 + mi * 60 + ss - off) * 10 ^ 9 + ns)
     }"

lemma isDigit_digit_char: "n < 10 \<Longrightarrow> isDigit (digit_char n)"
  by (simp add: isDigit_def byte_def of_digit_char)

lemma digit_val_digit_char: "n < 10 \<Longrightarrow> digit_val (digit_char n) = int n"
  by (simp add: digit_val_def byte_def of_digit_char)

lemma print_nat_below_10: "n < 10 \<Longrightarrow> print_nat n = [digit_char n]"
  by (simp add: print_nat_def digits.simps)

lemma print_nat_step: "10 \<le> n \<Longrightarrow> print_nat n = print_nat (n div 10) @ [digit_char (n mod 10)]"
  by (simp add: print_nat_def digits.simps [of 10 n])

lemma appendInt_2:
  assumes "0 \<le> x" "x < 100"
  shows "appendInt x 2 = [digit_char (nat x div 10), digit_char (nat x mod 10)]"
proof (cases "x < 10")
  case True
  then show ?thesis using assms
    by (simp add: appendInt_def print_nat_below_10 digit_char_0)
next
  case False
  then show ?thesis using assms
    by (simp add: appendInt_def print_nat_step print_nat_below_10)
qed

lemma appendInt_4:
  assumes "0 \<le> x" "x < 10000"
  shows "appendInt x 4 = [digit_char (nat x div 1000), digit_char (nat x div 100 mod 10),
           digit_char (nat x div 10 mod 10), digit_char (nat x mod 10)]"
proof -
  define n where "n = nat x"
  have x: "nat \<bar>x\<bar> = n" and n: "n < 10000" using assms by (auto simp: n_def)
  consider "n < 10" | "10 \<le> n" "n < 100" | "100 \<le> n" "n < 1000" | "1000 \<le> n" by linarith
  then show ?thesis
    using assms n by cases
      (simp_all add: appendInt_def x print_nat_step print_nat_below_10 digit_char_0 div_mult2_eq [symmetric]
         numeral_2_eq_2 numeral_3_eq_3 flip: n_def)
qed

lemma getnum_appendInt:
  assumes "0 \<le> x" "x < 100"
  shows "getnum fixed (appendInt x 2 @ r) = Some (x, r)"
proof -
  have "int (nat x div 10) * 10 + int (nat x mod 10) = int (nat x)"
    by (metis div_mult_mod_eq of_nat_add of_nat_mult of_nat_numeral)
  then show ?thesis using assms
    by (simp add: appendInt_2 getnum_def isDigit_digit_char digit_val_digit_char)
qed

lemma getyear_appendInt:
  assumes "0 \<le> x" "x < 10000"
  shows "getyear (appendInt x 4 @ r) = Some (x, r)"
proof -
  define n where "n = nat x"
  have x: "x = int n" and n: "n < 10000" using assms by (auto simp: n_def)
  have "n = n div 10 * 10 + n mod 10" "n div 10 = n div 100 * 10 + n div 10 mod 10"
    "n div 100 = n div 1000 * 10 + n div 100 mod 10"
    using div_mult_mod_eq [of "n div 10" 10] div_mult_mod_eq [of "n div 100" 10]
    by (simp_all add: div_mult2_eq [symmetric])
  then have "n div 1000 * 1000 + n div 100 mod 10 * 100 + n div 10 mod 10 * 10 + n mod 10 = n"
    by linarith
  then have "int (n div 1000 * 1000 + n div 100 mod 10 * 100 + n div 10 mod 10 * 10 + n mod 10) = int n"
    by (rule arg_cong)
  then have "int (n div 1000) * 1000 + int (n div 100 mod 10) * 100 + int (n div 10 mod 10) * 10
          + int (n mod 10) = int n"
    by (simp only: of_nat_add of_nat_mult of_nat_numeral)
  then show ?thesis using assms n
    by (simp add: appendInt_4 getyear_def isDigit_digit_char digit_val_digit_char flip: n_def)
       (simp add: x)
qed

lemma skip_same [simp]: "skip c (c # r) = Some r"
  by (simp add: skip_def)

lemma getfrac_Z: "getfrac (CHR ''Z'' # r) = (0, CHR ''Z'' # r)"
  by (simp add: getfrac_def split: list.splits)

lemma getfrac_sign: "c = CHR ''+'' \<or> c = CHR ''-'' \<Longrightarrow> getfrac (c # r) = (0, c # r)"
  by (auto simp: getfrac_def split: list.splits)

definition zone_text :: "int \<Rightarrow> string" where
  "zone_text offset =
     (if offset = 0 then ''Z''
      else (if offset < 0 then ''-'' else ''+'')
        @ appendInt (\<bar>offset\<bar> div 60 div 60) 2 @ '':'' @ appendInt (\<bar>offset\<bar> div 60 mod 60) 2)"

lemma getfrac_zone_text: "getfrac (zone_text off) = (0, zone_text off)"
  by (auto simp: zone_text_def getfrac_Z getfrac_sign)

lemma getzone_zone_text:
  assumes "off mod 60 = 0" and "\<bar>off\<bar> \<le> 86400"
  shows "getzone (zone_text off) = Some (off, [])"
proof (cases "off = 0")
  case True
  then show ?thesis by (simp add: zone_text_def getzone_def)
next
  case False
  define hr mm where "hr = \<bar>off\<bar> div 60 div 60" and "mm = \<bar>off\<bar> div 60 mod 60"
  have hr: "0 \<le> hr" "hr \<le> 24" using assms(2) unfolding hr_def by auto
  have mm: "0 \<le> mm" "mm < 60" unfolding mm_def by auto
  obtain h1 h2 where h: "appendInt hr 2 = [h1, h2]" using hr by (simp add: appendInt_2)
  obtain m1 m2 where m: "appendInt mm 2 = [m1, m2]" using mm by (simp add: appendInt_2)
  have gh: "getnum True [h1, h2] = Some (hr, [])"
    using getnum_appendInt [of hr True "[]"] hr h by simp
  have gm: "getnum True [m1, m2] = Some (mm, [])"
    using getnum_appendInt [of mm True "[]"] mm m by simp
  have "60 dvd \<bar>off\<bar>" using assms(1) by (simp add: mod_0_imp_dvd)
  then have "\<bar>off\<bar> div 60 * 60 = \<bar>off\<bar>" by (rule dvd_div_mult_self)
  then have abs: "(hr * 60 + mm) * 60 = \<bar>off\<bar>" unfolding hr_def mm_def by (simp only: div_mult_mod_eq)
  have "zone_text off = (if off < 0 then CHR ''-'' else CHR ''+'') # [h1, h2, CHR '':'', m1, m2]"
    using False h m by (simp add: zone_text_def hr_def mm_def)
  then show ?thesis
    using hr mm abs by (cases "off < 0") (simp_all add: getzone_def gh gm)
qed

theorem Parse_Format_RFC3339:
  assumes year: "civil_of_days ((t div 10 ^ 9 + off) div 86400) = (y, m, d)" "0 \<le> y" "y < 10000"
    and off: "off mod 60 = 0" "\<bar>off\<bar> \<le> 86400"
  shows "Parse_RFC3339 (Format_RFC3339 t off) = Some (t div 10 ^ 9 * 10 ^ 9)"
proof -
  define sec s where "sec = t div 10 ^ 9 + off" and "s = sec mod 86400"
  define hh mi ss where "hh = s div 3600" and "mi = s mod 3600 div 60" and "ss = s mod 60"
  note C = civil_of_days_correct [OF year(1)]
  have s: "0 \<le> s" "s < 86400" unfolding s_def by auto
  have hh: "0 \<le> hh" "hh < 24" using s unfolding hh_def by auto
  have mi: "0 \<le> mi" "mi < 60" unfolding mi_def by auto
  have ss: "0 \<le> ss" "ss < 60" unfolding ss_def by auto
  have "s mod 60 = s mod 3600 mod 60" by (simp add: mod_mod_cancel)
  then have hms: "hh * 3600 + mi * 60 + ss = s"
    unfolding hh_def mi_def ss_def by (simp only: div_mult_mod_eq add.assoc)
  have "days_of_civil y m d * 86400 + s = sec"
    unfolding C(1) s_def sec_def by (rule div_mult_mod_eq)
  then have val: "days_of_civil y m d * 86400 + hh * 3600 + mi * 60 + ss - off = t div 10 ^ 9"
    using hms unfolding sec_def by linarith
  have d31: "d < 100" using C(2,3,5)
    by (auto simp: daysIn_def month_lengths_def nth_Cons split: if_splits nat.splits)
  have fmt: "Format_RFC3339 t off = appendInt y 4 @ CHR ''-'' # appendInt m 2 @ CHR ''-'' # appendInt d 2
      @ CHR ''T'' # appendInt hh 2 @ CHR '':'' # appendInt mi 2 @ CHR '':'' # appendInt ss 2 @ zone_text off"
    using year(1) unfolding Format_RFC3339_def zone_text_def hh_def mi_def ss_def s_def sec_def
    by (simp add: Let_def)
  note gets = getyear_appendInt [OF year(2,3)] getnum_appendInt [of m] getnum_appendInt [of d]
    getnum_appendInt [of hh] getnum_appendInt [of mi] getnum_appendInt [of ss]
  have nums: "0 \<le> m" "m < 100" "0 \<le> d" "hh < 100" "mi < 100" "ss < 100"
    using C(2-4) hh mi ss by auto
  have ok: "\<not> (m < 1 \<or> 12 < m \<or> d < 1 \<or> daysIn m y < d \<or> 24 \<le> hh \<or> 60 \<le> mi \<or> 60 \<le> ss)"
    using C(2-5) hh mi ss by auto
  show ?thesis
    unfolding fmt Parse_RFC3339_def
    using nums d31 hh(1) mi(1) ss(1) ok
    by (simp add: gets getfrac_zone_text getzone_zone_text [OF off] val)
qed

end
