(* ===== verification/Kube_Types.thy ===== *)
theory Kube_Types
  imports Go_Time "HOL-Library.Word"
begin

text \<open>
  The data the program exchanges with its surroundings: the Kubernetes objects it reads and
  writes, the Karpenter objects, and the values of the UpCloud API client. The types belong to
  packages the repository imports, so each record holds the fields the program uses and no
  behaviour. Enumerations that are strings in Go stay strings, with their constants named.
  A signed 64-bit integer is a \<open>64 word\<close>.
\<close>

section \<open>Metadata\<close>

type_synonym labels = "(string, string) gomap"
type_synonym int64 = "64 word"

record OwnerReference =
  or_Kind :: string

record ObjectMeta =
  om_Name :: string
  om_UID :: string
  om_Labels :: labels
  om_Annotations :: labels
  om_Finalizers :: "string list"
  om_OwnerReferences :: "OwnerReference list"
  om_CreationTimestamp :: gotime
  om_DeletionTimestamp :: "gotime option"

definition zeroMeta :: ObjectMeta where
  "zeroMeta = \<lparr>om_Name = '''', om_UID = '''', om_Labels = None, om_Annotations = None,
     om_Finalizers = [], om_OwnerReferences = [], om_CreationTimestamp = zeroTime,
     om_DeletionTimestamp = None\<rparr>"

section \<open>Constants of the Kubernetes and Karpenter API packages\<close>

abbreviation LabelInstanceTypeStable :: string where
  "LabelInstanceTypeStable \<equiv> ''node.kubernetes.io/instance-type''"
abbreviation LabelArchStable :: string where
  "LabelArchStable \<equiv> ''kubernetes.io/arch''"
abbreviation LabelOSStable :: string where
  "LabelOSStable \<equiv> ''kubernetes.io/os''"
abbreviation LabelTopologyZone :: string where
  "LabelTopologyZone \<equiv> ''topology.kubernetes.io/zone''"
abbreviation LabelTopologyRegion :: string where
  "LabelTopologyRegion \<equiv> ''topology.kubernetes.io/region''"
abbreviation CapacityTypeLabelKey :: string where
  "CapacityTypeLabelKey \<equiv> ''karpenter.sh/capacity-type''"
abbreviation CapacityTypeSpot :: string where
  "CapacityTypeSpot \<equiv> ''spot''"
abbreviation CapacityTypeOnDemand :: string where
  "CapacityTypeOnDemand \<equiv> ''on-demand''"

abbreviation NoSchedule :: string where "NoSchedule \<equiv> ''NoSchedule''"
abbreviation NoExecute :: string where "NoExecute \<equiv> ''NoExecute''"
abbreviation PreferNoSchedule :: string where "PreferNoSchedule \<equiv> ''PreferNoSchedule''"
abbreviation TolerationOpExists :: string where "TolerationOpExists \<equiv> ''Exists''"
abbreviation TolerationOpEqual :: string where "TolerationOpEqual \<equiv> ''Equal''"
abbreviation NodeSelectorOpIn :: string where "NodeSelectorOpIn \<equiv> ''In''"
abbreviation NodeSelectorOpExists :: string where "NodeSelectorOpExists \<equiv> ''Exists''"
abbreviation PodPending :: string where "PodPending \<equiv> ''Pending''"
abbreviation PodScheduled :: string where "PodScheduled \<equiv> ''PodScheduled''"
abbreviation ConditionTrue :: string where "ConditionTrue \<equiv> ''True''"
abbreviation ConditionFalse :: string where "ConditionFalse \<equiv> ''False''"
abbreviation ConditionUnknown :: string where "ConditionUnknown \<equiv> ''Unknown''"
abbreviation NodeReady :: string where "NodeReady \<equiv> ''Ready''"
abbreviation ConditionReady :: string where "ConditionReady \<equiv> ''Ready''"
abbreviation ConditionTypeDrifted :: string where "ConditionTypeDrifted \<equiv> ''Drifted''"

section \<open>Scheduling data\<close>

record Taint =
  taint_Key :: string
  taint_Value :: string
  taint_Effect :: string

definition UnregisteredNoExecuteTaint :: Taint where
  "UnregisteredNoExecuteTaint =
     \<lparr>taint_Key = ''karpenter.sh/unregistered'', taint_Value = '''', taint_Effect = NoExecute\<rparr>"

record Toleration =
  tol_Key :: string
  tol_Operator :: string
  tol_Value :: string
  tol_Effect :: string

record NodeSelectorRequirement =
  nsr_Key :: string
  nsr_Operator :: string
  nsr_Values :: "string list"

record NodeSelectorTerm =
  nst_MatchExpressions :: "NodeSelectorRequirement list"

text \<open>The pointers and slices that may be nil are options, as the code tests each of them.\<close>

record NodeSelector =
  ns_NodeSelectorTerms :: "NodeSelectorTerm list option"

record NodeAffinity =
  na_Required :: "NodeSelector option"

record Affinity =
  aff_NodeAffinity :: "NodeAffinity option"

record PodCondition =
  pc_Type :: string
  pc_Status :: string
  pc_Reason :: string

record Pod =
  pod_Meta :: ObjectMeta
  pod_NodeName :: string
  pod_NodeSelector :: labels
  pod_Affinity :: "Affinity option"
  pod_Tolerations :: "Toleration list"
  pod_Phase :: string
  pod_Conditions :: "PodCondition list"

record Node =
  node_Meta :: ObjectMeta
  node_Taints :: "Taint list"

section \<open>Resources\<close>

datatype QuantityFormat = DecimalSI | BinarySI

record Quantity =
  q_value :: int64
  q_format :: QuantityFormat

definition NewQuantity :: "int64 \<Rightarrow> QuantityFormat \<Rightarrow> Quantity" where
  "NewQuantity v f = \<lparr>q_value = v, q_format = f\<rparr>"

type_synonym ResourceList = "(string \<times> Quantity) list"

abbreviation ResourceCPU :: string where "ResourceCPU \<equiv> ''cpu''"
abbreviation ResourceMemory :: string where "ResourceMemory \<equiv> ''memory''"
abbreviation ResourcePods :: string where "ResourcePods \<equiv> ''pods''"

section \<open>NodeClaims\<close>

record Condition =
  cond_Type :: string
  cond_Status :: string
  cond_Reason :: string
  cond_Message :: string

record NodeClassReference =
  ncr_Name :: string

record ClaimRequirement =
  cr_Key :: string
  cr_Operator :: string
  cr_Values :: "string list"

record NodeClaim =
  nc_Meta :: ObjectMeta
  nc_NodeClassRef :: "NodeClassReference option"
  nc_Requirements :: "ClaimRequirement list"
  nc_Taints :: "Taint list"
  nc_ProviderID :: string
  nc_NodeName :: string
  nc_Capacity :: ResourceList
  nc_Allocatable :: ResourceList
  nc_Conditions :: "Condition list"

abbreviation nc_Name :: "NodeClaim \<Rightarrow> string" where
  "nc_Name nc \<equiv> om_Name (nc_Meta nc)"
abbreviation nc_Annotations :: "NodeClaim \<Rightarrow> labels" where
  "nc_Annotations nc \<equiv> om_Annotations (nc_Meta nc)"

text \<open>\<^verbatim>\<open>nc.Annotations = m\<close>\<close>

definition set_Annotations :: "labels \<Rightarrow> NodeClaim \<Rightarrow> NodeClaim" where
  "set_Annotations m nc = nc\<lparr>nc_Meta := (nc_Meta nc)\<lparr>om_Annotations := m\<rparr>\<rparr>"

lemma set_Annotations_simps [simp]:
  "nc_Annotations (set_Annotations m nc) = m"
  "nc_Name (set_Annotations m nc) = nc_Name nc"
  "nc_ProviderID (set_Annotations m nc) = nc_ProviderID nc"
  "nc_NodeName (set_Annotations m nc) = nc_NodeName nc"
  "nc_NodeClassRef (set_Annotations m nc) = nc_NodeClassRef nc"
  "nc_Conditions (set_Annotations m nc) = nc_Conditions nc"
  "om_CreationTimestamp (nc_Meta (set_Annotations m nc)) = om_CreationTimestamp (nc_Meta nc)"
  "om_DeletionTimestamp (nc_Meta (set_Annotations m nc)) = om_DeletionTimestamp (nc_Meta nc)"
  by (simp_all add: set_Annotations_def)

section \<open>Other Kubernetes objects\<close>

record ConfigMap =
  cm_Data :: labels

record CSRCondition =
  csrc_Type :: string
  csrc_Status :: string
  csrc_Reason :: string
  csrc_Message :: string

abbreviation CertificateApproved :: string where "CertificateApproved \<equiv> ''Approved''"
abbreviation CertificateDenied :: string where "CertificateDenied \<equiv> ''Denied''"
abbreviation KubeAPIServerClientKubeletSignerName :: string where
  "KubeAPIServerClientKubeletSignerName \<equiv> ''kubernetes.io/kube-apiserver-client-kubelet''"

record CSR =
  csr_Name :: string
  csr_Request :: string
  csr_SignerName :: string
  csr_Usages :: "string list"
  csr_Conditions :: "CSRCondition list"
  csr_Certificate :: string

section \<open>UpCloud API values\<close>

record KubernetesTaint =
  kt_Key :: string
  kt_Value :: string
  kt_Effect :: string

record KubeletArg =
  ka_Key :: string
  ka_Value :: string

record UpLabel =
  ul_Key :: string
  ul_Value :: string

record ServerDetails =
  sd_UUID :: string
  sd_Hostname :: string
  sd_Plan :: string
  sd_CoreNumber :: int64
  sd_MemoryAmount :: int64
  sd_Labels :: "UpLabel list"

record Plan =
  plan_Name :: string
  plan_CoreNumber :: int64
  plan_MemoryAmount :: int64
  plan_StorageSize :: int64
  plan_GPUAmount :: int64
  plan_GPUModel :: string

record CreateServerStorageDevice =
  dev_Action :: string
  dev_Storage :: string
  dev_Title :: string
  dev_Size :: int64
  dev_Tier :: string
  dev_Encrypted :: "bool option"

record CreateServerInterface =
  if_Type :: string
  if_Network :: string
  if_IPFamilies :: "string list"

record CreateServerRequest =
  csq_Labels :: "UpLabel list"
  csq_Zone :: string
  csq_Hostname :: string
  csq_Title :: string
  csq_Plan :: string
  csq_ServerGroup :: string
  csq_StorageDevices :: "CreateServerStorageDevice list"
  csq_Interfaces :: "CreateServerInterface list"
  csq_UserData :: string
  csq_Metadata :: bool

abbreviation ServerStateStarted :: string where "ServerStateStarted \<equiv> ''started''"
abbreviation ServerStateStopped :: string where "ServerStateStopped \<equiv> ''stopped''"

section \<open>Results of a reconcile\<close>

record ReconcileResult =
  rr_Requeue :: bool
  rr_RequeueAfter :: duration

definition noRequeue :: ReconcileResult where
  "noRequeue = \<lparr>rr_Requeue = False, rr_RequeueAfter = 0\<rparr>"

definition requeueAfter :: "duration \<Rightarrow> ReconcileResult" where
  "requeueAfter d = \<lparr>rr_Requeue = False, rr_RequeueAfter = d\<rparr>"

definition requeueNow :: ReconcileResult where
  "requeueNow = \<lparr>rr_Requeue = True, rr_RequeueAfter = 0\<rparr>"

lemma result_simps [simp]:
  "rr_RequeueAfter noRequeue = 0" "\<not> rr_Requeue noRequeue"
  "rr_RequeueAfter (requeueAfter d) = d" "\<not> rr_Requeue (requeueAfter d)"
  "rr_RequeueAfter requeueNow = 0" "rr_Requeue requeueNow"
  by (simp_all add: noRequeue_def requeueAfter_def requeueNow_def)

section \<open>Registration of a controller\<close>

text \<open>
  What the builder of controller-runtime is told: the watched type, the options (zero is the
  default of the package) and the filters an event has to pass.
\<close>

datatype watched = UpCloudNodeClass_object | NodeClaim_object

datatype event_filter = GenerationChangedPredicate

record registration =
  reg_For :: watched
  reg_MaxConcurrentReconciles :: int
  reg_EventFilters :: "event_filter list"

end
