(* ===== verification/NodeClass_Api.thy ===== *)
theory NodeClass_Api
  imports Kube_Types "HOL-Library.Multiset"
begin

text \<open>
  The package \<^verbatim>\<open>apis/v1alpha2\<close>: the constants of \<^verbatim>\<open>annotations.go\<close>,
  \<^verbatim>\<open>constants.go\<close>, \<^verbatim>\<open>finalizers.go\<close>, \<^verbatim>\<open>labels.go\<close> and
  \<^verbatim>\<open>register.go\<close>, the \<^verbatim>\<open>UpCloudNodeClass\<close> type, its conditions and its
  \<^verbatim>\<open>Hash\<close>. In the specification a slice or map that may be nil or empty is an
  option, since \<^verbatim>\<open>Hash\<close> treats the two alike on purpose.

  The digest itself is computed by the imported package
  \<^verbatim>\<open>github.com/mitchellh/hashstructure\<close>, which is the parameter \<open>hs\<close> of
  \<open>Hash\<close>. What drift detection relies on is the named hypothesis
  \<open>slices_as_sets\<close>: with the option \<^verbatim>\<open>SlicesAsSets\<close> the order of the elements of a
  slice does not matter, and the order in which a map is traversed never does.
\<close>

section \<open>Constants\<close>

definition Group :: string where "Group = ''karpenter.k8s.upcloud''"
definition Version :: string where "Version = ''v1alpha2''"

definition NodeClaimTTLResetAnnotationKey :: string where
  "NodeClaimTTLResetAnnotationKey = ''karpenter.k8s.upcloud/ttl-reset-at''"
definition DecommissioningTaintKey :: string where
  "DecommissioningTaintKey = ''karpenter.k8s.upcloud/decommissioning''"
definition ProviderIDPrefix :: string where
  "ProviderIDPrefix = ''upcloud:////''"
definition ResourceNvidiaGPU :: string where
  "ResourceNvidiaGPU = ''nvidia.com/gpu''"
definition NodeClassDrifted :: string where
  "NodeClassDrifted = ''NodeClassDrifted''"
definition NodeClassFinalizer :: string where
  "NodeClassFinalizer = ''upcloud.com/nodeclass-finalizer''"

definition LabelDomain :: string where "LabelDomain = ''karpenter.k8s.upcloud''"
definition LabelInstanceFamily :: string where
  "LabelInstanceFamily = LabelDomain @ ''/instance-family''"
definition LabelInstanceCPU :: string where
  "LabelInstanceCPU = LabelDomain @ ''/instance-cpu''"
definition LabelInstanceMemory :: string where
  "LabelInstanceMemory = LabelDomain @ ''/instance-memory''"
definition LabelInstanceStorageSize :: string where
  "LabelInstanceStorageSize = LabelDomain @ ''/instance-storage-size''"
definition LabelInstanceGPUCount :: string where
  "LabelInstanceGPUCount = LabelDomain @ ''/instance-gpu-count''"
definition LabelInstanceGPUModel :: string where
  "LabelInstanceGPUModel = LabelDomain @ ''/instance-gpu-model''"

definition ServerManagedLabelKey :: string where "ServerManagedLabelKey = ''managed_by''"
definition ServerManagedLabelValue :: string where "ServerManagedLabelValue = ''karpenter''"
definition ServerClusterIDLabelKey :: string where "ServerClusterIDLabelKey = ''capu_cluster_id''"
definition ServerClusterNameLabelKey :: string where "ServerClusterNameLabelKey = ''capu_cluster_name''"
definition ServerGeneratedNameLabelKey :: string where
  "ServerGeneratedNameLabelKey = ''capu_generated_name''"

definition NodeClassHashAnnotationKey :: string where
  "NodeClassHashAnnotationKey = ''karpenter.k8s.upcloud/nodeclass-hash''"
definition NodeClassHashVersionAnnotationKey :: string where
  "NodeClassHashVersionAnnotationKey = ''karpenter.k8s.upcloud/nodeclass-hash-version''"
definition NodeClassHashVersion :: string where "NodeClassHashVersion = ''v2''"

lemmas annotation_key_defs =
  NodeClaimTTLResetAnnotationKey_def NodeClassHashAnnotationKey_def
  NodeClassHashVersionAnnotationKey_def NodeClassHashVersion_def

lemmas server_label_defs =
  ServerManagedLabelKey_def ServerManagedLabelValue_def ServerClusterIDLabelKey_def
  ServerClusterNameLabelKey_def ServerGeneratedNameLabelKey_def

lemmas instance_label_defs =
  LabelInstanceFamily_def LabelInstanceCPU_def LabelInstanceMemory_def
  LabelInstanceStorageSize_def LabelInstanceGPUCount_def LabelInstanceGPUModel_def LabelDomain_def

lemma hash_keys_distinct [simp]:
  "NodeClassHashAnnotationKey \<noteq> NodeClassHashVersionAnnotationKey"
  "NodeClassHashVersionAnnotationKey \<noteq> NodeClassHashAnnotationKey"
  by (simp_all add: annotation_key_defs)

lemma hash_version_nonempty [simp]: "NodeClassHashVersion \<noteq> []"
  by (simp add: annotation_key_defs)

lemma ttl_key_distinct [simp]:
  "NodeClaimTTLResetAnnotationKey \<noteq> NodeClassHashAnnotationKey"
  "NodeClaimTTLResetAnnotationKey \<noteq> NodeClassHashVersionAnnotationKey"
  by (simp_all add: annotation_key_defs)

section \<open>The node class\<close>

record StorageSpec =
  st_Size :: int64
  st_Tier :: string
  st_Encrypted :: "bool option"

record UpCloudNodeClassSpec =
  spec_Zone :: string
  spec_Plan :: string
  spec_Storage :: "StorageSpec option"
  spec_SSHKeys :: "string list option"
  spec_KubeletArgs :: "KubeletArg list option"
  spec_Labels :: labels
  spec_Taints :: "KubernetesTaint list option"
  spec_ServerGroupUUID :: string
  spec_UtilityNetworkAccess :: "bool option"

record UpCloudNodeClassStatus =
  ncs_Conditions :: "Condition list"
  ncs_Hash :: string

record UpCloudNodeClass =
  cls_Meta :: ObjectMeta
  cls_Spec :: UpCloudNodeClassSpec
  cls_Status :: UpCloudNodeClassStatus

record UpCloudNodeClassList =
  ncl_Items :: "UpCloudNodeClass list"

abbreviation cls_Name :: "UpCloudNodeClass \<Rightarrow> string" where
  "cls_Name u \<equiv> om_Name (cls_Meta u)"

abbreviation cls_Finalizers :: "UpCloudNodeClass \<Rightarrow> string list" where
  "cls_Finalizers u \<equiv> om_Finalizers (cls_Meta u)"

definition set_Finalizers :: "string list \<Rightarrow> UpCloudNodeClass \<Rightarrow> UpCloudNodeClass" where
  "set_Finalizers fs u = u\<lparr>cls_Meta := (cls_Meta u)\<lparr>om_Finalizers := fs\<rparr>\<rparr>"

lemma set_Finalizers_simps [simp]:
  "cls_Finalizers (set_Finalizers fs u) = fs"
  "cls_Spec (set_Finalizers fs u) = cls_Spec u"
  "cls_Status (set_Finalizers fs u) = cls_Status u"
  "cls_Name (set_Finalizers fs u) = cls_Name u"
  by (simp_all add: set_Finalizers_def)

text \<open>
  The conversions between \<^verbatim>\<open>metav1.Condition\<close> and \<^verbatim>\<open>status.Condition\<close>, one struct
  under two names, copy element by element.
\<close>

definition GetConditions :: "UpCloudNodeClass \<Rightarrow> Condition list" where
  "GetConditions u = map (\<lambda>i. ncs_Conditions (cls_Status u) ! i) [0..<length (ncs_Conditions (cls_Status u))]"

definition SetConditions :: "UpCloudNodeClass \<Rightarrow> Condition list \<Rightarrow> UpCloudNodeClass" where
  "SetConditions u cs =
     u\<lparr>cls_Status := (cls_Status u)\<lparr>ncs_Conditions := map (\<lambda>i. cs ! i) [0..<length cs]\<rparr>\<rparr>"

definition set_StatusHash :: "string \<Rightarrow> UpCloudNodeClass \<Rightarrow> UpCloudNodeClass" where
  "set_StatusHash h u = u\<lparr>cls_Status := (cls_Status u)\<lparr>ncs_Hash := h\<rparr>\<rparr>"

lemma GetConditions_eq [simp]: "GetConditions u = ncs_Conditions (cls_Status u)"
  by (simp add: GetConditions_def map_nth)

lemma GetConditions_SetConditions [simp]: "GetConditions (SetConditions u cs) = cs"
  by (simp add: SetConditions_def map_nth)

lemma SetConditions_simps [simp]:
  "cls_Spec (SetConditions u cs) = cls_Spec u"
  "cls_Meta (SetConditions u cs) = cls_Meta u"
  "ncs_Hash (cls_Status (SetConditions u cs)) = ncs_Hash (cls_Status u)"
  "ncs_Conditions (cls_Status (SetConditions u cs)) = cs"
  by (simp_all add: SetConditions_def map_nth)

lemma set_StatusHash_simps [simp]:
  "cls_Spec (set_StatusHash h u) = cls_Spec u"
  "cls_Meta (set_StatusHash h u) = cls_Meta u"
  "ncs_Hash (cls_Status (set_StatusHash h u)) = h"
  "ncs_Conditions (cls_Status (set_StatusHash h u)) = ncs_Conditions (cls_Status u)"
  by (simp_all add: set_StatusHash_def)

section \<open>Hash\<close>

definition nil_if_empty :: "'a list option \<Rightarrow> 'a list option" where
  "nil_if_empty x = (case x of None \<Rightarrow> None | Some [] \<Rightarrow> None | Some xs \<Rightarrow> Some xs)"

text \<open>The four \<^verbatim>\<open>if len(...) == 0\<close> statements on the copy of the specification.\<close>

definition hash_input :: "UpCloudNodeClassSpec \<Rightarrow> UpCloudNodeClassSpec" where
  "hash_input s =
     s\<lparr>spec_SSHKeys := nil_if_empty (spec_SSHKeys s),
       spec_KubeletArgs := nil_if_empty (spec_KubeletArgs s),
       spec_Labels := nil_if_empty (spec_Labels s),
       spec_Taints := nil_if_empty (spec_Taints s)\<rparr>"

type_synonym hasher = "UpCloudNodeClassSpec \<Rightarrow> goerror + 64 word"

definition Hash :: "hasher \<Rightarrow> UpCloudNodeClass \<Rightarrow> string" where
  "Hash hs u =
     (case hs (hash_input (cls_Spec u)) of
        Inl err \<Rightarrow> ''''
      | Inr h \<Rightarrow> print_hex16 (unat h))"

definition elements :: "'a list option \<Rightarrow> 'a list" where
  "elements x = (case x of None \<Rightarrow> [] | Some xs \<Rightarrow> xs)"

text \<open>
  Two specifications that differ at most in the order of their lists and in the order in
  which their label map is traversed, and (for \<open>same_spec\<close>) in nil against empty.
\<close>

definition same_scalars :: "UpCloudNodeClassSpec \<Rightarrow> UpCloudNodeClassSpec \<Rightarrow> bool" where
  "same_scalars s t \<longleftrightarrow>
     spec_Zone s = spec_Zone t \<and> spec_Plan s = spec_Plan t \<and> spec_Storage s = spec_Storage t
     \<and> spec_ServerGroupUUID s = spec_ServerGroupUUID t
     \<and> spec_UtilityNetworkAccess s = spec_UtilityNetworkAccess t"

definition same_spec :: "UpCloudNodeClassSpec \<Rightarrow> UpCloudNodeClassSpec \<Rightarrow> bool" where
  "same_spec s t \<longleftrightarrow>
     same_scalars s t
     \<and> mset (elements (spec_SSHKeys s)) = mset (elements (spec_SSHKeys t))
     \<and> mset (elements (spec_KubeletArgs s)) = mset (elements (spec_KubeletArgs t))
     \<and> mset (elements (spec_Labels s)) = mset (elements (spec_Labels t))
     \<and> mset (elements (spec_Taints s)) = mset (elements (spec_Taints t))"

definition same_nils :: "UpCloudNodeClassSpec \<Rightarrow> UpCloudNodeClassSpec \<Rightarrow> bool" where
  "same_nils s t \<longleftrightarrow>
     (spec_SSHKeys s = None \<longleftrightarrow> spec_SSHKeys t = None)
     \<and> (spec_KubeletArgs s = None \<longleftrightarrow> spec_KubeletArgs t = None)
     \<and> (spec_Labels s = None \<longleftrightarrow> spec_Labels t = None)
     \<and> (spec_Taints s = None \<longleftrightarrow> spec_Taints t = None)"

definition slices_as_sets :: "hasher \<Rightarrow> bool" where
  "slices_as_sets hs \<longleftrightarrow> (\<forall>s t. same_spec s t \<and> same_nils s t \<longrightarrow> hs s = hs t)"

lemma elements_nil_if_empty [simp]: "elements (nil_if_empty x) = elements x"
  by (auto simp: elements_def nil_if_empty_def split: option.splits list.splits)

lemma nil_if_empty_None: "nil_if_empty x = None \<longleftrightarrow> elements x = []"
  by (auto simp: elements_def nil_if_empty_def split: option.splits list.splits)

lemma mset_elements_Nil: "mset (elements x) = mset (elements y) \<Longrightarrow> elements x = [] \<longleftrightarrow> elements y = []"
  by (metis mset_zero_iff)

lemma same_spec_hash_input: "same_spec s t \<Longrightarrow> same_spec (hash_input s) (hash_input t)"
  by (simp add: same_spec_def same_scalars_def hash_input_def)

lemma same_nils_hash_input:
  assumes "same_spec s t"
  shows "same_nils (hash_input s) (hash_input t)"
proof -
  note eqs = assms [unfolded same_spec_def]
  have "elements (spec_SSHKeys s) = [] \<longleftrightarrow> elements (spec_SSHKeys t) = []"
    using eqs by (intro mset_elements_Nil) (elim conjE)
  moreover have "elements (spec_KubeletArgs s) = [] \<longleftrightarrow> elements (spec_KubeletArgs t) = []"
    using eqs by (intro mset_elements_Nil) (elim conjE)
  moreover have "elements (spec_Labels s) = [] \<longleftrightarrow> elements (spec_Labels t) = []"
    using eqs by (intro mset_elements_Nil) (elim conjE)
  moreover have "elements (spec_Taints s) = [] \<longleftrightarrow> elements (spec_Taints t) = []"
    using eqs by (intro mset_elements_Nil) (elim conjE)
  ultimately show ?thesis by (simp add: same_nils_def hash_input_def nil_if_empty_None)
qed

lemma hash_input_idem: "hash_input (hash_input s) = hash_input s"
  by (simp add: hash_input_def nil_if_empty_def split: option.splits list.splits)

lemma Hash_same_spec:
  assumes "slices_as_sets hs" and "same_spec (cls_Spec u) (cls_Spec v)"
  shows "Hash hs u = Hash hs v"
proof -
  have "hs (hash_input (cls_Spec u)) = hs (hash_input (cls_Spec v))"
    using assms same_spec_hash_input same_nils_hash_input unfolding slices_as_sets_def by blast
  then show ?thesis by (simp add: Hash_def)
qed

lemma Hash_spec_only: "cls_Spec u = cls_Spec v \<Longrightarrow> Hash hs u = Hash hs v"
  by (simp add: Hash_def)

lemma unat_64_bound: "unat (w :: 64 word) < 2 ^ 64"
  using unsigned_less [of w, where ?'a = nat] by simp

lemma Hash_length: "Hash hs u = '''' \<or> length (Hash hs u) = 16"
  by (auto simp: Hash_def print_hex16_length [OF unat_64_bound] split: sum.splits)

lemma Hash_nonempty_iff: "Hash hs u \<noteq> '''' \<longleftrightarrow> (\<exists>h. hs (hash_input (cls_Spec u)) = Inr h)"
proof (cases "hs (hash_input (cls_Spec u))")
  case (Inr h)
  then have "length (Hash hs u) = 16" by (simp add: Hash_def print_hex16_length [OF unat_64_bound])
  then show ?thesis using Inr by auto
qed (simp add: Hash_def)

lemma Hash_eq_iff:
  assumes "hs (hash_input (cls_Spec u)) = Inr h" and "hs (hash_input (cls_Spec v)) = Inr k"
  shows "Hash hs u = Hash hs v \<longleftrightarrow> h = k"
  using assms by (auto simp: Hash_def word_unat_eq_iff dest!: print_hex16_inj)

end
