(* ===== verification/Api_Scheme.thy ===== *)
theory Api_Scheme
  imports NodeClass_Api
begin

text \<open>
  The registration of the API types, \<^verbatim>\<open>apis/v1alpha2/register.go\<close>: the function given to the
  scheme builder and the \<^verbatim>\<open>init\<close> of the package, which Go runs before \<^verbatim>\<open>main\<close>.

  The scheme and its builder are imported. They are the record \<open>scheme_lib\<close>, over any type
  \<open>'s\<close> of schemes: what a scheme recognizes, \<^verbatim>\<open>metav1.AddToGroupVersion\<close>,
  \<^verbatim>\<open>AddKnownTypes\<close>, which panics on a conflict (the value \<open>Inl\<close>), and the builder's
  \<^verbatim>\<open>AddToScheme\<close>. What is documented of them is \<open>scheme_laws\<close>.
\<close>

section \<open>Definitions\<close>

record GroupVersion =
  gv_Group :: string
  gv_Version :: string

definition GroupVersion :: GroupVersion where
  "GroupVersion = \<lparr>gv_Group = Group, gv_Version = Version\<rparr>"

text \<open>The two pointers to zero values that are registered, and the names of their types.\<close>

datatype api_object = New_UpCloudNodeClass | New_UpCloudNodeClassList

fun kind_name :: "api_object \<Rightarrow> string" where
  "kind_name New_UpCloudNodeClass = ''UpCloudNodeClass''"
| "kind_name New_UpCloudNodeClassList = ''UpCloudNodeClassList''"

type_synonym 's scheme_fun = "'s \<Rightarrow> goerror + goerror option \<times> 's"

record 's scheme_lib =
  sc_Recognizes :: "'s \<Rightarrow> GroupVersion \<Rightarrow> string \<Rightarrow> bool"
  sc_AddToGroupVersion :: "'s \<Rightarrow> GroupVersion \<Rightarrow> 's"
  sc_AddKnownTypes :: "'s \<Rightarrow> GroupVersion \<Rightarrow> api_object list \<Rightarrow> goerror + 's"
  sc_AddToScheme :: "'s scheme_fun \<Rightarrow> 's scheme_fun"

definition SchemeBuilder :: "'s scheme_lib \<Rightarrow> 's scheme_fun" where
  "SchemeBuilder L s =
     (let s1 = sc_AddToGroupVersion L s GroupVersion in
      case sc_AddKnownTypes L s1 GroupVersion [New_UpCloudNodeClass, New_UpCloudNodeClassList] of
        Inl p \<Rightarrow> Inl p
      | Inr s2 \<Rightarrow> Inr (None, s2))"

definition AddToScheme :: "'s scheme_lib \<Rightarrow> 's scheme_fun" where
  "AddToScheme L = sc_AddToScheme L (SchemeBuilder L)"

definition init :: "'s scheme_lib \<Rightarrow> 's \<Rightarrow> goerror + 's" where
  "init L s =
     (case AddToScheme L s of
        Inl p \<Rightarrow> Inl p
      | Inr (Some err, s') \<Rightarrow> Inl (Panic (''adding UpCloudNodeClass to scheme: '' @ Error err))
      | Inr (None, s') \<Rightarrow> Inr s')"

section \<open>What the imported package promises\<close>

definition scheme_laws :: "'s scheme_lib \<Rightarrow> bool" where
  "scheme_laws L \<longleftrightarrow>
     (\<forall>f s. sc_AddToScheme L f s = f s)
   \<and> (\<forall>s gv gv' k. sc_Recognizes L s gv' k \<longrightarrow> sc_Recognizes L (sc_AddToGroupVersion L s gv) gv' k)
   \<and> (\<forall>s gv os s' gv' k. sc_AddKnownTypes L s gv os = Inr s' \<longrightarrow>
        (sc_Recognizes L s' gv' k \<longleftrightarrow> sc_Recognizes L s gv' k \<or> gv' = gv \<and> k \<in> kind_name ` set os))
   \<and> (\<forall>s gv os p. sc_AddKnownTypes L s gv os = Inl p \<longrightarrow> (\<exists>k \<in> kind_name ` set os. sc_Recognizes L s gv k))
   \<and> (\<forall>s gv k. sc_Recognizes L (sc_AddToGroupVersion L s gv) gv k \<and> \<not> sc_Recognizes L s gv k \<longrightarrow>
        k \<notin> {''UpCloudNodeClass'', ''UpCloudNodeClassList''})"

section \<open>The registration succeeds\<close>

text \<open>
  On a scheme that does not know the two kinds yet, the start of the process does not panic here,
  both kinds can be encoded and decoded afterwards, and no other package's type is lost.
\<close>

theorem init_registers:
  assumes laws: "scheme_laws L"
    and fresh: "\<not> sc_Recognizes L s GroupVersion ''UpCloudNodeClass''" "\<not> sc_Recognizes L s GroupVersion ''UpCloudNodeClassList''"
  shows "\<exists>s'. init L s = Inr s' \<and> sc_Recognizes L s' GroupVersion ''UpCloudNodeClass''
    \<and> sc_Recognizes L s' GroupVersion ''UpCloudNodeClassList''
    \<and> (\<forall>gv k. sc_Recognizes L s gv k \<longrightarrow> sc_Recognizes L s' gv k)"
proof -
  let ?s1 = "sc_AddToGroupVersion L s GroupVersion"
  note laws = laws [unfolded scheme_laws_def]
  note build = laws [THEN conjunct1, rule_format]
    and group_keeps = laws [THEN conjunct2, THEN conjunct1, rule_format]
    and added = laws [THEN conjunct2, THEN conjunct2, THEN conjunct1, rule_format]
    and conflict = laws [THEN conjunct2, THEN conjunct2, THEN conjunct2, THEN conjunct1, rule_format]
    and group_adds = laws [THEN conjunct2, THEN conjunct2, THEN conjunct2, THEN conjunct2, rule_format]
  have fresh1: "\<not> sc_Recognizes L ?s1 GroupVersion ''UpCloudNodeClass''" "\<not> sc_Recognizes L ?s1 GroupVersion ''UpCloudNodeClassList''"
    using fresh group_adds [of s GroupVersion] by blast+
  obtain s' where add: "sc_AddKnownTypes L ?s1 GroupVersion [New_UpCloudNodeClass, New_UpCloudNodeClassList] = Inr s'"
    using conflict [of ?s1 GroupVersion "[New_UpCloudNodeClass, New_UpCloudNodeClassList]"] fresh1
    by (cases "sc_AddKnownTypes L ?s1 GroupVersion [New_UpCloudNodeClass, New_UpCloudNodeClassList]") simp_all
  have known: "sc_Recognizes L s' gv k \<longleftrightarrow> sc_Recognizes L ?s1 gv k
      \<or> gv = GroupVersion \<and> k \<in> {''UpCloudNodeClass'', ''UpCloudNodeClassList''}" for gv k
    using added [OF add, of gv k] by simp
  show ?thesis using add known group_keeps by (simp add: init_def AddToScheme_def SchemeBuilder_def Let_def build)
qed

text \<open>A scheme as the set of what it recognizes.\<close>

definition set_scheme :: "(GroupVersion \<times> string) set scheme_lib" where
  "set_scheme =
     \<lparr>sc_Recognizes = \<lambda>s gv k. (gv, k) \<in> s,
      sc_AddToGroupVersion = \<lambda>s gv. insert (gv, ''WatchEvent'') s,
      sc_AddKnownTypes = \<lambda>s gv os.
        (if \<exists>k \<in> kind_name ` set os. (gv, k) \<in> s then Inl (Panic ''double registration'')
         else Inr (s \<union> (\<lambda>o'. (gv, kind_name o')) ` set os)),
      sc_AddToScheme = \<lambda>f. f\<rparr>"

lemma set_scheme_laws: "scheme_laws set_scheme"
  by (auto simp: scheme_laws_def set_scheme_def split: if_splits)

theorem init_registers_witness:
  "\<exists>s'. init set_scheme {} = Inr s' \<and> (GroupVersion, ''UpCloudNodeClass'') \<in> s'"
  using init_registers [OF set_scheme_laws, of "{}"] by (auto simp: set_scheme_def)

end
