(* ===== verification/World.thy ===== *)
theory World
  imports NodeClass_Api Complex_Main
begin

text \<open>
  The services the program calls, as parameters. Nothing is assumed of them here: the answer
  to a call is any function of the history of the calls this process has made and of the call's
  arguments. A field of \<open>kube_client\<close>, \<open>csr_client\<close>, \<open>server_service\<close>,
  \<open>cloud_service\<close> or \<open>host\<close> is one method of the imported client; the wrappers below
  record the call in the history and return the answer.

  \<^item> \<open>kube_client\<close>: \<^verbatim>\<open>client.Client\<close> of controller-runtime. \<open>None\<close> is a nil error;
    a status patch returns the object as the server sends it back.
  \<^item> \<open>csr_client\<close>: \<^verbatim>\<open>kubernetes.Interface.CertificatesV1().CertificateSigningRequests()\<close>.
  \<^item> \<open>server_service\<close> and \<open>cloud_service\<close>: \<^verbatim>\<open>service.Server\<close> and
    \<^verbatim>\<open>service.Cloud\<close> of the UpCloud client.
  \<^item> \<open>host\<close>: the clock with the local zone's offset, and \<^verbatim>\<open>uuid.NewUUID\<close>.
\<close>

section \<open>Calls\<close>

text \<open>A price of the UpCloud catalogue, a \<^verbatim>\<open>float64\<close>: every finite one is a rational number.\<close>

type_synonym float64 = rat

record PublishedEvent =
  ev_UID :: string
  ev_Type :: string
  ev_Reason :: string
  ev_Message :: string
  ev_DedupeValues :: "string list"

text \<open>The log lines of the operator's start.\<close>

datatype log_line =
    LogStarting string string string
  | LogTTLEnabled duration
  | LogFailed goerror

datatype event =
    EGetClaim string
  | EGetNodeClass string
  | EGetNode string
  | EGetConfigMap string string
  | EListPods
  | EListClaims string
  | EPatchClaim NodeClaim NodeClaim
  | EDeleteClaim NodeClaim
  | EPatchNode Node Node
  | EUpdateNodeClass UpCloudNodeClass
  | EPatchStatus UpCloudNodeClass UpCloudNodeClass
  | EPublish PublishedEvent
  | ECreateCSR CSR
  | EGetCSR string
  | EUpdateApproval string CSR
  | ECreateServer CreateServerRequest
  | EDeleteServer string
  | EGetServerDetails string
  | EGetServers
  | EStopServer string string duration
  | EWaitForServerState string string
  | EGetPlans
  | EGetPrices
  | ENow
  | ENewUUID
  | EKeyPair
  | EGetKubernetesCluster string
  | EGetKubernetesKubeconfig string
  | ESetupNodeClass registration
  | ESetupTTL duration registration
  | ELog log_line
  | EStart

type_synonym history = "event list"
type_synonym 'a prog = "(event, 'a) io"

text \<open>The manager a controller is registered with, as the builder's \<^verbatim>\<open>Complete\<close> answers.\<close>

type_synonym manager = "history \<Rightarrow> registration \<Rightarrow> goerror option"

section \<open>Services\<close>

record kube_client =
  k_GetClaim :: "history \<Rightarrow> string \<Rightarrow> goerror + NodeClaim"
  k_GetNodeClass :: "history \<Rightarrow> string \<Rightarrow> goerror + UpCloudNodeClass"
  k_GetNode :: "history \<Rightarrow> string \<Rightarrow> goerror + Node"
  k_GetConfigMap :: "history \<Rightarrow> string \<Rightarrow> string \<Rightarrow> goerror + ConfigMap"
  k_ListPods :: "history \<Rightarrow> goerror + Pod list"
  k_ListClaims :: "history \<Rightarrow> string \<Rightarrow> goerror + NodeClaim list"
  k_PatchClaim :: "history \<Rightarrow> NodeClaim \<Rightarrow> NodeClaim \<Rightarrow> goerror option"
  k_DeleteClaim :: "history \<Rightarrow> NodeClaim \<Rightarrow> goerror option"
  k_PatchNode :: "history \<Rightarrow> Node \<Rightarrow> Node \<Rightarrow> goerror option"
  k_UpdateNodeClass :: "history \<Rightarrow> UpCloudNodeClass \<Rightarrow> goerror option"
  k_PatchStatus :: "history \<Rightarrow> UpCloudNodeClass \<Rightarrow> UpCloudNodeClass \<Rightarrow> goerror + UpCloudNodeClass"

record csr_client =
  c_Create :: "history \<Rightarrow> CSR \<Rightarrow> goerror + CSR"
  c_Get :: "history \<Rightarrow> string \<Rightarrow> goerror + CSR"
  c_UpdateApproval :: "history \<Rightarrow> string \<Rightarrow> CSR \<Rightarrow> goerror + CSR"

record server_service =
  s_CreateServer :: "history \<Rightarrow> CreateServerRequest \<Rightarrow> goerror + ServerDetails"
  s_DeleteServerAndStorages :: "history \<Rightarrow> string \<Rightarrow> goerror option"
  s_GetServerDetails :: "history \<Rightarrow> string \<Rightarrow> goerror + ServerDetails"
  s_GetServers :: "history \<Rightarrow> goerror + string list"
  s_StopServer :: "history \<Rightarrow> string \<Rightarrow> string \<Rightarrow> duration \<Rightarrow> goerror option"
  s_WaitForServerState :: "history \<Rightarrow> string \<Rightarrow> string \<Rightarrow> goerror option"

record cloud_service =
  cl_GetPlans :: "history \<Rightarrow> goerror + Plan list"
  cl_GetPricesByZone :: "history \<Rightarrow> goerror + (string \<times> (string \<times> float64) list) list"

record host =
  h_Now :: "history \<Rightarrow> gotime \<times> int"
  h_NewUUID :: "history \<Rightarrow> string"

section \<open>The calls as programs\<close>

definition GetClaim :: "kube_client \<Rightarrow> string \<Rightarrow> (goerror + NodeClaim) prog" where
  "GetClaim c n = call (EGetClaim n) (\<lambda>h. k_GetClaim c h n)"
definition GetNodeClass :: "kube_client \<Rightarrow> string \<Rightarrow> (goerror + UpCloudNodeClass) prog" where
  "GetNodeClass c n = call (EGetNodeClass n) (\<lambda>h. k_GetNodeClass c h n)"
definition GetNode :: "kube_client \<Rightarrow> string \<Rightarrow> (goerror + Node) prog" where
  "GetNode c n = call (EGetNode n) (\<lambda>h. k_GetNode c h n)"
definition GetConfigMap :: "kube_client \<Rightarrow> string \<Rightarrow> string \<Rightarrow> (goerror + ConfigMap) prog" where
  "GetConfigMap c ns n = call (EGetConfigMap ns n) (\<lambda>h. k_GetConfigMap c h ns n)"
definition ListPods :: "kube_client \<Rightarrow> (goerror + Pod list) prog" where
  "ListPods c = call EListPods (\<lambda>h. k_ListPods c h)"
definition ListClaims :: "kube_client \<Rightarrow> string \<Rightarrow> (goerror + NodeClaim list) prog" where
  "ListClaims c n = call (EListClaims n) (\<lambda>h. k_ListClaims c h n)"
definition PatchClaim :: "kube_client \<Rightarrow> NodeClaim \<Rightarrow> NodeClaim \<Rightarrow> goerror option prog" where
  "PatchClaim c old new = call (EPatchClaim old new) (\<lambda>h. k_PatchClaim c h old new)"
definition DeleteClaim :: "kube_client \<Rightarrow> NodeClaim \<Rightarrow> goerror option prog" where
  "DeleteClaim c nc = call (EDeleteClaim nc) (\<lambda>h. k_DeleteClaim c h nc)"
definition PatchNode :: "kube_client \<Rightarrow> Node \<Rightarrow> Node \<Rightarrow> goerror option prog" where
  "PatchNode c old new = call (EPatchNode old new) (\<lambda>h. k_PatchNode c h old new)"
definition UpdateNodeClass :: "kube_client \<Rightarrow> UpCloudNodeClass \<Rightarrow> goerror option prog" where
  "UpdateNodeClass c u = call (EUpdateNodeClass u) (\<lambda>h. k_UpdateNodeClass c h u)"
definition PatchStatus ::
  "kube_client \<Rightarrow> UpCloudNodeClass \<Rightarrow> UpCloudNodeClass \<Rightarrow> (goerror + UpCloudNodeClass) prog" where
  "PatchStatus c old new = call (EPatchStatus old new) (\<lambda>h. k_PatchStatus c h old new)"
definition Publish :: "PublishedEvent \<Rightarrow> unit prog" where
  "Publish e = call (EPublish e) (\<lambda>h. ())"

definition CreateCSR :: "csr_client \<Rightarrow> CSR \<Rightarrow> (goerror + CSR) prog" where
  "CreateCSR c r = call (ECreateCSR r) (\<lambda>h. c_Create c h r)"
definition GetCSR :: "csr_client \<Rightarrow> string \<Rightarrow> (goerror + CSR) prog" where
  "GetCSR c n = call (EGetCSR n) (\<lambda>h. c_Get c h n)"
definition UpdateApproval :: "csr_client \<Rightarrow> string \<Rightarrow> CSR \<Rightarrow> (goerror + CSR) prog" where
  "UpdateApproval c n r = call (EUpdateApproval n r) (\<lambda>h. c_UpdateApproval c h n r)"

definition CreateServer :: "server_service \<Rightarrow> CreateServerRequest \<Rightarrow> (goerror + ServerDetails) prog" where
  "CreateServer s r = call (ECreateServer r) (\<lambda>h. s_CreateServer s h r)"
definition DeleteServerAndStorages :: "server_service \<Rightarrow> string \<Rightarrow> goerror option prog" where
  "DeleteServerAndStorages s u = call (EDeleteServer u) (\<lambda>h. s_DeleteServerAndStorages s h u)"
definition GetServerDetails :: "server_service \<Rightarrow> string \<Rightarrow> (goerror + ServerDetails) prog" where
  "GetServerDetails s u = call (EGetServerDetails u) (\<lambda>h. s_GetServerDetails s h u)"
definition GetServers :: "server_service \<Rightarrow> (goerror + string list) prog" where
  "GetServers s = call EGetServers (\<lambda>h. s_GetServers s h)"
definition StopServer :: "server_service \<Rightarrow> string \<Rightarrow> string \<Rightarrow> duration \<Rightarrow> goerror option prog" where
  "StopServer s u ty t = call (EStopServer u ty t) (\<lambda>h. s_StopServer s h u ty t)"
definition WaitForServerState :: "server_service \<Rightarrow> string \<Rightarrow> string \<Rightarrow> goerror option prog" where
  "WaitForServerState s u st = call (EWaitForServerState u st) (\<lambda>h. s_WaitForServerState s h u st)"

definition GetPlans :: "cloud_service \<Rightarrow> (goerror + Plan list) prog" where
  "GetPlans s = call EGetPlans (\<lambda>h. cl_GetPlans s h)"
definition GetPricesByZone ::
  "cloud_service \<Rightarrow> (goerror + (string \<times> (string \<times> float64) list) list) prog" where
  "GetPricesByZone s = call EGetPrices (\<lambda>h. cl_GetPricesByZone s h)"

definition Now :: "host \<Rightarrow> (gotime \<times> int) prog" where
  "Now hst = call ENow (\<lambda>h. h_Now hst h)"
definition NewUUID :: "host \<Rightarrow> string prog" where
  "NewUUID hst = call ENewUUID (\<lambda>h. h_NewUUID hst h)"

lemmas call_defs =
  GetClaim_def GetNodeClass_def GetNode_def GetConfigMap_def ListPods_def ListClaims_def
  PatchClaim_def DeleteClaim_def PatchNode_def UpdateNodeClass_def PatchStatus_def Publish_def
  CreateCSR_def GetCSR_def UpdateApproval_def
  CreateServer_def DeleteServerAndStorages_def GetServerDetails_def GetServers_def
  StopServer_def WaitForServerState_def GetPlans_def GetPricesByZone_def Now_def NewUUID_def

section \<open>Reads and writes\<close>

text \<open>The calls that only read, and the writes to each kind of object.\<close>

fun is_read :: "event \<Rightarrow> bool" where
  "is_read (EGetClaim _) = True"
| "is_read (EGetNodeClass _) = True"
| "is_read (EGetNode _) = True"
| "is_read (EGetConfigMap _ _) = True"
| "is_read EListPods = True"
| "is_read (EListClaims _) = True"
| "is_read (EGetCSR _) = True"
| "is_read (EGetServerDetails _) = True"
| "is_read EGetServers = True"
| "is_read EGetPlans = True"
| "is_read EGetPrices = True"
| "is_read ENow = True"
| "is_read _ = False"

fun deletes_claim :: "event \<Rightarrow> bool" where
  "deletes_claim (EDeleteClaim _) = True"
| "deletes_claim _ = False"

fun is_server_call :: "event \<Rightarrow> bool" where
  "is_server_call (ECreateServer _) = True"
| "is_server_call (EDeleteServer _) = True"
| "is_server_call (EGetServerDetails _) = True"
| "is_server_call EGetServers = True"
| "is_server_call (EStopServer _ _ _) = True"
| "is_server_call (EWaitForServerState _ _) = True"
| "is_server_call _ = False"

section \<open>Services whose every call fails\<close>

text \<open>The starting point of the concrete services in the examples: each overrides a few methods.\<close>

definition down :: goerror where "down = ErrText ''connection refused''"

definition down_kube :: kube_client where
  "down_kube = \<lparr>k_GetClaim = \<lambda>_ _. Inl down, k_GetNodeClass = \<lambda>_ _. Inl down,
     k_GetNode = \<lambda>_ _. Inl down, k_GetConfigMap = \<lambda>_ _ _. Inl down, k_ListPods = \<lambda>_. Inl down,
     k_ListClaims = \<lambda>_ _. Inl down, k_PatchClaim = \<lambda>_ _ _. Some down,
     k_DeleteClaim = \<lambda>_ _. Some down, k_PatchNode = \<lambda>_ _ _. Some down,
     k_UpdateNodeClass = \<lambda>_ _. Some down, k_PatchStatus = \<lambda>_ _ _. Inl down\<rparr>"

definition down_csr :: csr_client where
  "down_csr = \<lparr>c_Create = \<lambda>_ _. Inl down, c_Get = \<lambda>_ _. Inl down, c_UpdateApproval = \<lambda>_ _ _. Inl down\<rparr>"

definition down_servers :: server_service where
  "down_servers = \<lparr>s_CreateServer = \<lambda>_ _. Inl down, s_DeleteServerAndStorages = \<lambda>_ _. Some down,
     s_GetServerDetails = \<lambda>_ _. Inl down, s_GetServers = \<lambda>_. Inl down,
     s_StopServer = \<lambda>_ _ _ _. Some down, s_WaitForServerState = \<lambda>_ _ _. Some down\<rparr>"

definition down_cloud :: cloud_service where
  "down_cloud = \<lparr>cl_GetPlans = \<lambda>_. Inl down, cl_GetPricesByZone = \<lambda>_. Inl down\<rparr>"

text \<open>A clock that stands still, in UTC.\<close>

definition still_host :: "gotime \<Rightarrow> string \<Rightarrow> host" where
  "still_host t u = \<lparr>h_Now = \<lambda>_. (t, 0), h_NewUUID = \<lambda>_. u\<rparr>"

lemma still_host_simps [simp]:
  "h_Now (still_host t u) h = (t, 0)" "h_NewUUID (still_host t u) h = u"
  by (simp_all add: still_host_def)

definition empty_claim :: NodeClaim where
  "empty_claim = \<lparr>nc_Meta = zeroMeta, nc_NodeClassRef = None, nc_Requirements = [], nc_Taints = [],
     nc_ProviderID = '''', nc_NodeName = '''', nc_Capacity = [], nc_Allocatable = [], nc_Conditions = []\<rparr>"

definition empty_pod :: Pod where
  "empty_pod = \<lparr>pod_Meta = zeroMeta, pod_NodeName = '''', pod_NodeSelector = None, pod_Affinity = None,
     pod_Tolerations = [], pod_Phase = '''', pod_Conditions = []\<rparr>"

definition empty_spec :: UpCloudNodeClassSpec where
  "empty_spec = \<lparr>spec_Zone = '''', spec_Plan = '''', spec_Storage = None, spec_SSHKeys = None,
     spec_KubeletArgs = None, spec_Labels = None, spec_Taints = None, spec_ServerGroupUUID = '''',
     spec_UtilityNetworkAccess = None\<rparr>"

definition empty_class :: UpCloudNodeClass where
  "empty_class = \<lparr>cls_Meta = zeroMeta, cls_Spec = empty_spec,
     cls_Status = \<lparr>ncs_Conditions = [], ncs_Hash = ''''\<rparr>\<rparr>"

lemmas fixture_defs =
  down_def down_kube_def down_csr_def down_servers_def down_cloud_def still_host_def
  empty_claim_def empty_pod_def empty_spec_def empty_class_def zeroMeta_def

section \<open>The contract of a reconciler\<close>

type_synonym reconcile_outcome = "ReconcileResult \<times> goerror option"

text \<open>\<^verbatim>\<open>client.IgnoreNotFound\<close>\<close>

definition IgnoreNotFound :: "goerror \<Rightarrow> goerror option" where
  "IgnoreNotFound e = (if IsNotFound e then None else Some e)"

text \<open>A queue of requests, served one after the other.\<close>

fun serve :: "(string \<Rightarrow> reconcile_outcome prog) \<Rightarrow> string list \<Rightarrow> reconcile_outcome list prog" where
  "serve rec [] = ret []"
| "serve rec (n # ns) = do { r \<leftarrow> rec n; rs \<leftarrow> serve rec ns; ret (r # rs) }"

text \<open>
  Both controllers of the repository promise the same to the controller runtime: they begin by
  fetching the object they are asked about, and where it does not exist they do nothing and
  report no error, so that a request for a deleted object leaves the queue.
\<close>

locale reconciler =
  fixes reconcile :: "string \<Rightarrow> reconcile_outcome prog"
    and fetch :: "history \<Rightarrow> string \<Rightarrow> goerror + 'o"
    and fetch_event :: "string \<Rightarrow> event"
  assumes fetch_failed:
      "fetch h n = Inl e \<Longrightarrow> run_state (reconcile n) h = ((noRequeue, IgnoreNotFound e), h @ [fetch_event n])"
    and fetch_first: "\<exists>evs. snd (run_state (reconcile n) h) = h @ fetch_event n # evs"
begin

lemma absent_is_done:
  assumes "fetch h n = Inl e" and "IsNotFound e"
  shows "run_state (reconcile n) h = ((noRequeue, None), h @ [fetch_event n])"
  using fetch_failed [OF assms(1)] assms(2) by (simp add: IgnoreNotFound_def)

lemma fetch_error_reported:
  assumes "fetch h n = Inl e" and "\<not> IsNotFound e"
  shows "run_state (reconcile n) h = ((noRequeue, Some e), h @ [fetch_event n])"
  using fetch_failed [OF assms(1)] assms(2) by (simp add: IgnoreNotFound_def)

lemma serve_absent:
  assumes "\<And>h n. n \<in> set ns \<Longrightarrow> \<exists>e. fetch h n = Inl e \<and> IsNotFound e"
  shows "run_state (serve reconcile ns) h =
    (replicate (length ns) (noRequeue, None), h @ map fetch_event ns)"
  using assms
proof (induction ns arbitrary: h)
  case Nil
  then show ?case by simp
next
  case (Cons n ns)
  obtain e where "fetch h n = Inl e" "IsNotFound e" using Cons.prems by force
  then have "run_state (reconcile n) h = ((noRequeue, None), h @ [fetch_event n])"
    by (rule absent_is_done)
  then show ?case using Cons by simp
qed

lemma serve_extends: "\<exists>evs. snd (run_state (serve reconcile ns) h) = h @ evs"
proof (induction ns arbitrary: h)
  case (Cons n ns)
  obtain r evs where r: "run_state (reconcile n) h = (r, h @ evs)"
    using fetch_first [of n h] by (metis prod.collapse)
  obtain evs' where "snd (run_state (serve reconcile ns) (h @ evs)) = (h @ evs) @ evs'"
    using Cons.IH by blast
  then show ?case using r by (auto split: prod.split)
qed simp

end

end
