(* ===== verification/TTL_Controller.thy ===== *)
theory TTL_Controller
  imports World
begin

text \<open>
  The NodeClaim TTL controller, \<^verbatim>\<open>pkg/controllers/nodeclaimttl/controller.go\<close>: once a
  NodeClaim is older than the TTL it is kept while its node is busy or could serve a pending
  pod, and otherwise its node is tainted and the claim deleted.

  The definitions follow the file in its order. \<open>TTL_Reconcile\<close> is the handler with every
  call it makes; the decision helpers are pure functions on the listed pods and the node.
  The lemmas give: what the decision helpers decide, stated as set comprehensions; the run of
  the handler on each of its branches; the calls it can make; and the comparison of
  \<open>tolerationMatches\<close> and \<open>podFitsInstanceType\<close> with the Kubernetes rules they stand for.
\<close>

section \<open>Definitions\<close>

record TTLController =
  ttl_Client :: kube_client
  ttl_TTL :: duration

definition resetTTL :: "TTLController \<Rightarrow> host \<Rightarrow> NodeClaim \<Rightarrow> reconcile_outcome prog" where
  "resetTTL c hst nc =
     do {
       (now, offset) \<leftarrow> Now hst;
       (case map_set NodeClaimTTLResetAnnotationKey (Format_RFC3339 now offset)
               (ensure_map (nc_Annotations nc)) of
          Inl e \<Rightarrow> ret (noRequeue, Some e)
        | Inr m \<Rightarrow>
            do {
              err \<leftarrow> PatchClaim (ttl_Client c) nc (set_Annotations m nc);
              (case err of
                 Some e \<Rightarrow> ret (noRequeue, Some (Wrapf ''patching TTL reset'' e))
               | None \<Rightarrow> ret (requeueAfter (ttl_TTL c), None))
            })
     }"

definition ttlStart :: "NodeClaim \<Rightarrow> gotime" where
  "ttlStart nc =
     (case map_get (nc_Annotations nc) NodeClaimTTLResetAnnotationKey of
        Some v \<Rightarrow> (case Parse_RFC3339 v of Some t \<Rightarrow> t
                  | None \<Rightarrow> om_CreationTimestamp (nc_Meta nc))
      | None \<Rightarrow> om_CreationTimestamp (nc_Meta nc))"

fun owned_by_DaemonSet :: "OwnerReference list \<Rightarrow> bool" where
  "owned_by_DaemonSet [] = False"
| "owned_by_DaemonSet (ref # refs) = (if or_Kind ref = ''DaemonSet'' then True else owned_by_DaemonSet refs)"

definition isDaemonSet :: "Pod \<Rightarrow> bool" where
  "isDaemonSet pod = owned_by_DaemonSet (om_OwnerReferences (pod_Meta pod))"

fun hasNonDSPods :: "Pod list \<Rightarrow> string \<Rightarrow> bool" where
  "hasNonDSPods [] nodeName = False"
| "hasNonDSPods (p # ps) nodeName =
     (if pod_NodeName p = nodeName \<and> \<not> isDaemonSet p \<and> IsZero (om_DeletionTimestamp (pod_Meta p))
      then True else hasNonDSPods ps nodeName)"

fun tolerationMatches :: "Taint \<Rightarrow> Toleration list \<Rightarrow> bool" where
  "tolerationMatches taint [] = False"
| "tolerationMatches taint (t # ts) =
     (if tol_Key t \<noteq> '''' \<and> tol_Key t \<noteq> taint_Key taint then tolerationMatches taint ts
      else if tol_Effect t \<noteq> '''' \<and> tol_Effect t \<noteq> taint_Effect taint then tolerationMatches taint ts
      else if tol_Operator t = TolerationOpExists then True
      else if tol_Value t = taint_Value taint then True
      else tolerationMatches taint ts)"

fun podToleratesNodeTaints :: "Pod \<Rightarrow> Taint list \<Rightarrow> bool" where
  "podToleratesNodeTaints pod [] = True"
| "podToleratesNodeTaints pod (taint # taints) =
     (if taint_Effect taint \<noteq> NoSchedule \<and> taint_Effect taint \<noteq> NoExecute
      then podToleratesNodeTaints pod taints
      else if \<not> tolerationMatches taint (pod_Tolerations pod) then False
      else podToleratesNodeTaints pod taints)"

text \<open>The loop over the expressions of one term: the variables \<open>found\<close> and \<open>failed\<close> at its end.\<close>

fun scan_term :: "string \<Rightarrow> NodeSelectorRequirement list \<Rightarrow> bool \<Rightarrow> bool \<times> bool" where
  "scan_term plan [] found = (found, False)"
| "scan_term plan (expr # exprs) found =
     (if nsr_Key expr \<noteq> LabelInstanceTypeStable then scan_term plan exprs found
      else if nsr_Operator expr = NodeSelectorOpIn \<or> nsr_Operator expr = NodeSelectorOpExists
      then (if nsr_Operator expr = NodeSelectorOpIn \<and> plan \<notin> set (nsr_Values expr)
            then (True, True)
            else scan_term plan exprs True)
      else scan_term plan exprs found)"

text \<open>The loop over the terms: whether it returns true.\<close>

fun some_term_admits :: "string \<Rightarrow> NodeSelectorTerm list \<Rightarrow> bool" where
  "some_term_admits plan [] = False"
| "some_term_admits plan (term # terms) =
     (case scan_term plan (nst_MatchExpressions term) False of
        (found, failed) \<Rightarrow>
          if \<not> found then some_term_admits plan terms
          else if \<not> failed then True
          else some_term_admits plan terms)"

fun hasConstrainingTerm :: "NodeSelectorTerm list \<Rightarrow> bool" where
  "hasConstrainingTerm [] = False"
| "hasConstrainingTerm (term # terms) =
     (list_ex (\<lambda>expr. nsr_Key expr = LabelInstanceTypeStable) (nst_MatchExpressions term)
      \<or> hasConstrainingTerm terms)"

text \<open>\<^verbatim>\<open>aff != nil && aff.NodeAffinity != nil && ...Required... != nil\<close>\<close>

definition requiredNodeSelector :: "Pod \<Rightarrow> NodeSelector option" where
  "requiredNodeSelector pod =
     Option.bind (pod_Affinity pod) (\<lambda>aff. Option.bind (aff_NodeAffinity aff) na_Required)"

definition podFitsInstanceType :: "Pod \<Rightarrow> string \<Rightarrow> bool" where
  "podFitsInstanceType pod plan =
     (if (case map_get (pod_NodeSelector pod) LabelInstanceTypeStable of
            Some v \<Rightarrow> v \<noteq> plan | None \<Rightarrow> False)
      then False
      else
        (case requiredNodeSelector pod of
           None \<Rightarrow> True
         | Some sel \<Rightarrow>
             (case ns_NodeSelectorTerms sel of
                None \<Rightarrow> True
              | Some terms \<Rightarrow>
                  if some_term_admits plan terms then True
                  else if hasConstrainingTerm terms then False
                  else True)))"

text \<open>The loop over the pod's conditions: false where it returns false.\<close>

fun unschedulable_conditions :: "PodCondition list \<Rightarrow> bool" where
  "unschedulable_conditions [] = True"
| "unschedulable_conditions (c # cs) =
     (if pc_Type c \<noteq> PodScheduled then unschedulable_conditions cs
      else if pc_Status c = ConditionTrue then False
      else if pc_Reason c \<noteq> ''Unschedulable'' then False
      else unschedulable_conditions cs)"

definition isMatchingPending :: "Pod \<Rightarrow> string \<Rightarrow> Taint list \<Rightarrow> bool" where
  "isMatchingPending pod plan taints =
     (if pod_Phase pod \<noteq> PodPending \<or> pod_NodeName pod \<noteq> '''' then False
      else if \<not> unschedulable_conditions (pod_Conditions pod) then False
      else if \<not> podFitsInstanceType pod plan then False
      else if \<not> podToleratesNodeTaints pod taints then False
      else True)"

definition instancePlan :: "Node \<Rightarrow> string" where
  "instancePlan node =
     (case om_Labels (node_Meta node) of
        Some al \<Rightarrow> map_read (Some al) LabelInstanceTypeStable
      | None \<Rightarrow> '''')"

fun any_matching_pending :: "Pod list \<Rightarrow> string \<Rightarrow> Taint list \<Rightarrow> bool" where
  "any_matching_pending [] plan taints = False"
| "any_matching_pending (p # ps) plan taints =
     (if isMatchingPending p plan taints then True else any_matching_pending ps plan taints)"

definition hasMatchingPendingPod :: "Pod list \<Rightarrow> Node \<Rightarrow> bool" where
  "hasMatchingPendingPod pods node = any_matching_pending pods (instancePlan node) (node_Taints node)"

definition decommissioningTaint :: Taint where
  "decommissioningTaint =
     \<lparr>taint_Key = DecommissioningTaintKey, taint_Value = '''', taint_Effect = NoSchedule\<rparr>"

fun has_taint_key :: "string \<Rightarrow> Taint list \<Rightarrow> bool" where
  "has_taint_key k [] = False"
| "has_taint_key k (t # ts) = (if taint_Key t = k then True else has_taint_key k ts)"

definition taintNode :: "TTLController \<Rightarrow> Node \<Rightarrow> goerror option prog" where
  "taintNode c node =
     (if has_taint_key DecommissioningTaintKey (node_Taints node) then ret None
      else PatchNode (ttl_Client c) node (node\<lparr>node_Taints := node_Taints node @ [decommissioningTaint]\<rparr>))"

text \<open>The part of \<^verbatim>\<open>Reconcile\<close> after the TTL has expired.\<close>

definition TTL_expired :: "TTLController \<Rightarrow> host \<Rightarrow> NodeClaim \<Rightarrow> reconcile_outcome prog" where
  "TTL_expired c hst nc =
     do {
       r \<leftarrow> ListPods (ttl_Client c);
       (case r of
          Inl e \<Rightarrow> ret (noRequeue, Some (Wrapf ''listing pods'' e))
        | Inr pods \<Rightarrow>
            if hasNonDSPods pods (nc_NodeName nc) then resetTTL c hst nc
            else do {
              rn \<leftarrow> GetNode (ttl_Client c) (nc_NodeName nc);
              (case rn of
                 Inl e \<Rightarrow> ret (noRequeue, Some (Wrapf (''getting node '' @ nc_NodeName nc) e))
               | Inr node \<Rightarrow>
                   if hasMatchingPendingPod pods node then resetTTL c hst nc
                   else do {
                     terr \<leftarrow> taintNode c node;
                     (case terr of
                        Some e \<Rightarrow> ret (noRequeue, Some (Wrapf (''tainting node '' @ nc_NodeName nc) e))
                      | None \<Rightarrow> do {
                          derr \<leftarrow> DeleteClaim (ttl_Client c) nc;
                          (case derr of
                             Some e \<Rightarrow> ret (noRequeue, Some (Wrapf ''deleting NodeClaim'' e))
                           | None \<Rightarrow> ret (noRequeue, None))
                        })
                   })
            })
     }"

definition TTL_Reconcile :: "TTLController \<Rightarrow> host \<Rightarrow> string \<Rightarrow> reconcile_outcome prog" where
  "TTL_Reconcile c hst name =
     do {
       r \<leftarrow> GetClaim (ttl_Client c) name;
       (case r of
          Inl e \<Rightarrow> ret (noRequeue, IgnoreNotFound e)
        | Inr nc \<Rightarrow>
            if \<not> IsZero (om_DeletionTimestamp (nc_Meta nc)) \<or> nc_NodeName nc = ''''
            then ret (noRequeue, None)
            else do {
              (now, _) \<leftarrow> Now hst;
              (let elapsed = Since now (ttlStart nc) in
               if elapsed < ttl_TTL c
               then ret (requeueAfter (dur_sub (ttl_TTL c) elapsed), None)
               else TTL_expired c hst nc)
            })
     }"

definition TTL_registration :: registration where
  "TTL_registration = \<lparr>reg_For = NodeClaim_object, reg_MaxConcurrentReconciles = 0, reg_EventFilters = []\<rparr>"

definition TTL_SetupWithManager :: "manager \<Rightarrow> TTLController \<Rightarrow> goerror option prog" where
  "TTL_SetupWithManager mgr c = call (ESetupTTL (ttl_TTL c) TTL_registration) (\<lambda>h. mgr h TTL_registration)"

section \<open>What the decision helpers decide\<close>

lemma owned_by_DaemonSet_iff: "owned_by_DaemonSet refs \<longleftrightarrow> (\<exists>r \<in> set refs. or_Kind r = ''DaemonSet'')"
  by (induction refs) auto

lemma hasNonDSPods_iff:
  "hasNonDSPods pods n \<longleftrightarrow>
     (\<exists>p \<in> set pods. pod_NodeName p = n \<and> \<not> isDaemonSet p \<and> IsZero (om_DeletionTimestamp (pod_Meta p)))"
  by (induction pods) auto

lemma podToleratesNodeTaints_iff:
  "podToleratesNodeTaints pod taints \<longleftrightarrow>
     (\<forall>t \<in> set taints. taint_Effect t = NoSchedule \<or> taint_Effect t = NoExecute
        \<longrightarrow> tolerationMatches t (pod_Tolerations pod))"
  by (induction taints) auto

lemma unschedulable_conditions_iff:
  "unschedulable_conditions cs \<longleftrightarrow>
     (\<forall>c \<in> set cs. pc_Type c = PodScheduled
        \<longrightarrow> pc_Status c \<noteq> ConditionTrue \<and> pc_Reason c = ''Unschedulable'')"
  by (induction cs) auto

lemma any_matching_pending_iff:
  "any_matching_pending pods plan taints \<longleftrightarrow> (\<exists>p \<in> set pods. isMatchingPending p plan taints)"
  by (induction pods) auto

lemma hasMatchingPendingPod_iff:
  "hasMatchingPendingPod pods node \<longleftrightarrow>
     (\<exists>p \<in> set pods. isMatchingPending p (instancePlan node) (node_Taints node))"
  by (simp add: hasMatchingPendingPod_def any_matching_pending_iff)

lemma has_taint_key_iff: "has_taint_key k ts \<longleftrightarrow> (\<exists>t \<in> set ts. taint_Key t = k)"
  by (induction ts) auto

section \<open>Runs of the handler\<close>

lemmas ttl_run_defs = TTL_Reconcile_def TTL_expired_def resetTTL_def taintNode_def call_defs

text \<open>What a reset writes.\<close>

definition reset_claim :: "gotime \<Rightarrow> int \<Rightarrow> NodeClaim \<Rightarrow> NodeClaim" where
  "reset_claim now offset nc =
     set_Annotations
       (Some (AList.update NodeClaimTTLResetAnnotationKey (Format_RFC3339 now offset)
                (map_entries (nc_Annotations nc)))) nc"

lemma map_set_ensure_eq: "map_set k v (ensure_map m) = Inr (Some (AList.update k v (map_entries m)))"
  by (cases m) simp_all

lemma run_resetTTL:
  assumes "h_Now hst h = (now, offset)"
  shows "run_state (resetTTL c hst nc) h =
     (case k_PatchClaim (ttl_Client c) (h @ [ENow]) nc (reset_claim now offset nc) of
        Some e \<Rightarrow> (noRequeue, Some (Wrapf ''patching TTL reset'' e))
      | None \<Rightarrow> (requeueAfter (ttl_TTL c), None),
      h @ [ENow, EPatchClaim nc (reset_claim now offset nc)])"
  using assms
  by (simp add: resetTTL_def call_defs map_set_ensure_eq reset_claim_def split: option.split)

lemma emits_resetTTL:
  "emits (\<lambda>e. e = ENow \<or> (\<exists>nc'. e = EPatchClaim nc nc')) (resetTTL c hst nc)"
  by (auto simp: resetTTL_def call_defs split: prod.split intro!: emits_rules)

interpretation ttl: reconciler
  "TTL_Reconcile c hst" "k_GetClaim (ttl_Client c)" EGetClaim for c hst
proof
  fix h n e
  assume "k_GetClaim (ttl_Client c) h n = Inl e"
  then show "run_state (TTL_Reconcile c hst n) h = ((noRequeue, IgnoreNotFound e), h @ [EGetClaim n])"
    by (simp add: TTL_Reconcile_def call_defs)
next
  fix h n
  show "\<exists>evs. snd (run_state (TTL_Reconcile c hst n) h) = h @ EGetClaim n # evs"
    unfolding TTL_Reconcile_def GetClaim_def
    by (rule emits_True_call_first [where P = "\<lambda>_. True"])
       (auto simp: TTL_expired_def resetTTL_def taintNode_def call_defs Let_def
             intro!: emits_rules split: prod.split)
qed

lemma run_TTL_expired_branch:
  assumes "k_GetClaim (ttl_Client c) h name = Inr nc"
    and "IsZero (om_DeletionTimestamp (nc_Meta nc))" and "nc_NodeName nc \<noteq> ''''"
    and "h_Now hst (h @ [EGetClaim name]) = (now, offset)"
    and "ttl_TTL c \<le> Since now (ttlStart nc)"
  shows "run_state (TTL_Reconcile c hst name) h =
         run_state (TTL_expired c hst nc) (h @ [EGetClaim name, ENow])"
  using assms by (simp add: TTL_Reconcile_def call_defs Let_def)

lemma run_TTL_pending_branch:
  assumes "k_GetClaim (ttl_Client c) h name = Inr nc"
    and "IsZero (om_DeletionTimestamp (nc_Meta nc))" and "nc_NodeName nc \<noteq> ''''"
    and "h_Now hst (h @ [EGetClaim name]) = (now, offset)"
    and "Since now (ttlStart nc) < ttl_TTL c"
  shows "run_state (TTL_Reconcile c hst name) h =
    ((requeueAfter (dur_sub (ttl_TTL c) (Since now (ttlStart nc))), None), h @ [EGetClaim name, ENow])"
  using assms by (simp add: TTL_Reconcile_def call_defs Let_def)

lemma ttlStart_reset_claim:
  assumes "civil_of_days ((now div 10 ^ 9 + offset) div 86400) = (y, m, d)" "0 \<le> y" "y < 10000"
    and "offset mod 60 = 0" "\<bar>offset\<bar> \<le> 86400"
  shows "ttlStart (reset_claim now offset nc) = now div 10 ^ 9 * 10 ^ 9"
  using Parse_Format_RFC3339 [OF assms]
  by (simp add: ttlStart_def reset_claim_def update_conv')

section \<open>The Kubernetes rules the helpers stand for\<close>

text \<open>\<^verbatim>\<open>Toleration.ToleratesTaint\<close> of the Kubernetes API, as its documentation states it.\<close>

definition ToleratesTaint :: "Toleration \<Rightarrow> Taint \<Rightarrow> bool" where
  "ToleratesTaint t taint \<longleftrightarrow>
     (tol_Effect t = '''' \<or> tol_Effect t = taint_Effect taint)
     \<and> (tol_Key t = '''' \<or> tol_Key t = taint_Key taint)
     \<and> (if tol_Operator t = '''' \<or> tol_Operator t = TolerationOpEqual
        then tol_Value t = taint_Value taint
        else tol_Operator t = TolerationOpExists)"

lemma tolerationMatches_iff:
  "tolerationMatches taint ts \<longleftrightarrow>
     (\<exists>t \<in> set ts. (tol_Key t = '''' \<or> tol_Key t = taint_Key taint)
        \<and> (tol_Effect t = '''' \<or> tol_Effect t = taint_Effect taint)
        \<and> (tol_Operator t = TolerationOpExists \<or> tol_Value t = taint_Value taint))"
  by (induction ts) auto

text \<open>
  A node selector term restricted to the instance type: all its expressions on that label admit
  the plan. Terms are alternatives.
\<close>

definition expr_admits :: "string \<Rightarrow> NodeSelectorRequirement \<Rightarrow> bool" where
  "expr_admits plan e \<longleftrightarrow>
     (if nsr_Key e \<noteq> LabelInstanceTypeStable then True
      else if nsr_Operator e = NodeSelectorOpIn then plan \<in> set (nsr_Values e)
      else if nsr_Operator e = ''NotIn'' then plan \<notin> set (nsr_Values e)
      else nsr_Operator e = NodeSelectorOpExists)"

definition term_admits :: "string \<Rightarrow> NodeSelectorTerm \<Rightarrow> bool" where
  "term_admits plan t \<longleftrightarrow> list_all (expr_admits plan) (nst_MatchExpressions t)"

definition constrains_type :: "NodeSelectorTerm \<Rightarrow> bool" where
  "constrains_type t \<longleftrightarrow> list_ex (\<lambda>e. nsr_Key e = LabelInstanceTypeStable) (nst_MatchExpressions t)"

definition In_or_Exists :: "NodeSelectorTerm \<Rightarrow> bool" where
  "In_or_Exists t \<longleftrightarrow>
     list_all (\<lambda>e. nsr_Key e = LabelInstanceTypeStable
        \<longrightarrow> nsr_Operator e = NodeSelectorOpIn \<or> nsr_Operator e = NodeSelectorOpExists)
       (nst_MatchExpressions t)"

definition pod_admits_plan :: "Pod \<Rightarrow> string \<Rightarrow> bool" where
  "pod_admits_plan pod plan \<longleftrightarrow>
     (case map_get (pod_NodeSelector pod) LabelInstanceTypeStable of None \<Rightarrow> True | Some v \<Rightarrow> v = plan)
     \<and> (case requiredNodeSelector pod of None \<Rightarrow> True
        | Some sel \<Rightarrow> (case ns_NodeSelectorTerms sel of None \<Rightarrow> True
                      | Some terms \<Rightarrow> terms = [] \<or> list_ex (term_admits plan) terms))"

definition pod_terms :: "Pod \<Rightarrow> NodeSelectorTerm list" where
  "pod_terms pod =
     (case requiredNodeSelector pod of None \<Rightarrow> []
      | Some sel \<Rightarrow> (case ns_NodeSelectorTerms sel of None \<Rightarrow> [] | Some terms \<Rightarrow> terms))"

lemma hasConstrainingTerm_iff: "hasConstrainingTerm ts \<longleftrightarrow> list_ex constrains_type ts"
  by (induction ts) (auto simp: constrains_type_def)

lemma scan_term_In_or_Exists:
  assumes "list_all (\<lambda>e. nsr_Key e = LabelInstanceTypeStable
      \<longrightarrow> nsr_Operator e = NodeSelectorOpIn \<or> nsr_Operator e = NodeSelectorOpExists) es"
  shows "snd (scan_term plan es f) \<longleftrightarrow> \<not> list_all (expr_admits plan) es"
    and "fst (scan_term plan es f) \<longleftrightarrow> f \<or> list_ex (\<lambda>e. nsr_Key e = LabelInstanceTypeStable) es"
  using assms by (induction es arbitrary: f) (auto simp: expr_admits_def)

lemma unconstrained_admits: "\<not> constrains_type t \<Longrightarrow> term_admits plan t"
  by (auto simp: constrains_type_def term_admits_def expr_admits_def list_all_iff list_ex_iff)

lemma some_term_admits_iff:
  assumes "list_all In_or_Exists ts"
  shows "some_term_admits plan ts \<longleftrightarrow> (\<exists>t \<in> set ts. constrains_type t \<and> term_admits plan t)"
  using assms
proof (induction ts)
  case (Cons t ts)
  have S: "snd (scan_term plan (nst_MatchExpressions t) False) \<longleftrightarrow> \<not> term_admits plan t"
    "fst (scan_term plan (nst_MatchExpressions t) False) \<longleftrightarrow> constrains_type t"
    using scan_term_In_or_Exists [of "nst_MatchExpressions t"] Cons.prems
    by (simp_all add: In_or_Exists_def term_admits_def constrains_type_def)
  show ?case using Cons S by (auto split: prod.split simp: prod_eq_iff)
qed simp

lemma podFitsInstanceType_terms:
  "podFitsInstanceType pod plan \<longleftrightarrow>
     (case map_get (pod_NodeSelector pod) LabelInstanceTypeStable of None \<Rightarrow> True | Some v \<Rightarrow> v = plan)
     \<and> (some_term_admits plan (pod_terms pod) \<or> \<not> hasConstrainingTerm (pod_terms pod))"
  by (auto simp: podFitsInstanceType_def pod_terms_def split: option.splits)

lemma pod_admits_plan_terms:
  "pod_admits_plan pod plan \<longleftrightarrow>
     (case map_get (pod_NodeSelector pod) LabelInstanceTypeStable of None \<Rightarrow> True | Some v \<Rightarrow> v = plan)
     \<and> (pod_terms pod = [] \<or> list_ex (term_admits plan) (pod_terms pod))"
  by (auto simp: pod_admits_plan_def pod_terms_def split: option.splits)

section \<open>Examples\<close>

text \<open>A claim created at the epoch, its node with a custom plan, and a client that knows both.\<close>

definition ex_meta :: "string \<Rightarrow> ObjectMeta" where
  "ex_meta n = zeroMeta\<lparr>om_Name := n, om_CreationTimestamp := 0\<rparr>"

definition ex_claim :: NodeClaim where
  "ex_claim = empty_claim\<lparr>nc_Meta := ex_meta ''nc1'', nc_NodeName := ''node1''\<rparr>"

definition ex_node :: "Taint list \<Rightarrow> Node" where
  "ex_node ts = \<lparr>node_Meta = (ex_meta ''node1'')\<lparr>om_Labels := Some [(LabelInstanceTypeStable, ''2xCPU-4GB'')]\<rparr>,
     node_Taints = ts\<rparr>"

definition ex_client :: "NodeClaim \<Rightarrow> Taint list \<Rightarrow> Pod list \<Rightarrow> kube_client" where
  "ex_client nc ts pods = down_kube\<lparr>k_GetClaim := \<lambda>_ _. Inr nc, k_GetNode := \<lambda>_ _. Inr (ex_node ts),
     k_ListPods := \<lambda>_. Inr pods, k_PatchNode := \<lambda>_ _ _. None, k_PatchClaim := \<lambda>_ _ _. None,
     k_DeleteClaim := \<lambda>_ _. None\<rparr>"

definition ex_controller :: "NodeClaim \<Rightarrow> Taint list \<Rightarrow> Pod list \<Rightarrow> TTLController" where
  "ex_controller nc ts pods = \<lparr>ttl_Client = ex_client nc ts pods, ttl_TTL = 5 * Minute\<rparr>"

definition ex_terms_pod :: "NodeSelectorTerm list \<Rightarrow> Pod" where
  "ex_terms_pod ts = empty_pod\<lparr>pod_Affinity := Some \<lparr>aff_NodeAffinity =
     Some \<lparr>na_Required = Some \<lparr>ns_NodeSelectorTerms = Some ts\<rparr>\<rparr>\<rparr>\<rparr>"

definition ex_expr :: "string \<Rightarrow> string \<Rightarrow> string list \<Rightarrow> NodeSelectorRequirement" where
  "ex_expr k op vs = \<lparr>nsr_Key = k, nsr_Operator = op, nsr_Values = vs\<rparr>"

lemma ex_controller_simps [simp]:
  "k_GetClaim (ttl_Client (ex_controller nc ts pods)) h n = Inr nc"
  "k_ListPods (ttl_Client (ex_controller nc ts pods)) h = Inr pods"
  "k_GetNode (ttl_Client (ex_controller nc ts pods)) h n = Inr (ex_node ts)"
  "k_PatchNode (ttl_Client (ex_controller nc ts pods)) h nd nd' = None"
  "k_DeleteClaim (ttl_Client (ex_controller nc ts pods)) h nc' = None"
  "k_PatchClaim (ttl_Client (ex_controller nc ts pods)) h nc' nc'' = None"
  "ttl_TTL (ex_controller nc ts pods) = 5 * Minute"
  by (simp_all add: ex_controller_def ex_client_def)

lemma ex_claim_simps [simp]:
  "nc_NodeName ex_claim = ''node1''" "IsZero (om_DeletionTimestamp (nc_Meta ex_claim))"
  "ttlStart ex_claim = 0" "nc_Name ex_claim = ''nc1''"
  by (simp_all add: ex_claim_def empty_claim_def ex_meta_def zeroMeta_def IsZero_def ttlStart_def)

lemma ex_node_Taints [simp]: "node_Taints (ex_node ts) = ts"
  by (simp add: ex_node_def)

lemmas clock_defs = Since_def Sub_def Minute_def maxDuration_def minDuration_def is_duration_def

section \<open>Properties\<close>





text \<open>
  C27. Before the TTL has expired nothing is written: the run makes two reads and asks to be
  called again exactly when the TTL expires, after a positive time of at most the TTL, without
  overflow of the 64-bit subtraction.
\<close>

theorem ttl_requeue_before_expiry:
  assumes "k_GetClaim (ttl_Client c) h name = Inr nc"
    and "IsZero (om_DeletionTimestamp (nc_Meta nc))" and "nc_NodeName nc \<noteq> ''''"
    and "h_Now hst (h @ [EGetClaim name]) = (now, offset)"
    and "is_duration (ttl_TTL c)"
    and "ttlStart nc \<le> now" and "now < ttlStart nc + ttl_TTL c"
  shows "\<exists>d. run_state (TTL_Reconcile c hst name) h = ((requeueAfter d, None), h @ [EGetClaim name, ENow])
           \<and> 0 < d \<and> d \<le> ttl_TTL c \<and> now + d = ttlStart nc + ttl_TTL c"
proof -
  have dur: "is_duration (now - ttlStart nc)"
    using assms(5-7) by (simp add: is_duration_def minDuration_def maxDuration_def)
  have since: "Since now (ttlStart nc) = now - ttlStart nc" by (rule Since_exact [OF dur])
  have "dur_sub (ttl_TTL c) (now - ttlStart nc) = ttl_TTL c - (now - ttlStart nc)"
    unfolding dur_sub_def using assms(5-7)
    by (intro wrap64_id) (simp add: is_duration_def minDuration_def maxDuration_def)
  then show ?thesis
    using run_TTL_pending_branch [OF assms(1-4)] since assms(6,7) by auto
qed

theorem ttl_requeue_before_expiry_witness:
  "\<exists>d. run_state (TTL_Reconcile (ex_controller ex_claim [] []) (still_host Minute '''') ''nc1'') []
       = ((requeueAfter d, None), [] @ [EGetClaim ''nc1'', ENow])
     \<and> 0 < d \<and> d \<le> ttl_TTL (ex_controller ex_claim [] [])
     \<and> Minute + d = ttlStart ex_claim + ttl_TTL (ex_controller ex_claim [] [])"
  by (rule ttl_requeue_before_expiry [where offset = 0]) (simp_all add: clock_defs)



text \<open>
  C29. \<open>tolerationMatches\<close> is the toleration rule of Kubernetes: on tolerations whose operator is
  \<^verbatim>\<open>Exists\<close>, \<^verbatim>\<open>Equal\<close> or left out, a taint is covered exactly where one of the
  tolerations tolerates it, and so a pod passes \<open>podToleratesNodeTaints\<close> exactly where every
  taint that keeps pods off the node is tolerated.
\<close>

theorem podToleratesNodeTaints_eq_kubernetes:
  assumes "\<forall>t \<in> set (pod_Tolerations pod). tol_Operator t \<in> {'''', TolerationOpEqual, TolerationOpExists}"
  shows "podToleratesNodeTaints pod taints \<longleftrightarrow>
    (\<forall>taint \<in> set taints. taint_Effect taint \<in> {NoSchedule, NoExecute} \<longrightarrow>
       (\<exists>t \<in> set (pod_Tolerations pod). ToleratesTaint t taint))"
proof -
  have "tolerationMatches taint (pod_Tolerations pod) \<longleftrightarrow>
      (\<exists>t \<in> set (pod_Tolerations pod). ToleratesTaint t taint)" for taint
    unfolding tolerationMatches_iff ToleratesTaint_def using assms by (intro bex_cong) auto
  then show ?thesis by (auto simp: podToleratesNodeTaints_iff)
qed

theorem podToleratesNodeTaints_eq_kubernetes_witness:
  "podToleratesNodeTaints
     (empty_pod\<lparr>pod_Tolerations := [\<lparr>tol_Key = ''gpu'', tol_Operator = '''', tol_Value = ''yes'', tol_Effect = ''''\<rparr>]\<rparr>)
     [\<lparr>taint_Key = ''gpu'', taint_Value = ''yes'', taint_Effect = NoSchedule\<rparr>]"
  by (subst podToleratesNodeTaints_eq_kubernetes) (simp_all add: ToleratesTaint_def)

text \<open>
  C30. \<open>podFitsInstanceType\<close> decides whether a pod's node selector and required node affinity
  admit the plan, for the affinities the function handles: every expression on the instance type
  uses \<^verbatim>\<open>In\<close> or \<^verbatim>\<open>Exists\<close>, and either every term constrains the instance type or none does.
\<close>

theorem podFitsInstanceType_correct:
  assumes "list_all In_or_Exists (pod_terms pod)"
    and "list_all constrains_type (pod_terms pod) \<or> \<not> list_ex constrains_type (pod_terms pod)"
  shows "podFitsInstanceType pod plan \<longleftrightarrow> pod_admits_plan pod plan"
proof -
  have "some_term_admits plan (pod_terms pod) \<or> \<not> hasConstrainingTerm (pod_terms pod)
      \<longleftrightarrow> pod_terms pod = [] \<or> list_ex (term_admits plan) (pod_terms pod)"
    using assms some_term_admits_iff [OF assms(1), of plan] unconstrained_admits [of _ plan]
    by (cases "pod_terms pod") (auto simp: hasConstrainingTerm_iff list_all_iff list_ex_iff)
  then show ?thesis by (simp add: podFitsInstanceType_terms pod_admits_plan_terms)
qed

theorem podFitsInstanceType_correct_witness:
  "podFitsInstanceType (ex_terms_pod
     [\<lparr>nst_MatchExpressions = [ex_expr LabelInstanceTypeStable ''In'' [''A'']]\<rparr>,
      \<lparr>nst_MatchExpressions = [ex_expr LabelInstanceTypeStable ''In'' [''B'', ''C'']]\<rparr>]) ''B''"
  by (subst podFitsInstanceType_correct)
     (simp_all add: pod_terms_def pod_admits_plan_def requiredNodeSelector_def In_or_Exists_def
        constrains_type_def term_admits_def expr_admits_def ex_terms_pod_def ex_expr_def empty_pod_def)

text \<open>
  Outside those affinities the function turns away pods that fit. Terms are alternatives, and
  a pod whose first term does not mention the instance type fits every plan, yet it is rejected
  where a second term names other plans; and a pod that only excludes another plan with
  \<^verbatim>\<open>NotIn\<close> is rejected for every plan. The node such a pod waits for is then decommissioned.
\<close>

theorem podFitsInstanceType_rejects_admissible:
  "pod_admits_plan (ex_terms_pod
      [\<lparr>nst_MatchExpressions = [ex_expr ''topology.kubernetes.io/zone'' ''In'' [''de-fra1'']]\<rparr>,
       \<lparr>nst_MatchExpressions = [ex_expr LabelInstanceTypeStable ''In'' [''B'']]\<rparr>]) ''A''
   \<and> \<not> podFitsInstanceType (ex_terms_pod
      [\<lparr>nst_MatchExpressions = [ex_expr ''topology.kubernetes.io/zone'' ''In'' [''de-fra1'']]\<rparr>,
       \<lparr>nst_MatchExpressions = [ex_expr LabelInstanceTypeStable ''In'' [''B'']]\<rparr>]) ''A''
   \<and> pod_admits_plan (ex_terms_pod
      [\<lparr>nst_MatchExpressions = [ex_expr LabelInstanceTypeStable ''NotIn'' [''B'']]\<rparr>]) ''A''
   \<and> \<not> podFitsInstanceType (ex_terms_pod
      [\<lparr>nst_MatchExpressions = [ex_expr LabelInstanceTypeStable ''NotIn'' [''B'']]\<rparr>]) ''A''"
  by (simp add: podFitsInstanceType_terms pod_terms_def pod_admits_plan_def requiredNodeSelector_def
      term_admits_def expr_admits_def ex_terms_pod_def ex_expr_def empty_pod_def)

text \<open>
  A failed delete is retried: once the node carries the decommissioning taint, a pending pod
  that does not tolerate that taint no longer keeps the node, and a further run deletes the claim
  again without tainting the node a second time.
\<close>

theorem ttl_retry_after_taint:
  assumes "k_GetClaim (ttl_Client c) h name = Inr nc"
    and "IsZero (om_DeletionTimestamp (nc_Meta nc))" and "nc_NodeName nc \<noteq> ''''"
    and "h_Now hst (h @ [EGetClaim name]) = (now, offset)"
    and "ttl_TTL c \<le> Since now (ttlStart nc)"
    and "k_ListPods (ttl_Client c) (h @ [EGetClaim name, ENow]) = Inr pods"
    and "\<not> hasNonDSPods pods (nc_NodeName nc)"
    and "k_GetNode (ttl_Client c) (h @ [EGetClaim name, ENow, EListPods]) (nc_NodeName nc) = Inr node"
    and "decommissioningTaint \<in> set (node_Taints node)"
    and "\<forall>p \<in> set pods. \<not> tolerationMatches decommissioningTaint (pod_Tolerations p)"
  shows "snd (run_state (TTL_Reconcile c hst name) h) =
     h @ [EGetClaim name, ENow, EListPods, EGetNode (nc_NodeName nc), EDeleteClaim nc]"
proof -
  have "\<not> podToleratesNodeTaints p (node_Taints node)" if "p \<in> set pods" for p
  proof -
    have "taint_Effect decommissioningTaint = NoSchedule" by (simp add: decommissioningTaint_def)
    then show ?thesis using assms(9,10) that unfolding podToleratesNodeTaints_iff by blast
  qed
  then have "\<not> hasMatchingPendingPod pods node"
    by (auto simp: hasMatchingPendingPod_iff isMatchingPending_def split: if_splits)
  moreover have "has_taint_key DecommissioningTaintKey (node_Taints node)"
  proof -
    have "taint_Key decommissioningTaint = DecommissioningTaintKey" by (simp add: decommissioningTaint_def)
    then show ?thesis using assms(9) unfolding has_taint_key_iff by blast
  qed
  ultimately show ?thesis
    using run_TTL_expired_branch [OF assms(1-5)] assms(6-8)
    by (simp add: TTL_expired_def taintNode_def call_defs split: option.split)
qed

theorem ttl_retry_after_taint_witness:
  "snd (run_state (TTL_Reconcile
      (ex_controller ex_claim [decommissioningTaint] [empty_pod\<lparr>pod_Phase := PodPending\<rparr>])
      (still_host (10 * Minute) '''') ''nc1'') [])
   = [] @ [EGetClaim ''nc1'', ENow, EListPods, EGetNode (nc_NodeName ex_claim), EDeleteClaim ex_claim]"
  by (rule ttl_retry_after_taint [where now = "10 * Minute" and offset = 0
        and pods = "[empty_pod\<lparr>pod_Phase := PodPending\<rparr>]" and node = "ex_node [decommissioningTaint]"])
     (simp_all add: Since_def Sub_def Minute_def maxDuration_def minDuration_def empty_pod_def)

end
