(* ===== verification/NodeClass_Controller.thy ===== *)
theory NodeClass_Controller
  imports World
begin

text \<open>
  The node class controller, \<^verbatim>\<open>pkg/controllers/nodeclass/controller.go\<close>: it keeps the
  finalizer, validates the specification, publishes the Ready condition and the hash, and brings
  the hash annotations of the class's NodeClaims up to date.

  Two imported packages are parameters. \<open>status_lib\<close> holds the functions of
  \<^verbatim>\<open>operatorpkg/status\<close> on a list of conditions (\<^verbatim>\<open>SetTrue\<close>, \<^verbatim>\<open>SetFalse\<close>,
  \<^verbatim>\<open>Get\<close> and \<^verbatim>\<open>Condition.IsTrue\<close>) and \<^verbatim>\<open>equality.Semantic.DeepEqual\<close>; \<open>hs\<close>
  is the hash of \<open>NodeClass_Api\<close>. What is relied on is \<open>status_laws\<close>: reading a condition
  after setting it gives what was set, \<^verbatim>\<open>IsTrue\<close> tests the status, and
  \<^verbatim>\<open>DeepEqual\<close> implies the same hash and conditions.

  A status patch replaces the in-memory object by the server's answer, and the code then works on
  that; the model does the same.
\<close>

section \<open>Definitions\<close>

record status_lib =
  st_SetTrue :: "Condition list \<Rightarrow> string \<Rightarrow> Condition list"
  st_SetFalse :: "Condition list \<Rightarrow> string \<Rightarrow> string \<Rightarrow> string \<Rightarrow> Condition list"
  st_GetCond :: "Condition list \<Rightarrow> string \<Rightarrow> Condition option"
  st_IsTrue :: "Condition \<Rightarrow> bool"
  st_DeepEqual :: "UpCloudNodeClass \<Rightarrow> UpCloudNodeClass \<Rightarrow> bool"

record NodeClassController =
  ncc_Client :: kube_client

definition validateSpec :: "UpCloudNodeClass \<Rightarrow> goerror option" where
  "validateSpec nodeClass =
     (if spec_Zone (cls_Spec nodeClass) = '''' then Some (ErrText ''zone is required'')
      else if spec_Plan (cls_Spec nodeClass) = '''' then Some (ErrText ''plan is required'')
      else None)"

definition handleDeletion :: "NodeClassController \<Rightarrow> UpCloudNodeClass \<Rightarrow> reconcile_outcome prog" where
  "handleDeletion r nodeClass =
     (if NodeClassFinalizer \<notin> set (cls_Finalizers nodeClass) then ret (noRequeue, None)
      else do {
        err \<leftarrow> UpdateNodeClass (ncc_Client r)
          (set_Finalizers (filter (\<lambda>s. \<not> s = NodeClassFinalizer) (cls_Finalizers nodeClass)) nodeClass);
        (case err of Some e \<Rightarrow> ret (noRequeue, Some e) | None \<Rightarrow> ret (noRequeue, None))
      })"

text \<open>The three conditions under which the loop leaves a claim alone.\<close>

definition skip_claim :: "status_lib \<Rightarrow> NodeClaim \<Rightarrow> bool" where
  "skip_claim sl claim =
     (let hasHash = (map_get (nc_Annotations claim) NodeClassHashAnnotationKey \<noteq> None) in
      if \<not> hasHash \<and> nc_ProviderID claim = '''' then True
      else if hasHash \<and> map_read (nc_Annotations claim) NodeClassHashVersionAnnotationKey = NodeClassHashVersion
      then True
      else (case st_GetCond sl (nc_Conditions claim) ConditionTypeDrifted of
              None \<Rightarrow> False | Some drifted \<Rightarrow> st_IsTrue sl drifted))"

definition stamp_hash :: "string \<Rightarrow> NodeClaim \<Rightarrow> goerror + NodeClaim" where
  "stamp_hash hash claim =
     (case map_set NodeClassHashAnnotationKey hash (ensure_map (nc_Annotations claim)) of
        Inl e \<Rightarrow> Inl e
      | Inr m1 \<Rightarrow>
     (case map_set NodeClassHashVersionAnnotationKey NodeClassHashVersion m1 of
        Inl e \<Rightarrow> Inl e
      | Inr m2 \<Rightarrow> Inr (set_Annotations m2 claim)))"

fun rebaseline_loop ::
  "status_lib \<Rightarrow> hasher \<Rightarrow> NodeClassController \<Rightarrow> UpCloudNodeClass \<Rightarrow> NodeClaim list \<Rightarrow> goerror option prog" where
  "rebaseline_loop sl hs r nodeClass [] = ret None"
| "rebaseline_loop sl hs r nodeClass (claim # claims) =
     (if skip_claim sl claim then rebaseline_loop sl hs r nodeClass claims
      else
        (case stamp_hash (Hash hs nodeClass) claim of
           Inl e \<Rightarrow> ret (Some e)
         | Inr claim' \<Rightarrow>
             do {
               err \<leftarrow> PatchClaim (ncc_Client r) claim claim';
               (case err of
                  Some e \<Rightarrow> ret (Some (Wrapf (''re-baselining nodeclaim hash '' @ nc_Name claim) e))
                | None \<Rightarrow> rebaseline_loop sl hs r nodeClass claims)
             }))"

definition rebaselineClaimHashes ::
  "status_lib \<Rightarrow> hasher \<Rightarrow> NodeClassController \<Rightarrow> UpCloudNodeClass \<Rightarrow> goerror option prog" where
  "rebaselineClaimHashes sl hs r nodeClass =
     do {
       res \<leftarrow> ListClaims (ncc_Client r) (cls_Name nodeClass);
       (case res of
          Inl e \<Rightarrow> ret (Some (Wrapf ''listing nodeclaims for hash re-baseline'' e))
        | Inr claims \<Rightarrow> rebaseline_loop sl hs r nodeClass claims)
     }"

text \<open>The end of \<^verbatim>\<open>Reconcile\<close>, on the object as the last patch left it.\<close>

definition Reconcile_claims ::
  "status_lib \<Rightarrow> hasher \<Rightarrow> NodeClassController \<Rightarrow> UpCloudNodeClass \<Rightarrow> reconcile_outcome prog" where
  "Reconcile_claims sl hs r nodeClass =
     do {
       err \<leftarrow> rebaselineClaimHashes sl hs r nodeClass;
       (case err of
          Some e \<Rightarrow> ret (noRequeue, Some e)
        | None \<Rightarrow> ret (requeueAfter (5 * Minute), None))
     }"

definition ready_class :: "status_lib \<Rightarrow> hasher \<Rightarrow> UpCloudNodeClass \<Rightarrow> UpCloudNodeClass" where
  "ready_class sl hs nodeClass =
     (let nc1 = SetConditions nodeClass (st_SetTrue sl (GetConditions nodeClass) ConditionReady)
      in set_StatusHash (Hash hs nc1) nc1)"

definition invalid_class :: "status_lib \<Rightarrow> goerror \<Rightarrow> UpCloudNodeClass \<Rightarrow> UpCloudNodeClass" where
  "invalid_class sl err nodeClass =
     SetConditions nodeClass
       (st_SetFalse sl (GetConditions nodeClass) ConditionReady ''ValidationFailed''
          (''Validation failed: '' @ Error err))"

definition NC_Reconcile ::
  "status_lib \<Rightarrow> hasher \<Rightarrow> NodeClassController \<Rightarrow> string \<Rightarrow> reconcile_outcome prog" where
  "NC_Reconcile sl hs r name =
     do {
       res \<leftarrow> GetNodeClass (ncc_Client r) name;
       (case res of
          Inl err \<Rightarrow> (if IsNotFound err then ret (noRequeue, None) else ret (noRequeue, Some err))
        | Inr nodeClass \<Rightarrow>
            if \<not> IsZero (om_DeletionTimestamp (cls_Meta nodeClass)) then handleDeletion r nodeClass
            else if NodeClassFinalizer \<notin> set (cls_Finalizers nodeClass) then
              do {
                err \<leftarrow> UpdateNodeClass (ncc_Client r)
                  (set_Finalizers (cls_Finalizers nodeClass @ [NodeClassFinalizer]) nodeClass);
                (case err of
                   Some e \<Rightarrow> ret (noRequeue, Some e)
                 | None \<Rightarrow> ret (requeueAfter Minute, None))
              }
            else
              (case validateSpec nodeClass of
                 Some err \<Rightarrow>
                   do {
                     res \<leftarrow> PatchStatus (ncc_Client r) nodeClass (invalid_class sl err nodeClass);
                     (case res of
                        Inl e \<Rightarrow> ret (requeueNow, None)
                      | Inr _ \<Rightarrow> ret (requeueAfter (30 * Second), None))
                   }
               | None \<Rightarrow>
                   (let updated = ready_class sl hs nodeClass in
                    if \<not> st_DeepEqual sl nodeClass updated then
                      do {
                        res \<leftarrow> PatchStatus (ncc_Client r) nodeClass updated;
                        (case res of
                           Inl e \<Rightarrow>
                             if IsConflict e then ret (requeueNow, None)
                             else ret (requeueAfter (30 * Second),
                                       Some (Wrapf ''failed to patch nodeclass status'' e))
                         | Inr server \<Rightarrow> Reconcile_claims sl hs r server)
                      }
                    else Reconcile_claims sl hs r updated)))
     }"

definition nodeclass_registration :: registration where
  "nodeclass_registration =
     \<lparr>reg_For = UpCloudNodeClass_object, reg_MaxConcurrentReconciles = 5,
      reg_EventFilters = [GenerationChangedPredicate]\<rparr>"

definition NC_SetupWithManager :: "manager \<Rightarrow> NodeClassController \<Rightarrow> goerror option prog" where
  "NC_SetupWithManager mgr r = call (ESetupNodeClass nodeclass_registration) (\<lambda>h. mgr h nodeclass_registration)"

section \<open>What the imported packages promise\<close>

definition status_laws :: "status_lib \<Rightarrow> bool" where
  "status_laws sl \<longleftrightarrow>
     (\<forall>cs t reason msg. \<exists>c. st_GetCond sl (st_SetFalse sl cs t reason msg) t = Some c
        \<and> cond_Status c = ConditionFalse \<and> cond_Reason c = reason \<and> cond_Message c = msg)
     \<and> (\<forall>cs t. \<exists>c. st_GetCond sl (st_SetTrue sl cs t) t = Some c \<and> cond_Status c = ConditionTrue)
     \<and> (\<forall>c. st_IsTrue sl c \<longleftrightarrow> cond_Status c = ConditionTrue)
     \<and> (\<forall>u v. st_DeepEqual sl u v \<longrightarrow> cls_Status u = cls_Status v)"

text \<open>A plain implementation of the package, which satisfies the laws.\<close>

definition plain_set :: "Condition \<Rightarrow> Condition list \<Rightarrow> Condition list" where
  "plain_set c cs = c # filter (\<lambda>d. cond_Type d \<noteq> cond_Type c) cs"

definition plain_status :: status_lib where
  "plain_status =
     \<lparr>st_SetTrue = \<lambda>cs t. plain_set \<lparr>cond_Type = t, cond_Status = ConditionTrue, cond_Reason = t, cond_Message = ''''\<rparr> cs,
      st_SetFalse = \<lambda>cs t reason msg. plain_set \<lparr>cond_Type = t, cond_Status = ConditionFalse, cond_Reason = reason, cond_Message = msg\<rparr> cs,
      st_GetCond = \<lambda>cs t. find (\<lambda>c. cond_Type c = t) cs,
      st_IsTrue = \<lambda>c. cond_Status c = ConditionTrue,
      st_DeepEqual = (=)\<rparr>"

lemma plain_status_laws: "status_laws plain_status"
  by (simp add: status_laws_def plain_status_def plain_set_def)

section \<open>Stamping a claim\<close>

definition stamped_claim :: "string \<Rightarrow> NodeClaim \<Rightarrow> NodeClaim" where
  "stamped_claim hash claim =
     set_Annotations
       (Some (AList.update NodeClassHashVersionAnnotationKey NodeClassHashVersion
                (AList.update NodeClassHashAnnotationKey hash (map_entries (nc_Annotations claim))))) claim"

lemma stamp_hash_eq: "stamp_hash hash claim = Inr (stamped_claim hash claim)"
  by (cases "nc_Annotations claim") (simp_all add: stamp_hash_def stamped_claim_def)

lemma stamped_claim_annotations:
  "map_get (nc_Annotations (stamped_claim hash claim)) =
     (map_get (nc_Annotations claim))
       (NodeClassHashAnnotationKey \<mapsto> hash, NodeClassHashVersionAnnotationKey \<mapsto> NodeClassHashVersion)"
  by (simp add: stamped_claim_def fun_eq_iff update_conv' map_get_eq)

lemma skip_claim_iff:
  "skip_claim sl c \<longleftrightarrow>
     (map_get (nc_Annotations c) NodeClassHashAnnotationKey = None \<and> nc_ProviderID c = '''')
     \<or> (map_get (nc_Annotations c) NodeClassHashAnnotationKey \<noteq> None
        \<and> map_read (nc_Annotations c) NodeClassHashVersionAnnotationKey = NodeClassHashVersion)
     \<or> (\<exists>d. st_GetCond sl (nc_Conditions c) ConditionTypeDrifted = Some d \<and> st_IsTrue sl d)"
  by (cases "map_get (nc_Annotations c) NodeClassHashAnnotationKey"; cases "nc_ProviderID c = ''''";
      cases "st_GetCond sl (nc_Conditions c) ConditionTypeDrifted")
     (simp_all add: skip_claim_def Let_def)

lemma stamped_claim_skipped: "skip_claim sl (stamped_claim hash claim)"
proof -
  have "map_get (nc_Annotations (stamped_claim hash claim)) NodeClassHashAnnotationKey = Some hash"
    and "map_get (nc_Annotations (stamped_claim hash claim)) NodeClassHashVersionAnnotationKey = Some NodeClassHashVersion"
    by (simp_all add: stamped_claim_annotations)
  then show ?thesis by (simp add: skip_claim_def Let_def map_read_def)
qed

section \<open>Runs of the loop\<close>

text \<open>The patch events of a list of claims.\<close>

definition patches :: "status_lib \<Rightarrow> string \<Rightarrow> NodeClaim list \<Rightarrow> history" where
  "patches sl hash claims =
     map (\<lambda>c. EPatchClaim c (stamped_claim hash c)) (filter (\<lambda>c. \<not> skip_claim sl c) claims)"

lemma patches_simps [simp]:
  "patches sl hash [] = []"
  "patches sl hash (c # cs) =
     (if skip_claim sl c then patches sl hash cs else EPatchClaim c (stamped_claim hash c) # patches sl hash cs)"
  "patches sl hash (cs @ cs') = patches sl hash cs @ patches sl hash cs'"
  by (simp_all add: patches_def)

lemma rebaseline_loop_Cons:
  "run_state (rebaseline_loop sl hs r u (c # cs)) h =
     (if skip_claim sl c then run_state (rebaseline_loop sl hs r u cs) h
      else (case k_PatchClaim (ncc_Client r) h c (stamped_claim (Hash hs u) c) of
              Some e \<Rightarrow> (Some (Wrapf (''re-baselining nodeclaim hash '' @ nc_Name c) e),
                         h @ [EPatchClaim c (stamped_claim (Hash hs u) c)])
            | None \<Rightarrow> run_state (rebaseline_loop sl hs r u cs) (h @ [EPatchClaim c (stamped_claim (Hash hs u) c)])))"
  by (simp add: stamp_hash_eq call_defs split: option.split)

lemma rebaseline_loop_success:
  "fst (run_state (rebaseline_loop sl hs r u claims) h) = None \<Longrightarrow>
     snd (run_state (rebaseline_loop sl hs r u claims) h) = h @ patches sl (Hash hs u) claims"
proof (induction claims arbitrary: h)
  case (Cons c cs)
  then show ?case
    by (cases "skip_claim sl c"; cases "k_PatchClaim (ncc_Client r) h c (stamped_claim (Hash hs u) c)")
       (simp_all add: rebaseline_loop_Cons del: rebaseline_loop.simps)
qed simp

lemma rebaseline_loop_error:
  "fst (run_state (rebaseline_loop sl hs r u claims) h) = Some e \<Longrightarrow>
     \<exists>ds c rest e'. claims = ds @ c # rest \<and> \<not> skip_claim sl c
       \<and> snd (run_state (rebaseline_loop sl hs r u claims) h) = h @ patches sl (Hash hs u) (ds @ [c])
       \<and> e = Wrapf (''re-baselining nodeclaim hash '' @ nc_Name c) e'"
proof (induction claims arbitrary: h)
  case (Cons c cs)
  let ?ev = "EPatchClaim c (stamped_claim (Hash hs u) c)"
  show ?case
  proof (cases "\<not> skip_claim sl c \<and> k_PatchClaim (ncc_Client r) h c (stamped_claim (Hash hs u) c) \<noteq> None")
    case True
    then have "\<exists>e'. e = Wrapf (''re-baselining nodeclaim hash '' @ nc_Name c) e'
        \<and> snd (run_state (rebaseline_loop sl hs r u (c # cs)) h) = h @ [?ev]"
      using Cons.prems by (auto simp: rebaseline_loop_Cons simp del: rebaseline_loop.simps)
    then show ?thesis using True by (intro exI [of _ "[]"] exI [of _ c] exI [of _ cs]) simp
  next
    case False
    define h' where "h' = (if skip_claim sl c then h else h @ [?ev])"
    have step: "run_state (rebaseline_loop sl hs r u (c # cs)) h = run_state (rebaseline_loop sl hs r u cs) h'"
      using False by (auto simp: rebaseline_loop_Cons h'_def simp del: rebaseline_loop.simps)
    obtain ds d rest e' where "cs = ds @ d # rest" "\<not> skip_claim sl d"
      "snd (run_state (rebaseline_loop sl hs r u cs) h') = h' @ patches sl (Hash hs u) (ds @ [d])"
      "e = Wrapf (''re-baselining nodeclaim hash '' @ nc_Name d) e'"
      using Cons.IH [of h'] Cons.prems unfolding step by blast
    then show ?thesis unfolding step
      by (intro exI [of _ "c # ds"] exI [of _ d] exI [of _ rest] exI [of _ e']) (simp add: h'_def)
  qed
qed simp

lemma rebaseline_loop_all_ok:
  assumes "\<And>h c c'. k_PatchClaim (ncc_Client r) h c c' = None"
  shows "run_state (rebaseline_loop sl hs r u claims) h = (None, h @ patches sl (Hash hs u) claims)"
  using assms by (induction claims arbitrary: h) (simp_all add: rebaseline_loop_Cons del: rebaseline_loop.simps(2))

text \<open>The events a pass over the claims can make.\<close>

definition stamps_one_of :: "status_lib \<Rightarrow> string \<Rightarrow> NodeClaim list \<Rightarrow> event \<Rightarrow> bool" where
  "stamps_one_of sl hash claims e \<longleftrightarrow>
     (\<exists>c \<in> set claims. \<not> skip_claim sl c \<and> e = EPatchClaim c (stamped_claim hash c))"

lemma emits_rebaseline_loop: "emits (stamps_one_of sl (Hash hs u) claims) (rebaseline_loop sl hs r u claims)"
proof (induction claims)
  case (Cons c cs)
  have "emits (stamps_one_of sl (Hash hs u) (c # cs)) (rebaseline_loop sl hs r u cs)"
    by (rule emits_mono [OF Cons.IH]) (auto simp: stamps_one_of_def)
  moreover have "\<not> skip_claim sl c \<Longrightarrow>
      stamps_one_of sl (Hash hs u) (c # cs) (EPatchClaim c (stamped_claim (Hash hs u) c))"
    by (simp add: stamps_one_of_def)
  ultimately show ?case by (auto simp: stamp_hash_eq call_defs intro!: emits_rules)
qed (simp add: emits_return)

interpretation nodeclass: reconciler
  "NC_Reconcile sl hs r" "k_GetNodeClass (ncc_Client r)" EGetNodeClass for sl hs r
proof
  fix h n e
  assume "k_GetNodeClass (ncc_Client r) h n = Inl e"
  then show "run_state (NC_Reconcile sl hs r n) h = ((noRequeue, IgnoreNotFound e), h @ [EGetNodeClass n])"
    by (simp add: NC_Reconcile_def call_defs IgnoreNotFound_def)
next
  fix h n
  have "emits (\<lambda>_. True) (rebaseline_loop sl hs r u claims)" for u claims
    by (rule emits_mono [OF emits_rebaseline_loop]) simp
  then show "\<exists>evs. snd (run_state (NC_Reconcile sl hs r n) h) = h @ EGetNodeClass n # evs"
    unfolding NC_Reconcile_def GetNodeClass_def
    by (intro emits_True_call_first [where P = "\<lambda>_. True"])
       (auto simp: handleDeletion_def Reconcile_claims_def rebaselineClaimHashes_def call_defs Let_def
             intro!: emits_rules)
qed

section \<open>Runs of the handler\<close>

lemma Reconcile_claims_run:
  "run_state (Reconcile_claims sl hs r u) h =
     (case k_ListClaims (ncc_Client r) h (cls_Name u) of
        Inl e \<Rightarrow> ((noRequeue, Some (Wrapf ''listing nodeclaims for hash re-baseline'' e)), h @ [EListClaims (cls_Name u)])
      | Inr claims \<Rightarrow>
          (case run_state (rebaseline_loop sl hs r u claims) (h @ [EListClaims (cls_Name u)]) of
             (Some e, h') \<Rightarrow> ((noRequeue, Some e), h')
           | (None, h') \<Rightarrow> ((requeueAfter (5 * Minute), None), h')))"
  by (simp add: Reconcile_claims_def rebaselineClaimHashes_def call_defs split: sum.split option.split prod.split)

text \<open>A class the handler works on: fetched, not being deleted, with the finalizer.\<close>

definition active :: "UpCloudNodeClass \<Rightarrow> bool" where
  "active u \<longleftrightarrow> IsZero (om_DeletionTimestamp (cls_Meta u)) \<and> NodeClassFinalizer \<in> set (cls_Finalizers u)"

lemma run_deleting:
  assumes "k_GetNodeClass (ncc_Client r) h n = Inr u" and "\<not> IsZero (om_DeletionTimestamp (cls_Meta u))"
  shows "run_state (NC_Reconcile sl hs r n) h = run_state (handleDeletion r u) (h @ [EGetNodeClass n])"
  using assms by (simp add: NC_Reconcile_def call_defs)

lemma run_no_finalizer:
  assumes "k_GetNodeClass (ncc_Client r) h n = Inr u" and "IsZero (om_DeletionTimestamp (cls_Meta u))"
    and "NodeClassFinalizer \<notin> set (cls_Finalizers u)"
  shows "run_state (NC_Reconcile sl hs r n) h =
    (let u' = set_Finalizers (cls_Finalizers u @ [NodeClassFinalizer]) u in
     (case k_UpdateNodeClass (ncc_Client r) (h @ [EGetNodeClass n]) u' of
        Some e \<Rightarrow> (noRequeue, Some e) | None \<Rightarrow> (requeueAfter Minute, None),
      h @ [EGetNodeClass n, EUpdateNodeClass u']))"
  using assms by (simp add: NC_Reconcile_def call_defs Let_def split: option.split)

lemma run_invalid:
  assumes "k_GetNodeClass (ncc_Client r) h n = Inr u" and "active u" and "validateSpec u = Some err"
  shows "run_state (NC_Reconcile sl hs r n) h =
    (case k_PatchStatus (ncc_Client r) (h @ [EGetNodeClass n]) u (invalid_class sl err u) of
       Inl e \<Rightarrow> (requeueNow, None) | Inr _ \<Rightarrow> (requeueAfter (30 * Second), None),
     h @ [EGetNodeClass n, EPatchStatus u (invalid_class sl err u)])"
  using assms by (simp add: NC_Reconcile_def call_defs active_def split: sum.split)

lemma run_valid:
  assumes "k_GetNodeClass (ncc_Client r) h n = Inr u" and "active u" and "validateSpec u = None"
  shows "run_state (NC_Reconcile sl hs r n) h =
    (if st_DeepEqual sl u (ready_class sl hs u)
     then run_state (Reconcile_claims sl hs r (ready_class sl hs u)) (h @ [EGetNodeClass n])
     else (case k_PatchStatus (ncc_Client r) (h @ [EGetNodeClass n]) u (ready_class sl hs u) of
             Inl e \<Rightarrow> (if IsConflict e then (requeueNow, None)
                      else (requeueAfter (30 * Second), Some (Wrapf ''failed to patch nodeclass status'' e)),
                      h @ [EGetNodeClass n, EPatchStatus u (ready_class sl hs u)])
           | Inr s \<Rightarrow> run_state (Reconcile_claims sl hs r s) (h @ [EGetNodeClass n, EPatchStatus u (ready_class sl hs u)])))"
  using assms by (simp add: NC_Reconcile_def call_defs active_def Let_def split: sum.split)

lemma ready_class_simps [simp]:
  "cls_Spec (ready_class sl hs u) = cls_Spec u" "cls_Meta (ready_class sl hs u) = cls_Meta u"
  "ncs_Hash (cls_Status (ready_class sl hs u)) = Hash hs u"
  "GetConditions (ready_class sl hs u) = st_SetTrue sl (GetConditions u) ConditionReady"
  using Hash_spec_only [of "SetConditions u cs" u hs for cs]
  by (simp_all add: ready_class_def Let_def)

lemma Hash_ready_class: "Hash hs (ready_class sl hs u) = Hash hs u"
  by (rule Hash_spec_only) simp

lemma Reconcile_claims_events:
  obtains evs where "snd (run_state (Reconcile_claims sl hs r u) h) = h @ EListClaims (cls_Name u) # evs"
    and "\<forall>e \<in> set evs. \<exists>claims. k_ListClaims (ncc_Client r) h (cls_Name u) = Inr claims
           \<and> stamps_one_of sl (Hash hs u) claims e"
proof (cases "k_ListClaims (ncc_Client r) h (cls_Name u)")
  case (Inl e)
  then show ?thesis using that [of "[]"] by (simp add: Reconcile_claims_run)
next
  case (Inr claims)
  obtain evs where "snd (run_state (rebaseline_loop sl hs r u claims) (h @ [EListClaims (cls_Name u)]))
      = (h @ [EListClaims (cls_Name u)]) @ evs" and "list_all (stamps_one_of sl (Hash hs u) claims) evs"
    using emits_rebaseline_loop by (rule emitsE)
  moreover have "snd (run_state (Reconcile_claims sl hs r u) h)
      = snd (run_state (rebaseline_loop sl hs r u claims) (h @ [EListClaims (cls_Name u)]))"
    using Inr by (simp add: Reconcile_claims_run split: prod.split option.split)
  ultimately show ?thesis using that [of evs] Inr by (simp add: list_all_iff)
qed

lemma validateSpec_None: "validateSpec u = None \<longleftrightarrow> spec_Zone (cls_Spec u) \<noteq> '''' \<and> spec_Plan (cls_Spec u) \<noteq> ''''"
  by (simp add: validateSpec_def)

lemma handleDeletion_run:
  "run_state (handleDeletion r u) h =
     (if NodeClassFinalizer \<notin> set (cls_Finalizers u) then ((noRequeue, None), h)
      else (let u' = set_Finalizers (filter (\<lambda>s. s \<noteq> NodeClassFinalizer) (cls_Finalizers u)) u
            in ((noRequeue, k_UpdateNodeClass (ncc_Client r) h u'), h @ [EUpdateNodeClass u'])))"
  by (simp add: handleDeletion_def call_defs Let_def split: option.split)

lemma claim_write_active:
  assumes u: "k_GetNodeClass (ncc_Client r) h n = Inr u"
    and snd: "snd (run_state (NC_Reconcile sl hs r n) h) = h @ evs" and "EPatchClaim old new \<in> set evs"
  shows "active u \<and> validateSpec u = None"
proof -
  have del: "IsZero (om_DeletionTimestamp (cls_Meta u))"
  proof (rule ccontr)
    assume "\<not> IsZero (om_DeletionTimestamp (cls_Meta u))"
    from run_deleting [OF u this, of sl hs] show False
      using snd assms(3)
      by (cases "NodeClassFinalizer \<in> set (cls_Finalizers u)") (auto simp: handleDeletion_run Let_def)
  qed
  moreover have "NodeClassFinalizer \<in> set (cls_Finalizers u)"
  proof (rule ccontr)
    assume "NodeClassFinalizer \<notin> set (cls_Finalizers u)"
    from run_no_finalizer [OF u del this, of sl hs] show False
      using snd assms(3) by (auto simp: Let_def)
  qed
  ultimately have act: "active u" by (simp add: active_def)
  moreover have "validateSpec u = None"
    using snd assms(3) run_invalid [OF u act, of _ sl hs] by (cases "validateSpec u") auto
  ultimately show ?thesis by blast
qed

text \<open>
  A reconcile that writes a claim went all the way: the class \<open>v\<close> whose claims it listed is the
  fetched one with the new status, or what the server answered to the status patch.
\<close>

lemma claim_write_origin:
  assumes "run_state (NC_Reconcile sl hs r n) h = (res, h @ evs)" and "EPatchClaim old new \<in> set evs"
  obtains u v h' claims where "k_GetNodeClass (ncc_Client r) h n = Inr u" and "active u" and "validateSpec u = None"
    and "v = ready_class sl hs u \<or>
      k_PatchStatus (ncc_Client r) (h @ [EGetNodeClass n]) u (ready_class sl hs u) = Inr v"
    and "k_ListClaims (ncc_Client r) h' (cls_Name v) = Inr claims"
    and "stamps_one_of sl (Hash hs v) claims (EPatchClaim old new)"
proof -
  note result = that
  have snd: "snd (run_state (NC_Reconcile sl hs r n) h) = h @ evs" using assms(1) by simp
  obtain u where u: "k_GetNodeClass (ncc_Client r) h n = Inr u"
    using snd assms(2) nodeclass.fetch_failed [of r h n] by (cases "k_GetNodeClass (ncc_Client r) h n") auto
  have act: "active u" and val: "validateSpec u = None" using claim_write_active [OF u snd assms(2)] by simp_all
  have main: thesis if v: "v = ready_class sl hs u \<or>
        k_PatchStatus (ncc_Client r) (h @ [EGetNodeClass n]) u (ready_class sl hs u) = Inr v"
      and run: "h @ evs = snd (run_state (Reconcile_claims sl hs r v) (h @ pre))"
      and pre: "EPatchClaim old new \<notin> set pre" for v pre
  proof -
    obtain evs' where evs': "snd (run_state (Reconcile_claims sl hs r v) (h @ pre)) = (h @ pre) @ EListClaims (cls_Name v) # evs'"
      and st: "\<forall>e \<in> set evs'. \<exists>claims. k_ListClaims (ncc_Client r) (h @ pre) (cls_Name v) = Inr claims
           \<and> stamps_one_of sl (Hash hs v) claims e"
      by (rule Reconcile_claims_events)
    have "evs = pre @ EListClaims (cls_Name v) # evs'" using run evs' by simp
    then have "EPatchClaim old new \<in> set evs'" using assms(2) pre by auto
    then show thesis using st result u act val v by blast
  qed
  show thesis
  proof (cases "st_DeepEqual sl u (ready_class sl hs u)")
    case True
    then show thesis
      using main [of "ready_class sl hs u" "[EGetNodeClass n]"] snd run_valid [OF u act val, of sl hs] by simp
  next
    case False
    show thesis
    proof (cases "k_PatchStatus (ncc_Client r) (h @ [EGetNodeClass n]) u (ready_class sl hs u)")
      case (Inl e)
      then show thesis using snd assms(2) False run_valid [OF u act val, of sl hs] by auto
    next
      case (Inr v)
      then show thesis
        using main [of v "[EGetNodeClass n, EPatchStatus u (ready_class sl hs u)]"] snd False
          run_valid [OF u act val, of sl hs] by simp
    qed
  qed
qed

section \<open>Examples\<close>

definition ex_class :: UpCloudNodeClass where
  "ex_class = empty_class
     \<lparr>cls_Meta := zeroMeta\<lparr>om_Name := ''default'', om_Finalizers := [NodeClassFinalizer]\<rparr>,
      cls_Spec := empty_spec\<lparr>spec_Zone := ''fi-hel1'', spec_Plan := ''2xCPU-4GB''\<rparr>\<rparr>"

text \<open>A launched claim stamped by the first version of the hash.\<close>

definition ex_old_claim :: NodeClaim where
  "ex_old_claim = empty_claim
     \<lparr>nc_Meta := zeroMeta\<lparr>om_Name := ''claim-1'', om_Annotations :=
        Some [(NodeClassHashAnnotationKey, ''00ff''), (NodeClassHashVersionAnnotationKey, ''v1'')]\<rparr>,
      nc_ProviderID := ''upcloud:////u''\<rparr>"

definition ex_kube :: kube_client where
  "ex_kube = down_kube
     \<lparr>k_GetNodeClass := \<lambda>_ _. Inr ex_class, k_PatchStatus := \<lambda>_ _ new. Inr new,
      k_ListClaims := \<lambda>_ _. Inr [ex_old_claim], k_PatchClaim := \<lambda>_ _ _. None,
      k_UpdateNodeClass := \<lambda>_ _. None\<rparr>"

definition ex_controller :: NodeClassController where
  "ex_controller = \<lparr>ncc_Client = ex_kube\<rparr>"

definition ex_hasher :: hasher where
  "ex_hasher s = Inr 7"

lemmas ex_nodeclass_defs = ex_class_def ex_old_claim_def ex_kube_def ex_controller_def fixture_defs

lemma ex_old_claim_not_skipped: "\<not> skip_claim plain_status ex_old_claim"
  by (simp add: skip_claim_def ex_old_claim_def empty_claim_def zeroMeta_def Let_def map_read_def
      plain_status_def NodeClassHashVersion_def)

lemma ex_ready_differs: "ex_class \<noteq> ready_class plain_status ex_hasher ex_class"
proof
  assume "ex_class = ready_class plain_status ex_hasher ex_class"
  then have "ncs_Hash (cls_Status ex_class) = Hash ex_hasher ex_class" by (metis ready_class_simps(3))
  moreover have "Hash ex_hasher ex_class \<noteq> ''''" by (simp add: Hash_nonempty_iff ex_hasher_def)
  ultimately show False by (simp add: ex_class_def empty_class_def)
qed

lemma ex_active: "active ex_class" "validateSpec ex_class = None"
  by (simp_all add: active_def ex_class_def empty_class_def zeroMeta_def IsZero_def validateSpec_def)

lemma ex_nodeclass_run:
  "run_state (NC_Reconcile plain_status ex_hasher ex_controller ''default'') [] =
     ((requeueAfter (5 * Minute), None),
      [] @ [EGetNodeClass ''default'', EPatchStatus ex_class (ready_class plain_status ex_hasher ex_class),
       EListClaims ''default'',
       EPatchClaim ex_old_claim (stamped_claim (Hash ex_hasher ex_class) ex_old_claim)])"
proof -
  have "k_GetNodeClass (ncc_Client ex_controller) [] ''default'' = Inr ex_class"
    by (simp add: ex_controller_def ex_kube_def)
  moreover have "st_DeepEqual plain_status u v \<longleftrightarrow> u = v" for u v by (simp add: plain_status_def)
  moreover have "cls_Name ex_class = ''default''" by (simp add: ex_class_def)
  moreover have "k_PatchStatus (ncc_Client ex_controller) h u v = Inr v"
    and "k_ListClaims (ncc_Client ex_controller) h n = Inr [ex_old_claim]"
    and "k_PatchClaim (ncc_Client ex_controller) h c c' = None" for h u v n c c'
    by (simp_all add: ex_controller_def ex_kube_def)
  ultimately show ?thesis
    using run_valid [OF _ ex_active, of ex_controller "[]" "''default''" plain_status ex_hasher]
      ex_ready_differs rebaseline_loop_all_ok [of ex_controller] ex_old_claim_not_skipped
    by (simp add: Reconcile_claims_run Hash_ready_class del: rebaseline_loop.simps)
qed

section \<open>Properties\<close>

text \<open>
  C2. The controller rewrites a NodeClaim only where it should: the class exists, is not being
  deleted, has the finalizer and names a zone and a plan; the claim belongs to the class's listed
  claims, is launched or already carries a hash, does not carry a hash of the current version
  and is not evaluated as drifted. Only its two hash annotations change: they become the live hash
  of the class and the current version.
\<close>

theorem claim_rewrite_safe:
  assumes "status_laws sl"
    and "run_state (NC_Reconcile sl hs r n) h = (res, h @ evs)" and "EPatchClaim old new \<in> set evs"
  shows "\<exists>u v h' claims. k_GetNodeClass (ncc_Client r) h n = Inr u
    \<and> IsZero (om_DeletionTimestamp (cls_Meta u)) \<and> NodeClassFinalizer \<in> set (cls_Finalizers u)
    \<and> spec_Zone (cls_Spec u) \<noteq> '''' \<and> spec_Plan (cls_Spec u) \<noteq> ''''
    \<and> (v = ready_class sl hs u
       \<or> k_PatchStatus (ncc_Client r) (h @ [EGetNodeClass n]) u (ready_class sl hs u) = Inr v)
    \<and> k_ListClaims (ncc_Client r) h' (cls_Name v) = Inr claims \<and> old \<in> set claims
    \<and> (nc_ProviderID old \<noteq> '''' \<or> map_get (nc_Annotations old) NodeClassHashAnnotationKey \<noteq> None)
    \<and> (map_get (nc_Annotations old) NodeClassHashAnnotationKey = None
       \<or> map_get (nc_Annotations old) NodeClassHashVersionAnnotationKey \<noteq> Some NodeClassHashVersion)
    \<and> (\<forall>c. st_GetCond sl (nc_Conditions old) ConditionTypeDrifted = Some c \<longrightarrow> cond_Status c \<noteq> ConditionTrue)
    \<and> new = set_Annotations (nc_Annotations new) old
    \<and> map_get (nc_Annotations new) = (map_get (nc_Annotations old))
        (NodeClassHashAnnotationKey \<mapsto> Hash hs v, NodeClassHashVersionAnnotationKey \<mapsto> NodeClassHashVersion)"
proof -
  obtain u v h' claims where o: "k_GetNodeClass (ncc_Client r) h n = Inr u" "active u" "validateSpec u = None"
    "v = ready_class sl hs u \<or> k_PatchStatus (ncc_Client r) (h @ [EGetNodeClass n]) u (ready_class sl hs u) = Inr v"
    "k_ListClaims (ncc_Client r) h' (cls_Name v) = Inr claims"
    "stamps_one_of sl (Hash hs v) claims (EPatchClaim old new)"
    by (rule claim_write_origin [OF assms(2,3)])
  then have old: "old \<in> set claims" "\<not> skip_claim sl old" and new: "new = stamped_claim (Hash hs v) old"
    by (auto simp: stamps_one_of_def)
  have "nc_ProviderID old \<noteq> '''' \<or> map_get (nc_Annotations old) NodeClassHashAnnotationKey \<noteq> None"
    and "map_get (nc_Annotations old) NodeClassHashAnnotationKey = None
       \<or> map_get (nc_Annotations old) NodeClassHashVersionAnnotationKey \<noteq> Some NodeClassHashVersion"
    using old(2) by (auto simp: skip_claim_iff map_read_def)
  moreover have "\<forall>c. st_GetCond sl (nc_Conditions old) ConditionTypeDrifted = Some c \<longrightarrow> cond_Status c \<noteq> ConditionTrue"
    using old(2) assms(1) by (auto simp: skip_claim_iff status_laws_def)
  moreover have "new = set_Annotations (nc_Annotations new) old"
    unfolding new stamped_claim_def by simp
  ultimately show ?thesis
    using o old stamped_claim_annotations [of "Hash hs v" old]
    unfolding active_def validateSpec_None new by blast
qed

theorem claim_rewrite_safe_witness:
  "map_get (nc_Annotations (stamped_claim (Hash ex_hasher ex_class) ex_old_claim)) NodeClassHashVersionAnnotationKey
     = Some NodeClassHashVersion"
  using claim_rewrite_safe [OF plain_status_laws ex_nodeclass_run,
      of ex_old_claim "stamped_claim (Hash ex_hasher ex_class) ex_old_claim"] by auto




definition bad_class :: UpCloudNodeClass where
  "bad_class = ex_class\<lparr>cls_Spec := empty_spec\<lparr>spec_Zone := ''fi-hel1''\<rparr>\<rparr>"


text \<open>
  A valid class is published as Ready with its live hash: when the handler goes on to the
  claims, the status it wrote, or the one it found already in place, has Ready True and the
  hash of the specification; a conflicting write is retried at once without touching the claims.
\<close>

theorem valid_class_published:
  assumes "status_laws sl" and "k_GetNodeClass (ncc_Client r) h n = Inr u"
    and "IsZero (om_DeletionTimestamp (cls_Meta u))" and "NodeClassFinalizer \<in> set (cls_Finalizers u)"
    and "spec_Zone (cls_Spec u) \<noteq> ''''" and "spec_Plan (cls_Spec u) \<noteq> ''''"
  shows "\<exists>st c. st_GetCond sl (ncs_Conditions st) ConditionReady = Some c \<and> cond_Status c = ConditionTrue
    \<and> ncs_Hash st = Hash hs u
    \<and> ((cls_Status u = st \<and> run_state (NC_Reconcile sl hs r n) h =
          run_state (Reconcile_claims sl hs r (u\<lparr>cls_Status := st\<rparr>)) (h @ [EGetNodeClass n]))
       \<or> (case k_PatchStatus (ncc_Client r) (h @ [EGetNodeClass n]) u (u\<lparr>cls_Status := st\<rparr>) of
            Inr v \<Rightarrow> run_state (NC_Reconcile sl hs r n) h =
              run_state (Reconcile_claims sl hs r v) (h @ [EGetNodeClass n, EPatchStatus u (u\<lparr>cls_Status := st\<rparr>)])
          | Inl e \<Rightarrow> snd (run_state (NC_Reconcile sl hs r n) h) = h @ [EGetNodeClass n, EPatchStatus u (u\<lparr>cls_Status := st\<rparr>)]
              \<and> (IsConflict e \<longrightarrow> fst (run_state (NC_Reconcile sl hs r n) h) = (requeueNow, None))))"
proof -
  let ?v = "ready_class sl hs u"
  have v: "u\<lparr>cls_Status := cls_Status ?v\<rparr> = ?v"
    by (simp add: ready_class_def Let_def SetConditions_def set_StatusHash_def)
  obtain c where "st_GetCond sl (GetConditions ?v) ConditionReady = Some c" "cond_Status c = ConditionTrue"
    using assms(1) unfolding status_laws_def ready_class_simps(4) by metis
  moreover have "st_DeepEqual sl u ?v \<longrightarrow> cls_Status u = cls_Status ?v"
    using assms(1) by (simp add: status_laws_def)
  moreover have "active u" "validateSpec u = None" using assms(3-6) by (simp_all add: active_def validateSpec_None)
  ultimately show ?thesis
    using run_valid [OF assms(2), of sl hs]
    by (intro exI [of _ "cls_Status ?v"] exI [of _ c], unfold v, cases "st_DeepEqual sl u ?v")
       (simp_all split: sum.split)
qed

theorem valid_class_published_witness:
  "\<exists>(st :: UpCloudNodeClassStatus) c. st_GetCond plain_status (ncs_Conditions st) ConditionReady = Some c
     \<and> cond_Status c = ConditionTrue \<and> ncs_Hash st = Hash ex_hasher ex_class"
proof -
  have get: "k_GetNodeClass (ncc_Client ex_controller) [] ''default'' = Inr ex_class"
    by (simp add: ex_controller_def ex_kube_def)
  have ok: "IsZero (om_DeletionTimestamp (cls_Meta ex_class))" "NodeClassFinalizer \<in> set (cls_Finalizers ex_class)"
    "spec_Zone (cls_Spec ex_class) \<noteq> ''''" "spec_Plan (cls_Spec ex_class) \<noteq> ''''"
    using ex_active unfolding active_def validateSpec_None by blast+
  show ?thesis
    using valid_class_published [OF plain_status_laws get ok, of ex_hasher] by fast
qed

text \<open>
  A class being deleted is released and nothing else: the controller removes its own
  finalizer, keeping every other one in order, in a single update, or does nothing where the
  finalizer is gone already; no status or claim is written, and a failed update is reported.
\<close>

theorem deletion_releases:
  assumes "k_GetNodeClass (ncc_Client r) h n = Inr u" and "\<not> IsZero (om_DeletionTimestamp (cls_Meta u))"
  shows "if NodeClassFinalizer \<in> set (cls_Finalizers u)
    then \<exists>v. run_state (NC_Reconcile sl hs r n) h =
           ((noRequeue, k_UpdateNodeClass (ncc_Client r) (h @ [EGetNodeClass n]) v), h @ [EGetNodeClass n, EUpdateNodeClass v])
         \<and> NodeClassFinalizer \<notin> set (cls_Finalizers v)
         \<and> cls_Finalizers v = filter (\<lambda>s. s \<noteq> NodeClassFinalizer) (cls_Finalizers u)
         \<and> v = set_Finalizers (cls_Finalizers v) u
    else run_state (NC_Reconcile sl hs r n) h = ((noRequeue, None), h @ [EGetNodeClass n])"
  using run_deleting [OF assms, of sl hs] by (auto simp: handleDeletion_run Let_def)

definition dying_class :: UpCloudNodeClass where
  "dying_class = ex_class\<lparr>cls_Meta := (cls_Meta ex_class)\<lparr>om_DeletionTimestamp := Some 5\<rparr>\<rparr>"

definition dying_controller :: NodeClassController where
  "dying_controller = \<lparr>ncc_Client = ex_kube\<lparr>k_GetNodeClass := \<lambda>_ _. Inr dying_class\<rparr>\<rparr>"

theorem deletion_releases_witness:
  "\<exists>v. snd (run_state (NC_Reconcile plain_status ex_hasher dying_controller ''default'') [])
     = [EGetNodeClass ''default'', EUpdateNodeClass v] \<and> NodeClassFinalizer \<notin> set (cls_Finalizers v)"
proof -
  have "k_GetNodeClass (ncc_Client dying_controller) [] ''default'' = Inr dying_class"
    by (simp add: dying_controller_def)
  moreover have "\<not> IsZero (om_DeletionTimestamp (cls_Meta dying_class))"
    by (simp add: dying_class_def IsZero_def zeroTime_def)
  moreover have "NodeClassFinalizer \<in> set (cls_Finalizers dying_class)"
    by (simp add: dying_class_def ex_class_def)
  ultimately show ?thesis
    using deletion_releases [of dying_controller "[]" "''default''" dying_class plain_status ex_hasher] by auto
qed

section \<open>Being called again\<close>

text \<open>
  Of the filter of controller-runtime the parameter \<open>admit\<close> says which updates of a class it
  lets through; \<open>generation_filter\<close> is what is documented of it: an update that leaves the
  specification alone, and does not mark the object for deletion, keeps the generation and is
  dropped.
\<close>

definition generation_filter :: "(event_filter \<Rightarrow> UpCloudNodeClass \<Rightarrow> UpCloudNodeClass \<Rightarrow> bool) \<Rightarrow> bool" where
  "generation_filter admit \<longleftrightarrow>
     (\<forall>old new. cls_Spec old = cls_Spec new
        \<and> om_DeletionTimestamp (cls_Meta old) = om_DeletionTimestamp (cls_Meta new) \<longrightarrow>
        \<not> admit GenerationChangedPredicate old new)"

definition wakes :: "(event_filter \<Rightarrow> UpCloudNodeClass \<Rightarrow> UpCloudNodeClass \<Rightarrow> bool) \<Rightarrow>
    registration \<Rightarrow> UpCloudNodeClass \<Rightarrow> UpCloudNodeClass \<Rightarrow> bool" where
  "wakes admit reg old new \<longleftrightarrow> list_all (\<lambda>f. admit f old new) (reg_EventFilters reg)"

definition called_again :: "reconcile_outcome \<Rightarrow> bool" where
  "called_again out \<longleftrightarrow> snd out \<noteq> None \<or> rr_Requeue (fst out) \<or> 0 < rr_RequeueAfter (fst out)"

text \<open>The writes to a class that keep its specification.\<close>

definition keeps_class :: "UpCloudNodeClass \<Rightarrow> event \<Rightarrow> bool" where
  "keeps_class u e \<longleftrightarrow>
     (\<forall>v. e = EUpdateNodeClass v \<longrightarrow> cls_Spec v = cls_Spec u
        \<and> om_DeletionTimestamp (cls_Meta v) = om_DeletionTimestamp (cls_Meta u))
     \<and> (\<forall>v w. e = EPatchStatus v w \<longrightarrow> v = u \<and> cls_Spec w = cls_Spec u
        \<and> om_DeletionTimestamp (cls_Meta w) = om_DeletionTimestamp (cls_Meta u))"

lemma Reconcile_claims_called_again: "called_again (fst (run_state (Reconcile_claims sl hs r u) h))"
  by (auto simp: Reconcile_claims_run called_again_def Minute_def split: sum.split prod.split option.split)

lemma Reconcile_claims_keeps:
  obtains evs where "snd (run_state (Reconcile_claims sl hs r v) h) = h @ evs" and "list_all (keeps_class u) evs"
proof -
  obtain evs where "snd (run_state (Reconcile_claims sl hs r v) h) = h @ EListClaims (cls_Name v) # evs"
    and "\<forall>e \<in> set evs. \<exists>claims. k_ListClaims (ncc_Client r) h (cls_Name v) = Inr claims
           \<and> stamps_one_of sl (Hash hs v) claims e"
    by (rule Reconcile_claims_events)
  moreover then have "list_all (keeps_class u) (EListClaims (cls_Name v) # evs)"
    by (auto simp: list_all_iff keeps_class_def stamps_one_of_def)
  ultimately show thesis using that by blast
qed

lemma run_called_again:
  assumes u: "k_GetNodeClass (ncc_Client r) h n = Inr u" and live: "IsZero (om_DeletionTimestamp (cls_Meta u))"
  shows "called_again (fst (run_state (NC_Reconcile sl hs r n) h))"
proof (cases "NodeClassFinalizer \<in> set (cls_Finalizers u)")
  case False
  from run_no_finalizer [OF u live this, of sl hs] show ?thesis
    by (simp add: Let_def called_again_def Minute_def split: option.split)
next
  case True
  then have act: "active u" using live by (simp add: active_def)
  show ?thesis
  proof (cases "validateSpec u")
    case (Some err)
    from run_invalid [OF u act this, of sl hs] show ?thesis
      by (simp add: called_again_def Second_def split: sum.split)
  next
    case None
    from run_valid [OF u act this, of sl hs] show ?thesis
      using Reconcile_claims_called_again [of sl hs r]
      by (simp add: called_again_def split: sum.split)
  qed
qed

lemma invalid_class_simps [simp]:
  "cls_Spec (invalid_class sl err u) = cls_Spec u" "cls_Meta (invalid_class sl err u) = cls_Meta u"
  by (simp_all add: invalid_class_def)

lemma set_Finalizers_DeletionTimestamp [simp]:
  "om_DeletionTimestamp (cls_Meta (set_Finalizers fs u)) = om_DeletionTimestamp (cls_Meta u)"
  by (simp add: set_Finalizers_def)

lemma run_keeps_class:
  assumes u: "k_GetNodeClass (ncc_Client r) h n = Inr u"
    and snd: "snd (run_state (NC_Reconcile sl hs r n) h) = h @ evs"
  shows "list_all (keeps_class u) evs"
proof -
  have claims: "list_all (keeps_class u) evs"
    if "h @ evs = snd (run_state (Reconcile_claims sl hs r v) (h @ pre))" "list_all (keeps_class u) pre" for v pre
    using that Reconcile_claims_keeps [of sl hs r v "h @ pre" u] by (metis append.assoc list_all_append same_append_eq)
  show ?thesis
  proof (cases "IsZero (om_DeletionTimestamp (cls_Meta u))")
    case False
    from run_deleting [OF u this, of sl hs] show ?thesis
      using snd by (auto simp: handleDeletion_run Let_def keeps_class_def split: if_splits)
  next
    case live: True
    show ?thesis
    proof (cases "NodeClassFinalizer \<in> set (cls_Finalizers u)")
      case False
      from run_no_finalizer [OF u live this, of sl hs] show ?thesis using snd by (auto simp: Let_def keeps_class_def)
    next
      case True
      then have act: "active u" using live by (simp add: active_def)
      show ?thesis
      proof (cases "validateSpec u")
        case (Some err)
        from run_invalid [OF u act this, of sl hs] show ?thesis using snd by (auto simp: keeps_class_def)
      next
        case None
        have "list_all (keeps_class u) [EGetNodeClass n, EPatchStatus u (ready_class sl hs u)]"
          "list_all (keeps_class u) [EGetNodeClass n]" by (simp_all add: keeps_class_def)
        note pre = this
        show ?thesis
        proof (cases "\<not> st_DeepEqual sl u (ready_class sl hs u)
            \<and> (\<exists>e. k_PatchStatus (ncc_Client r) (h @ [EGetNodeClass n]) u (ready_class sl hs u) = Inl e)")
          case True
          then have "evs = [EGetNodeClass n, EPatchStatus u (ready_class sl hs u)]"
            using run_valid [OF u act None, of sl hs] snd by auto
          then show ?thesis using pre(1) by simp
        next
          case False
          then obtain v pre where "list_all (keeps_class u) pre"
            and "h @ evs = snd (run_state (Reconcile_claims sl hs r v) (h @ pre))"
            using run_valid [OF u act None, of sl hs] snd pre
            by (cases "k_PatchStatus (ncc_Client r) (h @ [EGetNodeClass n]) u (ready_class sl hs u)")
               (metis (no_types, lifting) sum.simps(5,6))+
          then show ?thesis using claims by blast
        qed
      qed
    qed
  qed
qed

text \<open>
  C16. A live class is never forgotten. The registration drops every event that the controller's own
  writes to a class cause, so nothing but its own request brings the next run: and every run on a
  class that is not being deleted, on each of its branches, asks to be called again or reports an
  error, which the package retries. Without the drop the controller would wake itself with each
  status it publishes; without the request a class that has just got its finalizer would never be
  validated.
\<close>

theorem live_class_called_again:
  assumes "k_GetNodeClass (ncc_Client r) h n = Inr u" and "IsZero (om_DeletionTimestamp (cls_Meta u))"
    and "run_state (NC_Reconcile sl hs r n) h = (out, h @ evs)" and "generation_filter admit"
  shows "called_again out
    \<and> (\<forall>v. EUpdateNodeClass v \<in> set evs \<longrightarrow> \<not> wakes admit nodeclass_registration u v)
    \<and> (\<forall>v w. EPatchStatus v w \<in> set evs \<longrightarrow> v = u \<and> \<not> wakes admit nodeclass_registration u w)"
proof -
  have "list_all (keeps_class u) evs" using run_keeps_class [OF assms(1), of sl hs evs] assms(3) by simp
  then have keeps: "e \<in> set evs \<Longrightarrow> keeps_class u e" for e by (simp add: list_all_iff)
  have drop: "\<not> wakes admit nodeclass_registration u v"
    if "cls_Spec v = cls_Spec u" "om_DeletionTimestamp (cls_Meta v) = om_DeletionTimestamp (cls_Meta u)" for v
    using assms(4) that by (simp add: generation_filter_def wakes_def nodeclass_registration_def)
  have "called_again out" using run_called_again [OF assms(1,2), of sl hs] assms(3) by simp
  moreover have "\<not> wakes admit nodeclass_registration u v" if "EUpdateNodeClass v \<in> set evs" for v
    using keeps [OF that] drop by (simp add: keeps_class_def)
  moreover have "v = u \<and> \<not> wakes admit nodeclass_registration u w" if "EPatchStatus v w \<in> set evs" for v w
    using keeps [OF that] drop by (simp add: keeps_class_def)
  ultimately show ?thesis by blast
qed

theorem live_class_called_again_witness:
  "\<exists>out evs. run_state (NC_Reconcile plain_status ex_hasher ex_controller ''default'') [] = (out, [] @ evs)
     \<and> called_again out
     \<and> \<not> wakes (\<lambda>_ u v. cls_Spec u \<noteq> cls_Spec v
            \<or> om_DeletionTimestamp (cls_Meta u) \<noteq> om_DeletionTimestamp (cls_Meta v))
          nodeclass_registration ex_class (ready_class plain_status ex_hasher ex_class)"
proof -
  let ?admit = "\<lambda>_ u v. cls_Spec u \<noteq> cls_Spec v \<or> om_DeletionTimestamp (cls_Meta u) \<noteq> om_DeletionTimestamp (cls_Meta v)"
  have "k_GetNodeClass (ncc_Client ex_controller) [] ''default'' = Inr ex_class"
    by (simp add: ex_controller_def ex_kube_def)
  moreover have "IsZero (om_DeletionTimestamp (cls_Meta ex_class))" using ex_active(1) by (simp add: active_def)
  moreover have "generation_filter ?admit" by (simp add: generation_filter_def)
  ultimately show ?thesis
    using live_class_called_again [of ex_controller "[]" "''default''" ex_class plain_status ex_hasher _ _ ?admit]
      ex_nodeclass_run by fastforce
qed

end
