(* ===== verification/Convergence.thy ===== *)
theory Convergence
  imports NodeClass_Controller
begin

text \<open>
  A reconciler is called again and again, and what matters is where that leads. This theory puts
  the node class controller in front of an API server that keeps what is written to it and on
  which nobody else writes in the meantime: the predicate \<open>quiet_server\<close>, in terms of the state
  \<open>view\<close> that the server has after a history of calls. Two requests bring every valid class to
  rest, whatever state it and its claims were in, and a request for a class at rest only reads.

  \<open>replay\<close> computes such a state from the history; \<open>quiet_kube\<close> is the client of that server.
  That conditions which are set to what they are already stay as they are, and that an object
  equals itself, are the further laws \<open>status_stable\<close> of the imported packages.
\<close>

section \<open>A server that keeps what is written\<close>

record class_view =
  cv_class :: UpCloudNodeClass
  cv_claims :: "NodeClaim list"

definition put_claim :: "NodeClaim \<Rightarrow> NodeClaim list \<Rightarrow> NodeClaim list" where
  "put_claim new cs = map (\<lambda>c. if nc_Name c = nc_Name new then new else c) cs"

definition quiet_server :: "kube_client \<Rightarrow> string \<Rightarrow> (history \<Rightarrow> class_view) \<Rightarrow> bool" where
  "quiet_server k n view \<longleftrightarrow>
     (\<forall>h. k_GetNodeClass k h n = Inr (cv_class (view h)) \<and> k_ListClaims k h n = Inr (cv_claims (view h))
        \<and> (\<forall>e. is_read e \<longrightarrow> view (h @ [e]) = view h)
        \<and> (\<forall>u. k_UpdateNodeClass k h u = None \<and> view (h @ [EUpdateNodeClass u]) = (view h)\<lparr>cv_class := u\<rparr>)
        \<and> (\<forall>old new. k_PatchStatus k h old new = Inr new \<and> view (h @ [EPatchStatus old new]) = (view h)\<lparr>cv_class := new\<rparr>)
        \<and> (\<forall>old new. k_PatchClaim k h old new = None
             \<and> view (h @ [EPatchClaim old new]) = (view h)\<lparr>cv_claims := put_claim new (cv_claims (view h))\<rparr>))"

definition status_stable :: "status_lib \<Rightarrow> bool" where
  "status_stable sl \<longleftrightarrow>
     (\<forall>cs t. st_SetTrue sl (st_SetTrue sl cs t) t = st_SetTrue sl cs t) \<and> (\<forall>u. st_DeepEqual sl u u)"

lemma quiet_server_simps:
  assumes "quiet_server k n view"
  shows "k_GetNodeClass k h n = Inr (cv_class (view h))" and "k_ListClaims k h n = Inr (cv_claims (view h))"
    and "is_read e \<Longrightarrow> view (h @ [e]) = view h"
    and "k_UpdateNodeClass k h u = None" and "view (h @ [EUpdateNodeClass u]) = (view h)\<lparr>cv_class := u\<rparr>"
    and "k_PatchStatus k h old_class new_class = Inr new_class"
    and "view (h @ [EPatchStatus old_class new_class]) = (view h)\<lparr>cv_class := new_class\<rparr>"
    and "k_PatchClaim k h old new = None"
    and "view (h @ [EPatchClaim old new]) = (view h)\<lparr>cv_claims := put_claim new (cv_claims (view h))\<rparr>"
  using assms by (simp_all add: quiet_server_def)

section \<open>The claims after a pass\<close>

definition settled_claim :: "status_lib \<Rightarrow> string \<Rightarrow> NodeClaim \<Rightarrow> NodeClaim" where
  "settled_claim sl hash c = (if skip_claim sl c then c else stamped_claim hash c)"

lemma stamped_claim_Name [simp]: "nc_Name (stamped_claim hash c) = nc_Name c"
  by (simp add: stamped_claim_def set_Annotations_def)

lemma settled_claim_skipped: "skip_claim sl (settled_claim sl hash c)"
  by (simp add: settled_claim_def stamped_claim_skipped)

lemma settled_claim_idem: "skip_claim sl c \<Longrightarrow> settled_claim sl hash c = c"
  by (simp add: settled_claim_def)

lemma put_claim_other: "nc_Name new \<notin> nc_Name ` set cs \<Longrightarrow> put_claim new cs = cs"
  unfolding put_claim_def by (induction cs) auto

lemma view_after_patches:
  assumes q: "quiet_server k n view"
  shows "cv_claims (view h) = done @ cs \<Longrightarrow> distinct (map nc_Name (done @ cs)) \<Longrightarrow>
    view (h @ patches sl hash cs) = (view h)\<lparr>cv_claims := done @ map (settled_claim sl hash) cs\<rparr>"
proof (induction cs arbitrary: h "done")
  case Nil
  then show ?case by simp
next
  case (Cons c cs)
  show ?case
  proof (cases "skip_claim sl c")
    case True
    then show ?thesis using Cons.IH [of h "done @ [c]"] Cons.prems by (simp add: settled_claim_def)
  next
    case False
    let ?c = "stamped_claim hash c"
    let ?h = "h @ [EPatchClaim c ?c]"
    have "put_claim ?c (done @ c # cs) = done @ ?c # cs"
      using Cons.prems(2) put_claim_other [of ?c "done"] put_claim_other [of ?c cs] by (simp add: put_claim_def)
    then have v: "view ?h = (view h)\<lparr>cv_claims := done @ ?c # cs\<rparr>"
      using quiet_server_simps(9) [OF q, of h c ?c] Cons.prems(1) by simp
    have "view (?h @ patches sl hash cs) = (view ?h)\<lparr>cv_claims := (done @ [?c]) @ map (settled_claim sl hash) cs\<rparr>"
      using Cons.prems(2) by (intro Cons.IH) (simp_all add: v)
    then show ?thesis using False v by (simp add: settled_claim_def)
  qed
qed

section \<open>One request\<close>

lemma claims_pass:
  assumes q: "quiet_server (ncc_Client r) n view" and "cls_Name u = n" and "distinct (map nc_Name (cv_claims (view h)))"
  shows "\<exists>h'. run_state (Reconcile_claims sl hs r u) h = ((requeueAfter (5 * Minute), None), h')
    \<and> view h' = (view h)\<lparr>cv_claims := map (settled_claim sl (Hash hs u)) (cv_claims (view h))\<rparr>
    \<and> h' = h @ EListClaims n # patches sl (Hash hs u) (cv_claims (view h))"
proof -
  have read: "view (h @ [EListClaims n]) = view h" using quiet_server_simps(3) [OF q] by simp
  have "view ((h @ [EListClaims n]) @ patches sl (Hash hs u) (cv_claims (view h))) =
      (view h)\<lparr>cv_claims := [] @ map (settled_claim sl (Hash hs u)) (cv_claims (view h))\<rparr>"
    using view_after_patches [OF q, of "h @ [EListClaims n]" "[]" "cv_claims (view h)" sl "Hash hs u"] read assms(3) by simp
  then show ?thesis
    using quiet_server_simps(2,8) [OF q] assms(2)
      rebaseline_loop_all_ok [of r sl hs u "cv_claims (view h)" "h @ [EListClaims n]"]
    by (simp add: Reconcile_claims_run)
qed

lemma ready_class_idem:
  assumes "status_stable sl"
  shows "ready_class sl hs (ready_class sl hs u) = ready_class sl hs u"
proof -
  have eq: "ready_class sl hs w = w\<lparr>cls_Status := \<lparr>ncs_Conditions = st_SetTrue sl (GetConditions w) ConditionReady,
      ncs_Hash = Hash hs w\<rparr>\<rparr>" for w
    using Hash_spec_only [of "SetConditions w cs" w hs for cs]
    by (simp add: ready_class_def Let_def SetConditions_def set_StatusHash_def map_nth)
  show ?thesis
    using assms by (subst (1 2) eq) (simp add: Hash_ready_class status_stable_def, simp add: eq)
qed

lemma ready_class_of_equal_status:
  assumes "cls_Status u = cls_Status (ready_class sl hs u)"
  shows "ready_class sl hs u = u"
  using assms by (cases u) (simp add: ready_class_def Let_def SetConditions_def set_StatusHash_def)

lemma settles:
  assumes sl: "status_laws sl" and q: "quiet_server (ncc_Client r) n view"
    and u: "cv_class (view h) = u" "cls_Name u = n" "active u" "validateSpec u = None"
    and d: "distinct (map nc_Name (cv_claims (view h)))"
  shows "\<exists>h'. run_state (NC_Reconcile sl hs r n) h = ((requeueAfter (5 * Minute), None), h')
    \<and> view h' = \<lparr>cv_class = ready_class sl hs u, cv_claims = map (settled_claim sl (Hash hs u)) (cv_claims (view h))\<rparr>"
proof -
  let ?v = "ready_class sl hs u"
  have get: "k_GetNodeClass (ncc_Client r) h n = Inr u" using quiet_server_simps(1) [OF q] u(1) by simp
  have read: "view (h @ [EGetNodeClass n]) = view h" using quiet_server_simps(3) [OF q] by simp
  have patched: "view (h @ [EGetNodeClass n, EPatchStatus u ?v]) = (view h)\<lparr>cv_class := ?v\<rparr>"
    using quiet_server_simps(7) [OF q, of "h @ [EGetNodeClass n]" u ?v] read by simp
  have pass: "\<exists>h'. run_state (Reconcile_claims sl hs r ?v) (h @ pre) = ((requeueAfter (5 * Minute), None), h')
      \<and> view h' = (view (h @ pre))\<lparr>cv_claims := map (settled_claim sl (Hash hs u)) (cv_claims (view (h @ pre)))\<rparr>"
    if "cv_claims (view (h @ pre)) = cv_claims (view h)" for pre
    using claims_pass [OF q, of ?v "h @ pre" sl hs] u(2) d that by (auto simp: Hash_ready_class)
  show ?thesis
  proof (cases "st_DeepEqual sl u ?v")
    case True
    then have "?v = u" using sl by (intro ready_class_of_equal_status) (simp add: status_laws_def)
    then show ?thesis
      using run_valid [OF get u(3,4), of sl hs] True pass [of "[EGetNodeClass n]"] read u(1)
      by (cases "view h") auto
  next
    case False
    then show ?thesis
      using run_valid [OF get u(3,4), of sl hs] pass [of "[EGetNodeClass n, EPatchStatus u ?v]"] patched
        quiet_server_simps(6) [OF q] by (cases "view h") auto
  qed
qed

lemma at_rest:
  assumes st: "status_stable sl" and q: "quiet_server (ncc_Client r) n view"
    and v: "cv_class (view h) = ready_class sl hs u" "cls_Name u = n" "active u" "validateSpec u = None"
    and skip: "list_all (skip_claim sl) (cv_claims (view h))"
  shows "run_state (NC_Reconcile sl hs r n) h = ((requeueAfter (5 * Minute), None), h @ [EGetNodeClass n, EListClaims n])"
proof -
  let ?v = "ready_class sl hs u"
  have get: "k_GetNodeClass (ncc_Client r) h n = Inr ?v" using quiet_server_simps(1) [OF q] v(1) by simp
  have act: "active ?v" "validateSpec ?v = None" using v(3,4) by (simp_all add: active_def validateSpec_None)
  have read: "view (h @ [EGetNodeClass n]) = view h" using quiet_server_simps(3) [OF q] by simp
  have eq: "st_DeepEqual sl ?v (ready_class sl hs ?v)" using st ready_class_idem [OF st] by (simp add: status_stable_def)
  have "patches sl (Hash hs ?v) (cv_claims (view h)) = []"
    using skip by (auto simp: patches_def list_all_iff)
  then have "run_state (rebaseline_loop sl hs r ?v (cv_claims (view h))) (h @ [EGetNodeClass n, EListClaims n])
      = (None, h @ [EGetNodeClass n, EListClaims n])"
    using rebaseline_loop_all_ok [of r sl hs ?v "cv_claims (view h)" "h @ [EGetNodeClass n, EListClaims n]"]
      quiet_server_simps(8) [OF q] by simp
  then show ?thesis
    using run_valid [OF get act, of sl hs] eq ready_class_idem [OF st] quiet_server_simps(2) [OF q] read v(2)
    by (simp add: Reconcile_claims_run)
qed

section \<open>Two requests\<close>

lemma two_requests:
  assumes "status_laws sl" and "status_stable sl" and "quiet_server (ncc_Client r) n view"
    and "cv_class (view h) = u" and "cls_Name u = n" and "IsZero (om_DeletionTimestamp (cls_Meta u))"
    and "spec_Zone (cls_Spec u) \<noteq> ''''" and "spec_Plan (cls_Spec u) \<noteq> ''''"
    and "distinct (map nc_Name (cv_claims (view h)))"
  obtains w h2 where "cls_Name w = n" and "active w" and "validateSpec w = None" and "cls_Spec w = cls_Spec u"
    and "snd (run_state (serve (NC_Reconcile sl hs r) [n, n]) h) = h2"
    and "view h2 = \<lparr>cv_class = ready_class sl hs w, cv_claims = map (settled_claim sl (Hash hs w)) (cv_claims (view h))\<rparr>"
proof (cases "NodeClassFinalizer \<in> set (cls_Finalizers u)")
  case True
  then have act: "active u" and valid: "validateSpec u = None" using assms(6-8) by (simp_all add: active_def validateSpec_None)
  obtain h1 where h1: "run_state (NC_Reconcile sl hs r n) h = ((requeueAfter (5 * Minute), None), h1)"
    "view h1 = \<lparr>cv_class = ready_class sl hs u, cv_claims = map (settled_claim sl (Hash hs u)) (cv_claims (view h))\<rparr>"
    using settles [OF assms(1,3-5) act valid assms(9), of hs] by blast
  have "list_all (skip_claim sl) (cv_claims (view h1))" by (simp add: h1 list_all_iff settled_claim_skipped)
  from at_rest [OF assms(2,3) _ assms(5) act valid this, of hs] have
    "run_state (NC_Reconcile sl hs r n) h1 = ((requeueAfter (5 * Minute), None), h1 @ [EGetNodeClass n, EListClaims n])"
    by (simp add: h1)
  moreover have "view (h1 @ [EGetNodeClass n, EListClaims n]) = view h1"
    using quiet_server_simps(3) [OF assms(3), of "EGetNodeClass n" h1]
      quiet_server_simps(3) [OF assms(3), of "EListClaims n" "h1 @ [EGetNodeClass n]"] by simp
  ultimately show thesis using that [OF assms(5) act valid refl] h1 by simp
next
  case False
  let ?w = "set_Finalizers (cls_Finalizers u @ [NodeClassFinalizer]) u"
  let ?h1 = "h @ [EGetNodeClass n, EUpdateNodeClass ?w]"
  have get: "k_GetNodeClass (ncc_Client r) h n = Inr u" using quiet_server_simps(1) [OF assms(3)] assms(4) by simp
  have run: "run_state (NC_Reconcile sl hs r n) h = ((requeueAfter Minute, None), ?h1)"
    using run_no_finalizer [OF get assms(6) False, of sl hs] quiet_server_simps(4) [OF assms(3)] by (simp add: Let_def)
  have view: "view ?h1 = (view h)\<lparr>cv_class := ?w\<rparr>"
    using quiet_server_simps(5) [OF assms(3), of "h @ [EGetNodeClass n]" ?w]
      quiet_server_simps(3) [OF assms(3), of "EGetNodeClass n" h] by simp
  have w: "cls_Name ?w = n" "active ?w" "validateSpec ?w = None" "cls_Spec ?w = cls_Spec u"
    using assms(5-8) by (simp_all add: active_def validateSpec_None)
  obtain h2 where h2: "run_state (NC_Reconcile sl hs r n) ?h1 = ((requeueAfter (5 * Minute), None), h2)"
    "view h2 = \<lparr>cv_class = ready_class sl hs ?w, cv_claims = map (settled_claim sl (Hash hs ?w)) (cv_claims (view h))\<rparr>"
    using settles [OF assms(1,3) _ w(1-3), of ?h1 hs] view assms(9) by auto
  show thesis by (rule that [OF w]) (use run h2 in simp_all)
qed

section \<open>Properties\<close>

text \<open>
  C17. Two requests bring a valid class to rest. Whatever finalizers, conditions and hash the class
  has and however its claims are stamped, after them the class has the finalizer and is Ready
  with its live hash, its specification is unchanged, exactly the claims that needed it are
  stamped with that hash, and a further request only reads and asks to be called again in five
  minutes.
\<close>

theorem nodeclass_converges:
  assumes "status_laws sl" and "status_stable sl" and "quiet_server (ncc_Client r) n view"
    and "cv_class (view h) = u" and "cls_Name u = n" and "IsZero (om_DeletionTimestamp (cls_Meta u))"
    and "spec_Zone (cls_Spec u) \<noteq> ''''" and "spec_Plan (cls_Spec u) \<noteq> ''''"
    and "distinct (map nc_Name (cv_claims (view h)))"
  shows "\<exists>h2 v c. snd (run_state (serve (NC_Reconcile sl hs r) [n, n]) h) = h2 \<and> cv_class (view h2) = v
    \<and> cls_Spec v = cls_Spec u \<and> NodeClassFinalizer \<in> set (cls_Finalizers v) \<and> ncs_Hash (cls_Status v) = Hash hs u
    \<and> st_GetCond sl (GetConditions v) ConditionReady = Some c \<and> cond_Status c = ConditionTrue
    \<and> cv_claims (view h2) = map (\<lambda>c. if skip_claim sl c then c else stamped_claim (Hash hs u) c) (cv_claims (view h))
    \<and> run_state (NC_Reconcile sl hs r n) h2 = ((requeueAfter (5 * Minute), None), h2 @ [EGetNodeClass n, EListClaims n])"
proof -
  obtain w h2 where w: "cls_Name w = n" "active w" "validateSpec w = None" "cls_Spec w = cls_Spec u"
    and h2: "snd (run_state (serve (NC_Reconcile sl hs r) [n, n]) h) = h2"
      "view h2 = \<lparr>cv_class = ready_class sl hs w, cv_claims = map (settled_claim sl (Hash hs w)) (cv_claims (view h))\<rparr>"
    by (rule two_requests [OF assms])
  have hash: "Hash hs w = Hash hs u" using w(4) by (rule Hash_spec_only)
  obtain c where c: "st_GetCond sl (GetConditions (ready_class sl hs w)) ConditionReady = Some c" "cond_Status c = ConditionTrue"
    using assms(1) unfolding status_laws_def ready_class_simps(4) by metis
  have "list_all (skip_claim sl) (cv_claims (view h2))" by (simp add: h2 list_all_iff settled_claim_skipped)
  from at_rest [OF assms(2,3) _ w(1-3) this, of hs] show ?thesis
    using h2 w c hash by (intro exI [of _ h2] exI [of _ "ready_class sl hs w"] exI [of _ c])
      (simp add: active_def settled_claim_def)
qed

text \<open>The server that \<open>quiet_server\<close> describes: its state is computed from the writes it has seen.\<close>

definition after_event :: "class_view \<Rightarrow> event \<Rightarrow> class_view" where
  "after_event v e =
     (case e of
        EUpdateNodeClass u \<Rightarrow> v\<lparr>cv_class := u\<rparr>
      | EPatchStatus old new \<Rightarrow> v\<lparr>cv_class := new\<rparr>
      | EPatchClaim old new \<Rightarrow> v\<lparr>cv_claims := put_claim new (cv_claims v)\<rparr>
      | _ \<Rightarrow> v)"

definition replay :: "class_view \<Rightarrow> history \<Rightarrow> class_view" where
  "replay v h = foldl after_event v h"

definition quiet_kube :: "class_view \<Rightarrow> kube_client" where
  "quiet_kube v = down_kube
     \<lparr>k_GetNodeClass := \<lambda>h _. Inr (cv_class (replay v h)), k_ListClaims := \<lambda>h _. Inr (cv_claims (replay v h)),
      k_UpdateNodeClass := \<lambda>_ _. None, k_PatchStatus := \<lambda>_ _ new. Inr new, k_PatchClaim := \<lambda>_ _ _. None\<rparr>"

lemma quiet_kube_is_quiet: "quiet_server (quiet_kube v) n (replay v)"
proof -
  have "after_event w e = w" if "is_read e" for w e
    using that by (cases e) (simp_all add: after_event_def)
  then show ?thesis
    unfolding quiet_server_def by (simp add: quiet_kube_def replay_def) (simp add: after_event_def)
qed

lemma plain_status_stable: "status_stable plain_status"
  by (simp add: status_stable_def plain_status_def plain_set_def)

theorem nodeclass_converges_witness:
  "\<exists>h2 v c. snd (run_state (serve (NC_Reconcile plain_status ex_hasher
       \<lparr>ncc_Client = quiet_kube \<lparr>cv_class = ex_class, cv_claims = [ex_old_claim]\<rparr>\<rparr>) [''default'', ''default'']) []) = h2
     \<and> cv_class (replay \<lparr>cv_class = ex_class, cv_claims = [ex_old_claim]\<rparr> h2) = v
     \<and> st_GetCond plain_status (GetConditions v) ConditionReady = Some c \<and> cond_Status c = ConditionTrue
     \<and> ncs_Hash (cls_Status v) = Hash ex_hasher ex_class
     \<and> cv_claims (replay \<lparr>cv_class = ex_class, cv_claims = [ex_old_claim]\<rparr> h2) =
         [stamped_claim (Hash ex_hasher ex_class) ex_old_claim]"
proof -
  let ?v = "\<lparr>cv_class = ex_class, cv_claims = [ex_old_claim]\<rparr>"
  let ?r = "\<lparr>ncc_Client = quiet_kube ?v\<rparr>"
  have q: "quiet_server (ncc_Client ?r) ''default'' (replay ?v)" by (simp add: quiet_kube_is_quiet)
  have v: "cv_class (replay ?v []) = ex_class" "distinct (map nc_Name (cv_claims (replay ?v [])))" by (simp_all add: replay_def)
  have name: "cls_Name ex_class = ''default''" by (simp add: ex_class_def)
  have ok: "IsZero (om_DeletionTimestamp (cls_Meta ex_class))" "spec_Zone (cls_Spec ex_class) \<noteq> ''''"
    "spec_Plan (cls_Spec ex_class) \<noteq> ''''" using ex_active unfolding active_def validateSpec_None by blast+
  have "map (\<lambda>c. if skip_claim plain_status c then c else stamped_claim hash c) (cv_claims (replay ?v []))
      = [stamped_claim hash ex_old_claim]" for hash
    using ex_old_claim_not_skipped by (simp add: replay_def)
  then show ?thesis
    using nodeclass_converges [OF plain_status_laws plain_status_stable q v(1) name ok v(2), of ex_hasher] by metis
qed

end
