(* ===== verification/Base64.thy ===== *)
theory Base64
  imports Go_Strings
begin

text \<open>
  \<^verbatim>\<open>base64.StdEncoding.EncodeToString\<close>: three bytes to four characters of the standard
  alphabet, padded with \<^verbatim>\<open>=\<close>. \<open>decode64\<close> is the inverse that cloud-init applies to the
  files it writes with \<^verbatim>\<open>encoding: b64\<close>; it is the reference the round trip is stated with.
\<close>

section \<open>Definitions\<close>

definition alphabet :: string where
  "alphabet = ''ABCDEFGHIJKLMNOPQRSTUVWXYZabcdefghijklmnopqrstuvwxyz0123456789+/''"

definition sextet :: "nat \<Rightarrow> char" where
  "sextet n = alphabet ! n"

fun encode64 :: "string \<Rightarrow> string" where
  "encode64 [] = []"
| "encode64 [a] =
     [sextet (byte a div 4), sextet (byte a mod 4 * 16), CHR ''='', CHR ''='']"
| "encode64 [a, b] =
     [sextet (byte a div 4), sextet (byte a mod 4 * 16 + byte b div 16), sextet (byte b mod 16 * 4), CHR ''='']"
| "encode64 (a # b # c # r) =
     sextet (byte a div 4) # sextet (byte a mod 4 * 16 + byte b div 16)
       # sextet (byte b mod 16 * 4 + byte c div 64) # sextet (byte c mod 64) # encode64 r"

primrec index_in :: "char \<Rightarrow> string \<Rightarrow> nat option" where
  "index_in c [] = None"
| "index_in c (d # ds) = (if c = d then Some 0 else map_option Suc (index_in c ds))"

definition value64 :: "char \<Rightarrow> nat option" where
  "value64 c = index_in c alphabet"

definition unbyte :: "nat \<Rightarrow> char" where
  "unbyte n = char_of n"

fun decode64 :: "string \<Rightarrow> string option" where
  "decode64 [] = Some []"
| "decode64 (p # q # r # s # rest) =
     (case (value64 p, value64 q) of
        (Some x, Some y) \<Rightarrow>
          if r = CHR ''='' \<and> s = CHR ''='' \<and> rest = [] then Some [unbyte (x * 4 + y div 16)]
          else (case value64 r of
                  None \<Rightarrow> None
                | Some z \<Rightarrow>
                    if s = CHR ''='' \<and> rest = []
                    then Some [unbyte (x * 4 + y div 16), unbyte (y mod 16 * 16 + z div 4)]
                    else (case value64 s of
                            None \<Rightarrow> None
                          | Some w \<Rightarrow>
                              map_option (\<lambda>t. unbyte (x * 4 + y div 16) # unbyte (y mod 16 * 16 + z div 4)
                                           # unbyte (z mod 4 * 64 + w) # t) (decode64 rest)))
      | _ \<Rightarrow> None)"
| "decode64 _ = None"

section \<open>Lemmas\<close>

lemma alphabet_length: "length alphabet = 64"
  by (simp add: alphabet_def)

lemma alphabet_distinct: "distinct alphabet"
  by (simp add: alphabet_def)

lemma index_in_nth: "distinct ds \<Longrightarrow> i < length ds \<Longrightarrow> index_in (ds ! i) ds = Some i"
proof (induction ds arbitrary: i)
  case (Cons d ds)
  then show ?case by (cases i) auto
qed simp

lemma value64_sextet: "n < 64 \<Longrightarrow> value64 (sextet n) = Some n"
  by (simp add: value64_def sextet_def index_in_nth alphabet_distinct alphabet_length)

lemma sextet_in_alphabet: "n < 64 \<Longrightarrow> sextet n \<in> set alphabet"
  by (simp add: sextet_def alphabet_length)

lemma eq_not_in_alphabet: "CHR ''='' \<notin> set alphabet"
  by (simp add: alphabet_def)

lemma sextet_not_eq: "n < 64 \<Longrightarrow> sextet n \<noteq> CHR ''=''"
  using sextet_in_alphabet eq_not_in_alphabet by metis

lemma byte_bound: "byte c < 256"
  by (simp add: byte_def)

lemma unbyte_byte: "unbyte (byte c) = c"
  by (simp add: unbyte_def byte_def)

lemma join_bytes:
  assumes "x < 256" "y < 256" "z < (256::nat)"
  shows "x div 4 * 4 + (x mod 4 * 16 + y div 16) div 16 = x"
    and "x div 4 * 4 + x mod 4 * 16 div 16 = x"
    and "(x mod 4 * 16 + y div 16) mod 16 * 16 + (y mod 16 * 4 + z div 64) div 4 = y"
    and "(x mod 4 * 16 + y div 16) mod 16 * 16 + y mod 16 * 4 div 4 = y"
    and "(y mod 16 * 4 + z div 64) mod 4 * 64 + z mod 64 = z"
proof -
  have y: "y div 16 < 16" and z: "z div 64 < 4" using assms by auto
  show "x div 4 * 4 + x mod 4 * 16 div 16 = x" by simp
  show "x div 4 * 4 + (x mod 4 * 16 + y div 16) div 16 = x" using y by simp
  show "(x mod 4 * 16 + y div 16) mod 16 * 16 + y mod 16 * 4 div 4 = y" using y by simp
  show "(x mod 4 * 16 + y div 16) mod 16 * 16 + (y mod 16 * 4 + z div 64) div 4 = y" using y z by simp
  show "(y mod 16 * 4 + z div 64) mod 4 * 64 + z mod 64 = z" using z by simp
qed

lemma sextet_bounds:
  assumes "x < 256" "y < 256" "z < (256::nat)"
  shows "x div 4 < 64" "x mod 4 * 16 < 64" "x mod 4 * 16 + y div 16 < 64" "y mod 16 * 4 < 64"
    "y mod 16 * 4 + z div 64 < 64" "z mod 64 < 64"
  using assms by (auto intro: less_le_trans)

lemmas sextet_bounds_byte = sextet_bounds [OF byte_bound byte_bound byte_bound]
lemmas join_bytes_byte = join_bytes [OF byte_bound byte_bound byte_bound]

lemma byte_parts [simp]:
  "byte c div 16 div 16 = 0" "byte c div 64 div 4 = 0"
  "byte c div 16 mod 16 = byte c div 16" "byte c div 64 mod 4 = byte c div 64"
  using byte_bound [of c] by auto

lemma decode_encode64: "decode64 (encode64 s) = Some s"
proof (induction s rule: encode64.induct)
  case (4 a b c r)
  then show ?case
    by (simp add: value64_sextet sextet_bounds_byte sextet_not_eq join_bytes_byte unbyte_byte)
next
  case (3 a b)
  show ?case
    using sextet_bounds_byte(3) [of a b] sextet_bounds_byte(4) [of b]
    by (simp add: value64_sextet sextet_bounds_byte sextet_not_eq join_bytes_byte unbyte_byte)
next
  case (2 a)
  show ?case
    using sextet_bounds_byte(2) [of a]
    by (simp add: value64_sextet sextet_bounds_byte sextet_not_eq join_bytes_byte unbyte_byte)
qed simp

lemma encode64_chars: "set (encode64 s) \<subseteq> insert CHR ''='' (set alphabet)"
  by (induction s rule: encode64.induct) (auto intro!: sextet_in_alphabet simp: sextet_bounds_byte)

lemma encode64_no_newline: "CHR 0x0A \<notin> set (encode64 s)"
proof -
  have "CHR 0x0A \<notin> insert CHR ''='' (set alphabet)" by (simp add: alphabet_def)
  then show ?thesis using encode64_chars by blast
qed

end
