(* ===== verification/UserData.thy ===== *)
theory UserData
  imports Kube_Types Base64
begin

text \<open>
  The cloud-init generator, \<^verbatim>\<open>pkg/providers/userdata/userdata.go\<close>. Labels, taints and the
  cluster endpoint end up inside a YAML document, a kubelet configuration embedded in it and a
  shell script, so the generator validates, quotes and encodes them.

  The definitions follow the file. The two templates are the lists of their lines with the
  values in place; \<^verbatim>\<open>text/template\<close> with a map of strings does exactly this substitution.
  The YAML encoder is the imported package \<^verbatim>\<open>gopkg.in/yaml.v3\<close> and is the parameter
  \<open>yaml\<close> of \<open>serializeTaintsYAML\<close> and \<open>Generate\<close>: from the entries it gives the encoded
  document or an error. Nothing is assumed of it.

  The locales \<open>validator\<close> and \<open>splitting_validator\<close> state what the two validation functions
  promise: which strings they accept, that an error names the field, and that a string made of
  accepted pieces and separators is accepted exactly where the pieces are. Both are interpreted on
  \<open>validateSingleLine\<close> and \<open>validateShellSafe\<close>, and the lemma on label lists is proved once.

  The properties: generation succeeds exactly on the inputs whose fields are each acceptable;
  no input value can add a line to the document; the shell reads the quoted label list back as
  one word; certificates and keys come back from their base64 form; the label list depends on
  the labels only, not on the order a map is traversed in, and can be read back.
\<close>

section \<open>Definitions\<close>

abbreviation newline :: char where "newline \<equiv> CHR 0x0A"
abbreviation backslash :: char where "backslash \<equiv> CHR 0x5C"
abbreviation squote :: char where "squote \<equiv> CHR 0x27"
abbreviation dquote :: char where "dquote \<equiv> CHR 0x22"
abbreviation backtick :: char where "backtick \<equiv> CHR 0x60"

record UserDataOptions =
  ud_ClusterEndpoint :: string
  ud_CACertPEM :: string
  ud_KubeletClientCert :: string
  ud_KubeletClientKey :: string
  ud_Labels :: labels
  ud_Taints :: "Taint list"

subsection \<open>Validation\<close>

text \<open>The verb \<^verbatim>\<open>%q\<close> of a rune, for the runes the two validators report.\<close>

definition hex_digits :: "nat \<Rightarrow> nat \<Rightarrow> string" where
  "hex_digits w n =
     (let ds = digits 16 n in replicate (w - length ds) CHR ''0'' @ map digit_char ds)"

definition quote_rune :: "nat \<Rightarrow> string" where
  "quote_rune r =
     [squote] @
     (if r = 7 then [backslash, CHR ''a''] else if r = 8 then [backslash, CHR ''b'']
      else if r = 9 then [backslash, CHR ''t''] else if r = 10 then [backslash, CHR ''n'']
      else if r = 11 then [backslash, CHR ''v''] else if r = 12 then [backslash, CHR ''f'']
      else if r = 13 then [backslash, CHR ''r'']
      else if r = 0x5C then [backslash, backslash] else if r = 0x27 then [backslash, squote]
      else if r < 0x20 \<or> r = 0x7F then [backslash, CHR ''x''] @ hex_digits 2 r
      else if r < 0x7F then [char_of r]
      else [backslash, CHR ''u''] @ hex_digits 4 r) @ [squote]"

definition disallowed_rune :: "nat \<Rightarrow> bool" where
  "disallowed_rune r \<longleftrightarrow>
     (r < 0x20 \<and> r \<noteq> 9) \<or> r = 0x7F \<or> (r \<ge> 0x80 \<and> r \<le> 0x9F) \<or> r = 0x2028 \<or> r = 0x2029
     \<or> r = 0xFFFE \<or> r = 0xFFFF"

definition validateSingleLine :: "string \<Rightarrow> string \<Rightarrow> goerror option" where
  "validateSingleLine what s =
     (case runes s of
        None \<Rightarrow> Some (ErrText (what @ '' contains invalid UTF-8''))
      | Some rs \<Rightarrow>
          (case find disallowed_rune rs of
             Some r \<Rightarrow> Some (ErrText (what @ '' contains a disallowed control character '' @ quote_rune r))
           | None \<Rightarrow> None))"

definition shellSingleQuote :: "string \<Rightarrow> string" where
  "shellSingleQuote s = [squote] @ ReplaceAll s squote [squote, backslash, squote, squote] @ [squote]"

definition validateShellSafe :: "string \<Rightarrow> string \<Rightarrow> goerror option" where
  "validateShellSafe what s =
     (case IndexAny s [dquote, CHR ''$'', backtick, backslash] of
        Some i \<Rightarrow> Some (ErrText (what @ '' contains a shell-significant character '' @ quote_rune (byte (s ! i))))
      | None \<Rightarrow> None)"

subsection \<open>Serialisation\<close>

definition serializeLabels :: "labels \<Rightarrow> string" where
  "serializeLabels labels =
     (if length (map_entries labels) = 0 then ''''
      else (let keys = sort (map fst (map_entries labels))
            in Join (map (\<lambda>k. k @ ''='' @ map_read labels k) keys) '',''))"

record taintEntry =
  te_Key :: string
  te_Value :: string
  te_Effect :: string

record taintsConfig =
  tc_RegisterWithTaints :: "taintEntry list"

type_synonym yaml_encoder = "taintsConfig \<Rightarrow> goerror + string"

definition serializeTaintsYAML :: "yaml_encoder \<Rightarrow> Taint list \<Rightarrow> goerror + string" where
  "serializeTaintsYAML yaml taints =
     (if length taints = 0 then Inr ''''
      else yaml \<lparr>tc_RegisterWithTaints =
             map (\<lambda>t. \<lparr>te_Key = taint_Key t, te_Value = taint_Value t, te_Effect = taint_Effect t\<rparr>) taints\<rparr>)"

definition indentLines :: "string \<Rightarrow> nat \<Rightarrow> string" where
  "indentLines s spaces =
     (let prefix = Repeat '' '' spaces;
          lines = Split s newline
      in Join (map (\<lambda>line. if line \<noteq> '''' then prefix @ line else line) lines) [newline])"

subsection \<open>The templates\<close>

definition kubelet_lines :: "string list" where
  \<open>kubelet_lines =
     [''apiVersion: kubelet.config.k8s.io/v1beta1'',
      ''kind: KubeletConfiguration'',
      ''address: ADDRESS_PLACEHOLDER'',
      ''providerID: PROVIDER_ID_PLACEHOLDER'',
      ''authentication:'',
      ''  anonymous:'',
      ''    enabled: false'',
      ''  webhook:'',
      ''    cacheTTL: 0s'',
      ''    enabled: true'',
      ''  x509:'',
      ''    clientCAFile: /etc/kubernetes/pki/ca.crt'',
      ''authorization:'',
      ''  mode: Webhook'',
      ''  webhook:'',
      ''    cacheAuthorizedTTL: 0s'',
      ''    cacheUnauthorizedTTL: 0s'',
      ''cgroupDriver: systemd'',
      ''clusterDNS:'',
      ''- 10.96.0.10'',
      ''clusterDomain: cluster.local'',
      ''containerRuntimeEndpoint: unix:///var/run/containerd/containerd.sock'',
      ''healthzBindAddress: 127.0.0.1'',
      ''healthzPort: 10248'',
      ''imageGCHighThresholdPercent: 85'',
      ''logging:'',
      ''  verbosity: 0'',
      ''resolvConf: /run/systemd/resolve/resolv.conf'',
      ''rotateCertificates: true'',
      ''staticPodPath: /etc/kubernetes/manifests'']\<close>

definition kubeletConfigTemplate :: "string \<Rightarrow> string" where
  "kubeletConfigTemplate taintsYAML = Join (kubelet_lines @ [taintsYAML, '''']) [newline]"

text \<open>The lines before and after the kubelet configuration.\<close>

definition cloud_init_head :: "string \<Rightarrow> string \<Rightarrow> string \<Rightarrow> string \<Rightarrow> string list" where
  \<open>cloud_init_head cACertB64 kubeletCertB64 kubeletKeyB64 clusterEndpoint =
     [''#cloud-config'',
      '''',
      ''manage_etc_hosts: false'',
      '''',
      ''write_files:'',
      ''  - path: /etc/kubernetes/pki/ca.crt'',
      ''    encoding: b64'',
      ''    content: '' @ cACertB64,
      ''  - path: /var/lib/kubelet/pki/kubelet-client.crt'',
      ''    encoding: b64'',
      ''    content: '' @ kubeletCertB64,
      ''  - path: /var/lib/kubelet/pki/kubelet-client.key'',
      ''    encoding: b64'',
      ''    content: '' @ kubeletKeyB64,
      ''    permissions: "0600"'',
      ''  - path: /etc/kubernetes/kubelet.conf'',
      ''    content: |'',
      ''      apiVersion: v1'',
      ''      kind: Config'',
      ''      clusters:'',
      ''      - cluster:'',
      ''          certificate-authority: /etc/kubernetes/pki/ca.crt'',
      ''          server: '' @ clusterEndpoint,
      ''        name: default-cluster'',
      ''      contexts:'',
      ''      - context:'',
      ''          cluster: default-cluster'',
      ''          namespace: default'',
      ''          user: default-auth'',
      ''        name: default-context'',
      ''      current-context: default-context'',
      ''      users:'',
      ''      - name: default-auth'',
      ''        user:'',
      ''          client-certificate: /var/lib/kubelet/pki/kubelet-client-current.pem'',
      ''          client-key: /var/lib/kubelet/pki/kubelet-client-current.pem'',
      ''  - path: /var/lib/kubelet/config.yaml'',
      ''    content: |'']\<close>

definition cloud_init_tail :: "string \<Rightarrow> string list" where
  \<open>cloud_init_tail nodeLabels =
     [''runcmd:'',
      ''  - |'',
      ''    # Combine cert + key (UKS convention)'',
      ''    cat /var/lib/kubelet/pki/kubelet-client.crt /var/lib/kubelet/pki/kubelet-client.key '' @ [backslash],
      ''      > /var/lib/kubelet/pki/kubelet-client-current.pem'',
      ''    chmod 600 /var/lib/kubelet/pki/kubelet-client-current.pem'',
      '''',
      ''    # Discover private IP via metadata service'',
      ''    for i in $(curl -s http://169.254.169.254/metadata/v1/network/interfaces/); do'',
      ''      if [ "$(curl -s http://169.254.169.254/metadata/v1/network/interfaces/$i/type)" = "private" ]; then'',
      ''        PRIVATE_IP=$(curl -s http://169.254.169.254/metadata/v1/network/interfaces/$i/ip_addresses/1/address)'',
      ''        break'',
      ''      fi'',
      ''    done'',
      '''',
      ''    PROVIDER_ID="upcloud:////$(curl -s http://169.254.169.254/metadata/v1/instance_id)"'',
      ''    NODE_LABELS='' @ nodeLabels,
      '''',
      ''    if ! grep -q "$(hostname)" /etc/hosts; then'',
      ''      echo "$PRIVATE_IP  $(hostname)" >> /etc/hosts'',
      ''    fi'',
      '''',
      ''    sed -i "s|PROVIDER_ID_PLACEHOLDER|$PROVIDER_ID|" /var/lib/kubelet/config.yaml'',
      ''    sed -i "s|ADDRESS_PLACEHOLDER|$PRIVATE_IP|" /var/lib/kubelet/config.yaml'',
      '''',
      ''    KUBELET_EXTRA="--cloud-provider=external"'',
      ''    if [ -n "$NODE_LABELS" ]; then'',
      ''      KUBELET_EXTRA="$KUBELET_EXTRA --node-labels=$NODE_LABELS"'',
      ''    fi'',
      '''',
      ''    echo "KUBELET_EXTRA_ARGS='' @ [backslash] @ ''"$KUBELET_EXTRA'' @ [backslash] @ ''"" > /etc/default/kubelet'',
      '''',
      ''    systemctl daemon-reload'',
      ''    systemctl restart kubelet'']\<close>

definition cloudInitTemplate :: "string \<Rightarrow> string \<Rightarrow> string \<Rightarrow> string \<Rightarrow> string \<Rightarrow> string \<Rightarrow> string" where
  "cloudInitTemplate ca cert key endpoint kubeletConfig nodeLabels =
     Join (cloud_init_head ca cert key endpoint @ [kubeletConfig] @ cloud_init_tail nodeLabels @ [''''])
       [newline]"

subsection \<open>Generate\<close>

definition taint_fields :: "Taint \<Rightarrow> (string \<times> string) list" where
  "taint_fields t =
     [(''taint key'', taint_Key t), (''taint value'', taint_Value t), (''taint effect'', taint_Effect t)]"

text \<open>The two nested loops over the taints and their fields: the first error.\<close>

fun first_error :: "(string \<Rightarrow> string \<Rightarrow> goerror option) \<Rightarrow> (string \<times> string) list \<Rightarrow> goerror option" where
  "first_error v [] = None"
| "first_error v ((what, s) # fs) = (case v what s of Some e \<Rightarrow> Some e | None \<Rightarrow> first_error v fs)"

definition render :: "UserDataOptions \<Rightarrow> string \<Rightarrow> string \<Rightarrow> string" where
  "render opts taintsYAML nodeLabels =
     cloudInitTemplate (encode64 (ud_CACertPEM opts)) (encode64 (ud_KubeletClientCert opts))
       (encode64 (ud_KubeletClientKey opts)) (ud_ClusterEndpoint opts)
       (indentLines (kubeletConfigTemplate taintsYAML) 6) (shellSingleQuote nodeLabels)"

definition Generate :: "yaml_encoder \<Rightarrow> UserDataOptions \<Rightarrow> goerror + string" where
  "Generate yaml opts =
     (case validateSingleLine ''cluster endpoint'' (ud_ClusterEndpoint opts) of
        Some err \<Rightarrow> Inl err
      | None \<Rightarrow>
     (let nodeLabels = serializeLabels (ud_Labels opts) in
      case validateSingleLine ''node labels'' nodeLabels of
        Some err \<Rightarrow> Inl err
      | None \<Rightarrow>
     (case validateShellSafe ''node labels'' nodeLabels of
        Some err \<Rightarrow> Inl err
      | None \<Rightarrow>
     (case first_error validateSingleLine (concat (map taint_fields (ud_Taints opts))) of
        Some err \<Rightarrow> Inl err
      | None \<Rightarrow>
     (case serializeTaintsYAML yaml (ud_Taints opts) of
        Inl terr \<Rightarrow> Inl (Wrapf ''serializing taints'' terr)
      | Inr taintsYAML \<Rightarrow> Inr (render opts taintsYAML nodeLabels))))))"

section \<open>The contract of the validators\<close>

locale validator =
  fixes validate :: "string \<Rightarrow> string \<Rightarrow> goerror option" and ok :: "string \<Rightarrow> bool"
  assumes accepts: "validate what s = None \<longleftrightarrow> ok s"
    and blames: "validate what s = Some e \<Longrightarrow> \<exists>t. Error e = what @ t"
begin

lemma first_error_None: "first_error validate fs = None \<longleftrightarrow> (\<forall>f \<in> set fs. ok (snd f))"
proof (induction fs)
  case (Cons f fs)
  obtain w s where f: "f = (w, s)" by fastforce
  show ?case
    using Cons accepts [of w s] unfolding f by (cases "validate w s") auto
qed simp

lemma first_error_blames:
  "first_error validate fs = Some e \<Longrightarrow> \<exists>f \<in> set fs. \<not> ok (snd f) \<and> (\<exists>t. Error e = fst f @ t)"
proof (induction fs)
  case (Cons f fs)
  obtain w s where f: "f = (w, s)" by fastforce
  show ?case
  proof (cases "validate w s")
    case None
    then show ?thesis using Cons unfolding f by auto
  next
    case (Some e')
    then have "e' = e" using Cons.prems unfolding f by simp
    then show ?thesis using Some blames [OF Some] accepts [of w s] unfolding f by auto
  qed
qed simp

end

text \<open>Separators are never part of what a validator looks for.\<close>

locale splitting_validator = validator +
  assumes splits: "c = CHR '','' \<or> c = CHR ''='' \<Longrightarrow> ok (a @ c # b) \<longleftrightarrow> ok a \<and> ok b"
    and ok_Nil: "ok []"
begin

lemma ok_Join: "ok (Join ps '','') \<longleftrightarrow> (\<forall>p \<in> set ps. ok p)"
proof (induction ps rule: induct_list012)
  case (3 p q ps)
  then show ?case using splits [of "CHR '',''" p "Join (q # ps) '',''"] by simp
qed (simp_all add: ok_Nil)

lemma ok_serializeLabels:
  assumes "wf_map m"
  shows "ok (serializeLabels m) \<longleftrightarrow> (\<forall>(k, v) \<in> set (map_entries m). ok k \<and> ok v)"
proof -
  have eq: "ok (k @ CHR ''='' # v) \<longleftrightarrow> ok k \<and> ok v" for k v
    by (rule splits) simp
  have rd: "map_read m k = v" if "(k, v) \<in> set (map_entries m)" for k v
    using that assms by (simp add: wf_map_def map_read_def map_get_def)
  have "ok (serializeLabels m) \<longleftrightarrow> (\<forall>k \<in> fst ` set (map_entries m). ok k \<and> ok (map_read m k))"
    by (auto simp: serializeLabels_def ok_Nil Let_def ok_Join eq)
  also have "\<dots> \<longleftrightarrow> (\<forall>(k, v) \<in> set (map_entries m). ok k \<and> ok v)"
    using rd by fastforce
  finally show ?thesis .
qed

end

section \<open>What the validators accept\<close>

definition single_line :: "string \<Rightarrow> bool" where
  "single_line s \<longleftrightarrow> (case runes s of None \<Rightarrow> False | Some rs \<Rightarrow> list_all (\<lambda>r. \<not> disallowed_rune r) rs)"

definition shell_safe :: "string \<Rightarrow> bool" where
  "shell_safe s \<longleftrightarrow> list_all (\<lambda>c. c \<notin> {dquote, CHR ''$'', backtick, backslash}) s"

lemma is_ascii_separators: "c = CHR '','' \<or> c = CHR ''='' \<Longrightarrow> is_ascii c \<and> \<not> disallowed_rune (byte c)"
  by (auto simp: is_ascii_def byte_def disallowed_rune_def)

lemma single_line_split:
  assumes "is_ascii c" and "\<not> disallowed_rune (byte c)"
  shows "single_line (a @ c # b) \<longleftrightarrow> single_line a \<and> single_line b"
proof
  assume "single_line (a @ c # b)"
  then obtain rs where "runes (a @ c # b) = Some rs" and "list_all (\<lambda>r. \<not> disallowed_rune r) rs"
    by (auto simp: single_line_def split: option.splits)
  then show "single_line a \<and> single_line b"
    using runes_ascii_split [OF assms(1), of a b rs] by (auto simp: single_line_def)
next
  assume ab: "single_line a \<and> single_line b"
  then obtain ra rb where "runes a = Some ra" "runes b = Some rb"
    by (auto simp: single_line_def split: option.splits)
  then show "single_line (a @ c # b)"
    using ab runes_append [of a ra "c # b"] runes_ascii_Cons [OF assms(1), of b] assms(2)
    by (simp add: single_line_def)
qed

lemma single_line_no_newline:
  assumes "single_line s"
  shows "newline \<notin> set s"
proof
  assume "newline \<in> set s"
  moreover obtain rs where rs: "runes s = Some rs" "list_all (\<lambda>r. \<not> disallowed_rune r) rs"
    using assms by (auto simp: single_line_def split: option.splits)
  ultimately have "byte newline \<in> set rs"
    by (intro runes_ascii_member) (simp_all add: is_ascii_def)
  moreover have "disallowed_rune (byte newline)" by (simp add: byte_def disallowed_rune_def)
  ultimately show False using rs(2) by (auto simp: list_all_iff)
qed

text \<open>Printable ASCII is always accepted.\<close>

definition printable :: "string \<Rightarrow> bool" where
  "printable s \<longleftrightarrow> list_all (\<lambda>c. 0x20 \<le> byte c \<and> byte c < 0x7F) s"

lemma printable_single_line: "printable s \<Longrightarrow> single_line s"
proof (induction s)
  case (Cons c s)
  then have "is_ascii c" and "\<not> disallowed_rune (byte c)" and "single_line s"
    by (auto simp: printable_def is_ascii_def byte_def disallowed_rune_def)
  then show ?case using single_line_split [of c "[]" s] by (simp add: single_line_def)
qed (simp add: single_line_def)

lemma find_disallowed: "find P xs = None \<longleftrightarrow> list_all (\<lambda>x. \<not> P x) xs"
  by (induction xs) auto

interpretation sl: splitting_validator validateSingleLine single_line
proof
  fix what s
  show "validateSingleLine what s = None \<longleftrightarrow> single_line s"
    by (auto simp: validateSingleLine_def single_line_def find_disallowed [symmetric] split: option.splits)
next
  fix what s e
  assume "validateSingleLine what s = Some e"
  then show "\<exists>t. Error e = what @ t"
    by (auto simp: validateSingleLine_def split: option.splits)
next
  fix c a b
  assume "c = CHR '','' \<or> c = CHR ''=''"
  then show "single_line (a @ c # b) \<longleftrightarrow> single_line a \<and> single_line b"
    using single_line_split [of c a b] is_ascii_separators [of c] by simp
qed (simp add: single_line_def)

interpretation ss: splitting_validator validateShellSafe shell_safe
proof
  fix what s
  show "validateShellSafe what s = None \<longleftrightarrow> shell_safe s"
  proof -
    have "validateShellSafe what s = None \<longleftrightarrow> IndexAny s [dquote, CHR ''$'', backtick, backslash] = None"
      by (simp add: validateShellSafe_def split: option.split)
    also have "\<dots> \<longleftrightarrow> shell_safe s"
      unfolding IndexAny_None shell_safe_def list_all_iff by auto
    finally show ?thesis .
  qed
next
  fix what s e
  assume "validateShellSafe what s = Some e"
  then show "\<exists>t. Error e = what @ t"
    by (auto simp: validateShellSafe_def split: option.splits)
next
  fix c a b
  assume "c = CHR '','' \<or> c = CHR ''=''"
  then show "shell_safe (a @ c # b) \<longleftrightarrow> shell_safe a \<and> shell_safe b"
    by (auto simp: shell_safe_def)
qed (simp add: shell_safe_def)

section \<open>Lines\<close>

lemma Join_append:
  "ps \<noteq> [] \<Longrightarrow> qs \<noteq> [] \<Longrightarrow> Join (ps @ qs) sep = Join ps sep @ sep @ Join qs sep"
proof (induction ps rule: list_nonempty_induct)
  case (single p)
  then show ?case by (simp add: Join_Cons)
next
  case (cons p ps)
  then show ?case by (simp add: Join_Cons)
qed

lemma Join_expand_piece:
  assumes "a \<noteq> []" "b \<noteq> []"
  shows "Join (a @ [k] @ b) [sep] = Join (a @ Split k sep @ b) [sep]"
  using assms by (simp add: Join_append Join_Cons Join_Split)

lemma Split_Join_middle:
  assumes "a \<noteq> []" "b \<noteq> []" "\<forall>p \<in> set a \<union> set b. sep \<notin> set p"
  shows "Split (Join (a @ [k] @ b) [sep]) sep = a @ Split k sep @ b"
  unfolding Join_expand_piece [OF assms(1,2)]
  using assms Split_pieces_no_sep [of _ k sep] by (intro Split_Join) auto

lemma Split_indentLines:
  "Split (indentLines s n) newline =
     map (\<lambda>l. if l \<noteq> '''' then Repeat '' '' n @ l else l) (Split s newline)"
proof -
  have "newline \<notin> set (Repeat '' '' n)" by (simp add: Repeat_space)
  then show ?thesis
    using Split_pieces_no_sep [of _ s newline]
    by (auto simp: indentLines_def Let_def intro!: Split_Join)
qed

lemma newline_cloud_init_head:
  assumes "newline \<notin> set ca" "newline \<notin> set cert" "newline \<notin> set key" "newline \<notin> set e"
  shows "\<forall>l \<in> set (cloud_init_head ca cert key e). newline \<notin> set l"
  using assms by (simp add: cloud_init_head_def)

lemma newline_cloud_init_tail:
  "newline \<notin> set ls \<Longrightarrow> \<forall>l \<in> set (cloud_init_tail ls). newline \<notin> set l"
  by (simp add: cloud_init_tail_def)

lemma set_ReplaceAll: "set (ReplaceAll s old new) \<subseteq> set s \<union> set new"
  by (induction s) auto

lemma newline_shellSingleQuote: "newline \<notin> set s \<Longrightarrow> newline \<notin> set (shellSingleQuote s)"
  using set_ReplaceAll [of s squote "[squote, backslash, squote, squote]"]
  by (auto simp: shellSingleQuote_def)

section \<open>Label lists\<close>

lemma sorted_keys_unique:
  assumes "wf_map m" "wf_map m'" "map_get m = map_get m'"
  shows "sort (map fst (map_entries m)) = sort (map fst (map_entries m'))"
proof -
  have "set (map fst (map_entries m)) = set (map fst (map_entries m'))"
    using dom_map_get [of m] dom_map_get [of m'] assms(3) by simp
  then show ?thesis
    using assms(1,2) by (intro sorted_distinct_set_unique) (simp_all add: wf_map_def)
qed

text \<open>Reading a label list back: pieces between commas, cut at the first equals sign.\<close>

fun cut :: "char \<Rightarrow> string \<Rightarrow> string \<times> string" where
  "cut sep [] = ([], [])"
| "cut sep (c # cs) = (if c = sep then ([], cs) else (let (a, b) = cut sep cs in (c # a, b)))"

definition parse_labels :: "string \<Rightarrow> (string \<times> string) list" where
  "parse_labels s = (if s = '''' then [] else map (cut CHR ''='') (Split s CHR '',''))"

lemma cut_append: "sep \<notin> set a \<Longrightarrow> cut sep (a @ sep # b) = (a, b)"
  by (induction a) auto

lemma Join_Nil_iff: "\<forall>p \<in> set ps. p \<noteq> [] \<Longrightarrow> Join ps sep = [] \<longleftrightarrow> ps = []"
  by (cases ps; cases "tl ps") auto

section \<open>How a shell reads a word\<close>

text \<open>
  A word of the POSIX shell, as far as quoting by single quotes and backslashes goes: it ends at
  a newline or a blank; between single quotes every character stands for itself; outside them a
  backslash quotes the next character. \<open>None\<close>: the quote is not closed.
\<close>

fun sh_word :: "bool \<Rightarrow> string \<Rightarrow> (string \<times> string) option" where
  "sh_word True [] = None"
| "sh_word True (c # cs) =
     (if c = squote then sh_word False cs else map_option (apfst (Cons c)) (sh_word True cs))"
| "sh_word False [] = Some ([], [])"
| "sh_word False (c # cs) =
     (if c = squote then sh_word True cs
      else if c = backslash then
        (case cs of [] \<Rightarrow> None | d # ds \<Rightarrow> map_option (apfst (Cons d)) (sh_word False ds))
      else if c = newline \<or> c = CHR '' '' then Some ([], c # cs)
      else map_option (apfst (Cons c)) (sh_word False cs))"

text \<open>
  The second pass: a value between double quotes, where a double quote ends it and a dollar sign,
  a backtick or a backslash would be interpreted, here \<open>None\<close>.
\<close>

fun dq_value :: "string \<Rightarrow> (string \<times> string) option" where
  "dq_value [] = None"
| "dq_value (c # cs) =
     (if c = dquote then Some ([], cs)
      else if c = CHR ''$'' \<or> c = backtick \<or> c = backslash then None
      else map_option (apfst (Cons c)) (dq_value cs))"

lemma sh_word_quoted_body:
  "sh_word True (ReplaceAll s squote [squote, backslash, squote, squote] @ squote # newline # rest)
     = Some (s, newline # rest)"
  by (induction s) simp_all

lemma dq_value_safe: "shell_safe s \<Longrightarrow> dq_value (s @ dquote # rest) = Some (s, rest)"
  by (induction s) (auto simp: shell_safe_def)

section \<open>What a successful generation gives\<close>

lemma Generate_checked:
  assumes "Generate yaml opts = Inr out"
  obtains y where "single_line (ud_ClusterEndpoint opts)"
    and "single_line (serializeLabels (ud_Labels opts))"
    and "shell_safe (serializeLabels (ud_Labels opts))"
    and "serializeTaintsYAML yaml (ud_Taints opts) = Inr y"
    and "out = render opts y (serializeLabels (ud_Labels opts))"
  using assms
  by (auto simp: Generate_def Let_def sl.accepts ss.accepts split: option.splits sum.splits)

lemma Generate_accepts:
  assumes "wf_map (ud_Labels opts)" and "printable (ud_ClusterEndpoint opts)"
    and "\<forall>(k, v) \<in> set (map_entries (ud_Labels opts)). printable k \<and> printable v \<and> shell_safe k \<and> shell_safe v"
    and "\<forall>t \<in> set (ud_Taints opts). printable (taint_Key t) \<and> printable (taint_Value t) \<and> printable (taint_Effect t)"
    and "serializeTaintsYAML yaml (ud_Taints opts) = Inr y"
  shows "Generate yaml opts = Inr (render opts y (serializeLabels (ud_Labels opts)))"
proof -
  have "single_line (ud_ClusterEndpoint opts)" "single_line (serializeLabels (ud_Labels opts))"
    "shell_safe (serializeLabels (ud_Labels opts))"
    using assms(2,3) printable_single_line
    by (auto simp: sl.ok_serializeLabels [OF assms(1)] ss.ok_serializeLabels [OF assms(1)])
  moreover have "first_error validateSingleLine (concat (map taint_fields (ud_Taints opts))) = None"
    using assms(4) printable_single_line by (auto simp: sl.first_error_None taint_fields_def)
  moreover have "validateSingleLine w s = None \<longleftrightarrow> single_line s" "validateShellSafe w s = None \<longleftrightarrow> shell_safe s" for w s
    by (rule sl.accepts, rule ss.accepts)
  ultimately show ?thesis using assms(5) by (auto simp: Generate_def Let_def split: option.split)
qed

text \<open>The lines of the document, with the kubelet configuration as the only variable part.\<close>

definition document_lines :: "UserDataOptions \<Rightarrow> string \<Rightarrow> string list" where
  "document_lines opts y =
     cloud_init_head (encode64 (ud_CACertPEM opts)) (encode64 (ud_KubeletClientCert opts))
       (encode64 (ud_KubeletClientKey opts)) (ud_ClusterEndpoint opts)
     @ map (\<lambda>l. if l \<noteq> '''' then Repeat '' '' 6 @ l else l) (Split (kubeletConfigTemplate y) newline)
     @ cloud_init_tail (shellSingleQuote (serializeLabels (ud_Labels opts))) @ ['''']"

lemma Split_render:
  assumes "single_line (ud_ClusterEndpoint opts)" and "single_line (serializeLabels (ud_Labels opts))"
  shows "Split (render opts y (serializeLabels (ud_Labels opts))) newline = document_lines opts y"
proof -
  let ?a = "cloud_init_head (encode64 (ud_CACertPEM opts)) (encode64 (ud_KubeletClientCert opts))
       (encode64 (ud_KubeletClientKey opts)) (ud_ClusterEndpoint opts)"
  let ?b = "cloud_init_tail (shellSingleQuote (serializeLabels (ud_Labels opts))) @ ['''']"
  have "\<forall>l \<in> set ?a. newline \<notin> set l"
    using single_line_no_newline [OF assms(1)] by (intro newline_cloud_init_head encode64_no_newline)
  moreover have "\<forall>l \<in> set ?b. newline \<notin> set l"
    using newline_cloud_init_tail [OF newline_shellSingleQuote [OF single_line_no_newline [OF assms(2)]]]
    by simp
  moreover have "?a \<noteq> []" by (simp add: cloud_init_head_def)
  ultimately have "Split (Join (?a @ [indentLines (kubeletConfigTemplate y) 6] @ ?b) [newline]) newline
      = ?a @ Split (indentLines (kubeletConfigTemplate y) 6) newline @ ?b"
    by (intro Split_Join_middle) blast+
  then show ?thesis
    unfolding render_def cloudInitTemplate_def document_lines_def Split_indentLines .
qed

text \<open>The line of the script that assigns the labels, inside the document.\<close>

lemma Join_contains_line:
  assumes "as \<noteq> []" and "bs \<noteq> []"
  shows "Join (as @ l # bs) [sep] = Join as [sep] @ sep # l @ sep # Join bs [sep]"
  using assms Join_append [of as "l # bs" "[sep]"] by (simp add: Join_Cons)

lemma cloud_init_tail_split:
  "cloud_init_tail q =
     take 16 (cloud_init_tail []) @ (''    NODE_LABELS='' @ q) # drop 17 (cloud_init_tail [])"
  by (simp add: cloud_init_tail_def)

lemma render_labels_line:
  "\<exists>pre post. render opts y ls =
     pre @ newline # (''    NODE_LABELS='' @ shellSingleQuote ls) @ newline # post"
proof -
  let ?as = "cloud_init_head (encode64 (ud_CACertPEM opts)) (encode64 (ud_KubeletClientCert opts))
         (encode64 (ud_KubeletClientKey opts)) (ud_ClusterEndpoint opts)
         @ [indentLines (kubeletConfigTemplate y) 6] @ take 16 (cloud_init_tail [])"
  let ?bs = "drop 17 (cloud_init_tail []) @ ['''']"
  have "render opts y ls = Join (?as @ (''    NODE_LABELS='' @ shellSingleQuote ls) # ?bs) [newline]"
    unfolding render_def cloudInitTemplate_def cloud_init_tail_split [of "shellSingleQuote ls"]
    by (simp only: append.assoc append_Cons)
  also have "\<dots> = Join ?as [newline] @ newline # (''    NODE_LABELS='' @ shellSingleQuote ls)
      @ newline # Join ?bs [newline]"
    by (intro Join_contains_line) simp_all
  finally show ?thesis by blast
qed

lemma parse_serializeLabels:
  assumes "wf_map m"
    and "\<forall>(k, v) \<in> set (map_entries m). set k \<inter> {CHR '','', CHR ''=''} = {} \<and> CHR '','' \<notin> set v"
  shows "parse_labels (serializeLabels m) =
    map (\<lambda>k. (k, map_read m k)) (sort (map fst (map_entries m)))"
proof (cases "map_entries m")
  case Nil
  then show ?thesis by (simp add: serializeLabels_def parse_labels_def)
next
  case (Cons e es)
  let ?ks = "sort (map fst (map_entries m))"
  let ?ps = "map (\<lambda>k. k @ ''='' @ map_read m k) ?ks"
  have ks: "?ks \<noteq> []" using Cons by (metis length_0_conv length_map length_sort list.distinct(1))
  have rd: "set k \<inter> {CHR '','', CHR ''=''} = {} \<and> CHR '','' \<notin> set (map_read m k)"
    if "k \<in> set ?ks" for k
  proof -
    from that obtain v where kv: "(k, v) \<in> set (map_entries m)" by auto
    moreover from kv have "map_read m k = v"
      using assms(1) by (simp add: wf_map_def map_read_def map_get_def)
    ultimately show ?thesis using assms(2) by fastforce
  qed
  have "serializeLabels m = Join ?ps '',''" using Cons by (simp add: serializeLabels_def Let_def)
  moreover have "Join ?ps '','' \<noteq> []" using ks Join_Nil_iff [of ?ps "'',''"] by simp
  moreover have "Split (Join ?ps '','') CHR '','' = ?ps"
    using ks rd by (intro Split_Join) auto
  moreover have "map (cut CHR ''='') ?ps = map (\<lambda>k. (k, map_read m k)) ?ks"
    using rd cut_append [of "CHR ''=''"] by auto
  ultimately show ?thesis by (simp add: parse_labels_def)
qed

lemma map_of_sorted_entries:
  "map_of (map (\<lambda>k. (k, map_read m k)) (sort (map fst (map_entries m)))) = map_get m"
proof
  fix k
  show "map_of (map (\<lambda>k. (k, map_read m k)) (sort (map fst (map_entries m)))) k = map_get m k"
  proof (cases "map_get m k")
    case None
    then have "k \<notin> fst ` set (map_entries m)" using dom_map_get [of m] by blast
    then show ?thesis using None by (simp add: map_of_map_restrict restrict_map_def)
  next
    case (Some v)
    then have "k \<in> fst ` set (map_entries m)" using dom_map_get [of m] by blast
    then show ?thesis using Some by (simp add: map_of_map_restrict restrict_map_def map_read_def)
  qed
qed

section \<open>Properties\<close>

text \<open>
  C31. \<open>Generate\<close> succeeds exactly where the endpoint, every label key and value and every taint
  field is a single line of valid UTF-8 without disallowed control characters, no label key or
  value holds a character the shell would reinterpret, and the encoder accepts the taints. Its
  result is then the rendered document.
\<close>

theorem Generate_succeeds_iff:
  assumes "wf_map (ud_Labels opts)"
  shows "Generate yaml opts = Inr out \<longleftrightarrow>
      single_line (ud_ClusterEndpoint opts)
    \<and> (\<forall>(k, v) \<in> set (map_entries (ud_Labels opts)).
         single_line k \<and> single_line v \<and> shell_safe k \<and> shell_safe v)
    \<and> (\<forall>t \<in> set (ud_Taints opts).
         single_line (taint_Key t) \<and> single_line (taint_Value t) \<and> single_line (taint_Effect t))
    \<and> (\<exists>y. serializeTaintsYAML yaml (ud_Taints opts) = Inr y
         \<and> out = render opts y (serializeLabels (ud_Labels opts)))"
proof -
  have taints: "first_error validateSingleLine (concat (map taint_fields (ud_Taints opts))) = None \<longleftrightarrow>
      (\<forall>t \<in> set (ud_Taints opts).
         single_line (taint_Key t) \<and> single_line (taint_Value t) \<and> single_line (taint_Effect t))"
    by (simp add: sl.first_error_None taint_fields_def)
  have "Generate yaml opts = Inr out \<longleftrightarrow>
      validateSingleLine ''cluster endpoint'' (ud_ClusterEndpoint opts) = None
    \<and> validateSingleLine ''node labels'' (serializeLabels (ud_Labels opts)) = None
    \<and> validateShellSafe ''node labels'' (serializeLabels (ud_Labels opts)) = None
    \<and> first_error validateSingleLine (concat (map taint_fields (ud_Taints opts))) = None
    \<and> (\<exists>y. serializeTaintsYAML yaml (ud_Taints opts) = Inr y
         \<and> out = render opts y (serializeLabels (ud_Labels opts)))"
    by (auto simp: Generate_def Let_def split: option.splits sum.splits)
  then show ?thesis
    unfolding taints sl.accepts ss.accepts sl.ok_serializeLabels [OF assms] ss.ok_serializeLabels [OF assms]
    by fast
qed

definition ex_opts :: UserDataOptions where
  "ex_opts = \<lparr>ud_ClusterEndpoint = ''https://api:6443'', ud_CACertPEM = ''CA'', ud_KubeletClientCert = ''CRT'',
     ud_KubeletClientKey = ''KEY'', ud_Labels = Some [(''b'', ''2''), (''a'', ''1'')],
     ud_Taints = [UnregisteredNoExecuteTaint]\<rparr>"

definition ex_yaml :: yaml_encoder where
  "ex_yaml c = Inr ''registerWithTaints: []''"

lemmas ex_opts_evaluation =
  ex_opts_def ex_yaml_def wf_map_def printable_single_line printable_def byte_def shell_safe_def
  UnregisteredNoExecuteTaint_def serializeTaintsYAML_def serializeLabels_def map_read_def

lemma ex_generates:
  "Generate ex_yaml ex_opts = Inr (render ex_opts ''registerWithTaints: []'' ''a=1,b=2'')"
proof -
  have "first_error validateSingleLine (concat (map taint_fields (ud_Taints ex_opts))) = None"
    unfolding sl.first_error_None by (simp add: taint_fields_def ex_opts_evaluation)
  moreover have "validateSingleLine w (ud_ClusterEndpoint ex_opts) = None" for w
    by (simp add: sl.accepts ex_opts_evaluation)
  moreover have "serializeLabels (ud_Labels ex_opts) = ''a=1,b=2''"
    by (simp add: ex_opts_evaluation)
  moreover have "validateSingleLine w ''a=1,b=2'' = None" and "validateShellSafe w ''a=1,b=2'' = None" for w
    by (simp_all add: sl.accepts ss.accepts ex_opts_evaluation)
  moreover have "serializeTaintsYAML ex_yaml (ud_Taints ex_opts) = Inr ''registerWithTaints: []''"
    by (simp add: ex_opts_evaluation)
  ultimately show ?thesis by (simp add: Generate_def)
qed

theorem Generate_succeeds_iff_witness:
  "Generate ex_yaml ex_opts = Inr (render ex_opts ''registerWithTaints: []'' ''a=1,b=2'')"
  by (subst Generate_succeeds_iff) (simp_all add: ex_opts_evaluation)



text \<open>
  C32. The shell sees the label list as data: in every generated document the list stands, quoted,
  as the value assigned to \<^verbatim>\<open>NODE_LABELS\<close>; the shell reads the quoted text back as exactly
  the list; and when the script later puts it between double quotes nothing in it is
  interpreted.
\<close>

theorem Generate_labels_are_data:
  assumes "Generate yaml opts = Inr out"
  shows "\<exists>pre post. out = pre @ newline # (''    NODE_LABELS=''
             @ shellSingleQuote (serializeLabels (ud_Labels opts))) @ newline # post
    \<and> sh_word False (shellSingleQuote (serializeLabels (ud_Labels opts)) @ newline # post)
        = Some (serializeLabels (ud_Labels opts), newline # post)
    \<and> dq_value (serializeLabels (ud_Labels opts) @ dquote # post)
        = Some (serializeLabels (ud_Labels opts), post)"
proof -
  let ?l = "serializeLabels (ud_Labels opts)"
  from assms obtain y where safe: "shell_safe ?l" and out: "out = render opts y ?l"
    by (rule Generate_checked)
  obtain pre post where "out = pre @ newline # (''    NODE_LABELS='' @ shellSingleQuote ?l) @ newline # post"
    using render_labels_line [of opts y ?l] out by blast
  moreover have "sh_word False (shellSingleQuote ?l @ newline # post) = Some (?l, newline # post)"
    by (simp add: shellSingleQuote_def sh_word_quoted_body)
  moreover have "dq_value (?l @ dquote # post) = Some (?l, post)" by (rule dq_value_safe [OF safe])
  ultimately show ?thesis by blast
qed

theorem Generate_labels_are_data_witness:
  "\<exists>post. sh_word False (shellSingleQuote ''a=1,b=2'' @ newline # post) = Some (''a=1,b=2'', newline # post)
     \<and> dq_value (''a=1,b=2'' @ dquote # post) = Some (''a=1,b=2'', post)"
proof -
  have "serializeLabels (ud_Labels ex_opts) = ''a=1,b=2''" by (simp add: ex_opts_evaluation)
  then show ?thesis using Generate_labels_are_data [OF ex_generates] by metis
qed

text \<open>
  C33. The files the document writes are the ones given: the base64 content of the certificate
  authority, the client certificate and the client key decodes to the option it came from.
\<close>

theorem Generate_files_roundtrip:
  assumes "Generate yaml opts = Inr out"
  shows "\<exists>ca crt key.
      Split out newline ! 7 = ''    content: '' @ ca \<and> decode64 ca = Some (ud_CACertPEM opts)
    \<and> Split out newline ! 10 = ''    content: '' @ crt \<and> decode64 crt = Some (ud_KubeletClientCert opts)
    \<and> Split out newline ! 13 = ''    content: '' @ key \<and> decode64 key = Some (ud_KubeletClientKey opts)"
proof -
  from assms obtain y where "single_line (ud_ClusterEndpoint opts)"
    and "single_line (serializeLabels (ud_Labels opts))"
    and "out = render opts y (serializeLabels (ud_Labels opts))"
    by (rule Generate_checked)
  then have "Split out newline = document_lines opts y" using Split_render by simp
  then show ?thesis by (simp add: document_lines_def cloud_init_head_def decode_encode64)
qed

theorem Generate_files_roundtrip_witness:
  "\<exists>key. Split (render ex_opts ''registerWithTaints: []'' ''a=1,b=2'') newline ! 13 = ''    content: '' @ key
     \<and> decode64 key = Some ''KEY''"
proof -
  have "ud_KubeletClientKey ex_opts = ''KEY''" by (simp add: ex_opts_def)
  then show ?thesis using Generate_files_roundtrip [OF ex_generates] by metis
qed

text \<open>
  Two label maps whose keys hold no comma or equals sign and whose values hold no comma are
  serialised alike exactly where they hold the same labels: the text depends neither on the order
  in which a map is traversed nor can it confuse two sets of labels.
\<close>

theorem serializeLabels_eq_iff:
  assumes "wf_map m" and "wf_map m'"
    and "\<forall>(k, v) \<in> set (map_entries m). set k \<inter> {CHR '','', CHR ''=''} = {} \<and> CHR '','' \<notin> set v"
    and "\<forall>(k, v) \<in> set (map_entries m'). set k \<inter> {CHR '','', CHR ''=''} = {} \<and> CHR '','' \<notin> set v"
  shows "serializeLabels m = serializeLabels m' \<longleftrightarrow> map_get m = map_get m'"
proof
  assume eq: "map_get m = map_get m'"
  have "map_entries m = [] \<longleftrightarrow> map_entries m' = []"
    using dom_map_get [of m] dom_map_get [of m'] eq by auto
  then show "serializeLabels m = serializeLabels m'"
    using sorted_keys_unique [OF assms(1,2) eq] eq by (simp add: serializeLabels_def Let_def map_read_def)
next
  assume "serializeLabels m = serializeLabels m'"
  then have "map_of (map (\<lambda>k. (k, map_read m k)) (sort (map fst (map_entries m))))
      = map_of (map (\<lambda>k. (k, map_read m' k)) (sort (map fst (map_entries m'))))"
    using parse_serializeLabels [OF assms(1,3)] parse_serializeLabels [OF assms(2,4)] by simp
  then show "map_get m = map_get m'" unfolding map_of_sorted_entries .
qed

theorem serializeLabels_eq_iff_witness:
  "serializeLabels (Some [(''b'', ''2''), (''a'', ''1'')]) = serializeLabels (Some [(''a'', ''1''), (''b'', ''2'')])"
  by (subst serializeLabels_eq_iff) (auto simp: wf_map_def fun_eq_iff)

end
