(* ===== verification/Kubelet_Cert.thy ===== *)
theory Kubelet_Cert
  imports World UserData
begin

text \<open>
  The helpers of the cloud provider, \<^verbatim>\<open>pkg/cloudprovider/helpers.go\<close>: the cluster's CA
  bundle and the kubelet's client certificate, obtained by creating a certificate signing
  request, approving it and waiting for the signature.

  What is imported is a parameter: \<open>crypto\<close> gives the random RSA key and the request signed
  with it; \<open>poll\<close> is \<^verbatim>\<open>wait.PollUntilContextTimeout\<close> with the interval and timeout the
  code passes. It takes the condition, a program that updates the variable \<^verbatim>\<open>signedCert\<close> the
  Go closure captures. The hypothesis \<open>polls\<close> states its documented behaviour by the relation
  \<open>poll_run\<close>: the condition is called at once and then again until it returns true or an
  error, or time is up. The time stamps of the approval condition are left out.
\<close>

section \<open>Definitions\<close>

record crypto =
  cr_GenerateKey :: "history \<Rightarrow> goerror + string"
  cr_CreateCertificateRequest :: "history \<Rightarrow> string \<Rightarrow> string list \<Rightarrow> string \<Rightarrow> goerror + string"

type_synonym poll_condition = "string \<Rightarrow> ((goerror + bool) \<times> string) prog"
type_synonym poller = "poll_condition \<Rightarrow> string \<Rightarrow> (goerror option \<times> string) prog"

definition getCABundle :: "kube_client \<Rightarrow> (goerror + string) prog" where
  "getCABundle c =
     do {
       r \<leftarrow> GetConfigMap c ''kube-system'' ''kube-root-ca.crt'';
       (case r of
          Inl err \<Rightarrow> ret (Inl (Wrapf ''getting kube-root-ca.crt'' err))
        | Inr cm \<Rightarrow>
            (case map_get (cm_Data cm) ''ca.crt'' of
               None \<Rightarrow> ret (Inl (ErrText ''ca.crt not found in kube-root-ca.crt''))
             | Some caCert \<Rightarrow> ret (Inr caCert)))
     }"

record kubeletCertBundle =
  kcb_ClientCertPEM :: string
  kcb_ClientKeyPEM :: string

text \<open>\<^verbatim>\<open>pem.EncodeToMemory\<close> of a block without headers: lines of 64 base64 characters.\<close>

fun pem_lines :: "nat \<Rightarrow> string \<Rightarrow> string" where
  "pem_lines 0 s = ''''"
| "pem_lines (Suc n) s = (if s = '''' then '''' else take 64 s @ [newline] @ pem_lines n (drop 64 s))"

definition EncodeToMemory :: "string \<Rightarrow> string \<Rightarrow> string" where
  "EncodeToMemory ty bytes =
     (let body = encode64 bytes in
      ''-----BEGIN '' @ ty @ ''-----'' @ [newline] @ pem_lines (length body) body
      @ ''-----END '' @ ty @ ''-----'' @ [newline])"

text \<open>The loop over the conditions: the two flags at its end.\<close>

fun csr_flags :: "CSRCondition list \<Rightarrow> bool \<Rightarrow> bool \<Rightarrow> bool \<times> bool" where
  "csr_flags [] approved denied = (approved, denied)"
| "csr_flags (c # cs) approved denied =
     csr_flags cs (if csrc_Type c = CertificateApproved then True else approved)
       (if csrc_Type c = CertificateDenied then True else denied)"

definition approval :: CSRCondition where
  "approval = \<lparr>csrc_Type = CertificateApproved, csrc_Status = ConditionTrue,
     csrc_Reason = ''KarpenterAutoApproved'', csrc_Message = ''Auto-approved by Karpenter UpCloud provider''\<rparr>"

text \<open>The closure passed to the poll; its argument and second result are \<^verbatim>\<open>signedCert\<close>.\<close>

definition cert_condition :: "csr_client \<Rightarrow> string \<Rightarrow> poll_condition" where
  "cert_condition kc csrName signedCert =
     do {
       r \<leftarrow> GetCSR kc csrName;
       (case r of
          Inl err \<Rightarrow> ret (Inl err, signedCert)
        | Inr updated \<Rightarrow>
            if 0 < length (csr_Certificate updated) then ret (Inr True, csr_Certificate updated)
            else ret (Inr False, signedCert))
     }"

definition await_cert :: "poller \<Rightarrow> csr_client \<Rightarrow> string \<Rightarrow> string \<Rightarrow> (goerror + kubeletCertBundle) prog" where
  "await_cert poll kc csrName keyPEM =
     do {
       (pollErr, signedCert) \<leftarrow> poll (cert_condition kc csrName) '''';
       (case pollErr of
          Some e \<Rightarrow> ret (Inl (Wrapf (''waiting for CSR '' @ csrName @ '' to be signed'') e))
        | None \<Rightarrow> ret (Inr \<lparr>kcb_ClientCertPEM = signedCert, kcb_ClientKeyPEM = keyPEM\<rparr>))
     }"

text \<open>From the re-fetch on: respect a decision, approve otherwise, and wait.\<close>

definition approve_and_wait :: "poller \<Rightarrow> csr_client \<Rightarrow> string \<Rightarrow> string \<Rightarrow> (goerror + kubeletCertBundle) prog" where
  "approve_and_wait poll kc csrName keyPEM =
     do {
       r \<leftarrow> GetCSR kc csrName;
       (case r of
          Inl err \<Rightarrow> ret (Inl (Wrapf ''getting CSR for approval'' err))
        | Inr fresh \<Rightarrow>
            (case csr_flags (csr_Conditions fresh) False False of
               (alreadyApproved, alreadyDenied) \<Rightarrow>
                 if alreadyDenied then ret (Inl (ErrText (''CSR '' @ csrName @ '' was denied'')))
                 else if \<not> alreadyApproved then
                   do {
                     u \<leftarrow> UpdateApproval kc csrName (fresh\<lparr>csr_Conditions := csr_Conditions fresh @ [approval]\<rparr>);
                     (case u of
                        Inl err \<Rightarrow> ret (Inl (Wrapf ''approving CSR'' err))
                      | Inr _ \<Rightarrow> await_cert poll kc csrName keyPEM)
                   }
                 else await_cert poll kc csrName keyPEM))
     }"

definition kubelet_csr :: "string \<Rightarrow> string \<Rightarrow> CSR" where
  "kubelet_csr csrName csrPEM =
     \<lparr>csr_Name = csrName, csr_Request = csrPEM, csr_SignerName = KubeAPIServerClientKubeletSignerName,
      csr_Usages = [''digital signature'', ''key encipherment'', ''client auth''],
      csr_Conditions = [], csr_Certificate = ''''\<rparr>"

definition generateKubeletCert ::
  "crypto \<Rightarrow> poller \<Rightarrow> csr_client \<Rightarrow> string \<Rightarrow> (goerror + kubeletCertBundle) prog" where
  "generateKubeletCert cr poll kc nodeName =
     do {
       k \<leftarrow> call EKeyPair (cr_GenerateKey cr);
       (case k of
          Inl err \<Rightarrow> ret (Inl (Wrapf ''generating RSA key'' err))
        | Inr key \<Rightarrow>
            do {
              d \<leftarrow> call EKeyPair (\<lambda>h. cr_CreateCertificateRequest cr h (''system:node:'' @ nodeName) [''system:nodes''] key);
              (case d of
                 Inl err \<Rightarrow> ret (Inl (Wrapf ''creating CSR'' err))
               | Inr csrDER \<Rightarrow>
                   do {
                     r \<leftarrow> CreateCSR kc (kubelet_csr (''kubelet-'' @ nodeName) (EncodeToMemory ''CERTIFICATE REQUEST'' csrDER));
                     (case r of
                        Inl err \<Rightarrow> ret (Inl (Wrapf ''creating CSR'' err))
                      | Inr _ \<Rightarrow>
                          approve_and_wait poll kc (''kubelet-'' @ nodeName) (EncodeToMemory ''RSA PRIVATE KEY'' key))
                   })
            })
     }"

section \<open>What polling promises\<close>

inductive poll_run :: "poll_condition \<Rightarrow> string \<Rightarrow> history \<Rightarrow> (goerror option \<times> string) \<times> history \<Rightarrow> bool"
  for cond where
  poll_done: "run_state (cond s) h = ((Inr True, s'), h') \<Longrightarrow> poll_run cond s h ((None, s'), h')"
| poll_error: "run_state (cond s) h = ((Inl e, s'), h') \<Longrightarrow> poll_run cond s h ((Some e, s'), h')"
| poll_timeout: "run_state (cond s) h = ((Inr False, s'), h') \<Longrightarrow> poll_run cond s h ((Some e, s'), h')"
| poll_again: "run_state (cond s) h = ((Inr False, s'), h') \<Longrightarrow> poll_run cond s' h' r \<Longrightarrow> poll_run cond s h r"

inductive_cases poll_runE: "poll_run cond s h r"

definition polls :: "poller \<Rightarrow> bool" where
  "polls poll \<longleftrightarrow> (\<forall>cond s h. poll_run cond s h (run_state (poll cond s) h))"

text \<open>The poller that gives up after a fixed number of attempts satisfies it.\<close>

fun poll_fuel :: "nat \<Rightarrow> poller" where
  "poll_fuel n cond s =
     do {
       (r, s') \<leftarrow> cond s;
       (case r of
          Inl e \<Rightarrow> ret (Some e, s')
        | Inr b \<Rightarrow>
            if b then ret (None, s')
            else (case n of 0 \<Rightarrow> ret (Some (ErrText ''context deadline exceeded''), s')
                  | Suc m \<Rightarrow> poll_fuel m cond s'))
     }"

declare poll_fuel.simps [simp del]

text \<open>The body of a PEM block is written out in full: fuel beyond its length changes nothing.\<close>

lemma pem_lines_fuel: "length s \<le> n \<Longrightarrow> length s \<le> m \<Longrightarrow> pem_lines n s = pem_lines m s"
proof (induction n arbitrary: s m)
  case 0
  then show ?case by (cases m) simp_all
next
  case (Suc n)
  show ?case
  proof (cases "s = ''''")
    case False
    then obtain k where "m = Suc k" using Suc.prems(2) by (cases m) simp_all
    moreover have "pem_lines n (drop 64 s) = pem_lines k (drop 64 s)"
      using Suc False \<open>m = Suc k\<close> by (intro Suc.IH) simp_all
    ultimately show ?thesis by simp
  qed (cases m, simp_all)
qed

lemma poll_fuel_polls: "polls (poll_fuel n)"
proof -
  have "poll_run cond s h (run_state (poll_fuel n cond s) h)" for cond s h
  proof (induction n arbitrary: s h)
    case 0
    obtain r s' h' where "run_state (cond s) h = ((r, s'), h')" by (metis prod.exhaust)
    then show ?case
      by (cases r) (auto simp: poll_fuel.simps [of 0] intro: poll_run.intros)
  next
    case (Suc m)
    obtain r s' h' where "run_state (cond s) h = ((r, s'), h')" by (metis prod.exhaust)
    then show ?case
      using Suc.IH [of s' h'] by (cases r) (auto simp: poll_fuel.simps [of "Suc m"] intro: poll_run.intros)
  qed
  then show ?thesis by (simp add: polls_def)
qed

text \<open>What a poll leaves behind: the calls its condition makes, and, where it succeeds, the state a true answer left.\<close>

lemma poll_run_events:
  assumes "poll_run cond s h r" and "\<And>s. emits P (cond s)"
  shows "\<exists>evs. snd r = h @ evs \<and> list_all P evs"
  using assms(1)
proof (induction rule: poll_run.induct)
  case (poll_again s h s' h' r)
  obtain evs where "h' = h @ evs" "list_all P evs"
    using assms(2) poll_again.hyps(1) by (rule emits_extends)
  then show ?case using poll_again.IH by auto
qed (use assms(2) in \<open>auto elim!: emits_extends\<close>)

lemma polls_emits:
  assumes "polls poll" and "\<And>s. emits P (cond s)"
  shows "emits P (poll cond s)"
proof (rule emitsI)
  fix h
  have "poll_run cond s h (run_state (poll cond s) h)" using assms(1) unfolding polls_def by blast
  from poll_run_events [OF this assms(2)]
  show "\<exists>evs. snd (run_state (poll cond s) h) = h @ evs \<and> list_all P evs" .
qed

lemma poll_run_success:
  assumes "poll_run cond s h ((None, c), h')"
  shows "\<exists>s0 h0. run_state (cond s0) h0 = ((Inr True, c), h')"
proof -
  have "fst (fst r) = None \<Longrightarrow> \<exists>s0 h0. run_state (cond s0) h0 = ((Inr True, snd (fst r)), snd r)"
    if "poll_run cond s h r" for r
    using that by (induction rule: poll_run.induct) auto
  from this [OF assms] show ?thesis by simp
qed

lemma poll_run_immediate:
  assumes "poll_run cond s h r" and "run_state (cond s) h = ((Inr True, c), h')"
  shows "r = ((None, c), h')"
  using assms by (auto elim: poll_runE)

section \<open>The condition\<close>

lemma emits_cert_condition: "emits (\<lambda>e. e = EGetCSR n) (cert_condition kc n s)"
  by (auto simp: cert_condition_def call_defs intro!: emits_rules)

lemma cert_condition_true:
  "run_state (cert_condition kc n s) h = ((Inr True, c), h') \<longleftrightarrow>
     (\<exists>u. c_Get kc h n = Inr u \<and> c = csr_Certificate u \<and> c \<noteq> '''' \<and> h' = h @ [EGetCSR n])"
  by (auto simp: cert_condition_def call_defs split: sum.splits)

lemma await_cert_success:
  assumes "polls poll" and "fst (run_state (await_cert poll kc n key) h) = Inr b"
  shows "kcb_ClientKeyPEM b = key \<and> kcb_ClientCertPEM b \<noteq> ''''
    \<and> (\<exists>h0 u. c_Get kc h0 n = Inr u \<and> csr_Certificate u = kcb_ClientCertPEM b)"
proof -
  obtain perr c h' where run: "run_state (poll (cert_condition kc n) '''') h = ((perr, c), h')"
    by (metis prod.exhaust)
  then have "perr = None" and b: "b = \<lparr>kcb_ClientCertPEM = c, kcb_ClientKeyPEM = key\<rparr>"
    using assms(2) by (auto simp: await_cert_def split: option.splits)
  moreover have "poll_run (cert_condition kc n) '''' h ((perr, c), h')"
    using assms(1) run unfolding polls_def by metis
  ultimately have "\<exists>s0 h0. run_state (cert_condition kc n s0) h0 = ((Inr True, c), h')"
    by (intro poll_run_success) simp
  then show ?thesis unfolding cert_condition_true b by auto
qed

lemma await_cert_events:
  assumes "polls poll"
  shows "\<exists>evs. snd (run_state (await_cert poll kc n key) h) = h @ evs \<and> list_all (\<lambda>e. e = EGetCSR n) evs"
proof -
  obtain perr c h' where run: "run_state (poll (cert_condition kc n) '''') h = ((perr, c), h')"
    by (metis prod.exhaust)
  have "poll_run (cert_condition kc n) '''' h ((perr, c), h')"
    using assms run unfolding polls_def by metis
  from poll_run_events [OF this emits_cert_condition] show ?thesis
    using run by (auto simp: await_cert_def split: option.splits)
qed

lemma csr_flags_eq:
  "csr_flags cs a d =
     (a \<or> (\<exists>c \<in> set cs. csrc_Type c = CertificateApproved), d \<or> (\<exists>c \<in> set cs. csrc_Type c = CertificateDenied))"
  by (induction cs arbitrary: a d) auto

definition has_decision :: "string \<Rightarrow> CSR \<Rightarrow> bool" where
  "has_decision ty r \<longleftrightarrow> (\<exists>c \<in> set (csr_Conditions r). csrc_Type c = ty)"

lemma approve_and_wait_run:
  "run_state (approve_and_wait poll kc n key) h =
     (case c_Get kc h n of
        Inl e \<Rightarrow> (Inl (Wrapf ''getting CSR for approval'' e), h @ [EGetCSR n])
      | Inr fresh \<Rightarrow>
          if has_decision CertificateDenied fresh then (Inl (ErrText (''CSR '' @ n @ '' was denied'')), h @ [EGetCSR n])
          else if has_decision CertificateApproved fresh then run_state (await_cert poll kc n key) (h @ [EGetCSR n])
          else (let r = fresh\<lparr>csr_Conditions := csr_Conditions fresh @ [approval]\<rparr> in
                case c_UpdateApproval kc (h @ [EGetCSR n]) n r of
                  Inl e \<Rightarrow> (Inl (Wrapf ''approving CSR'' e), h @ [EGetCSR n, EUpdateApproval n r])
                | Inr _ \<Rightarrow> run_state (await_cert poll kc n key) (h @ [EGetCSR n, EUpdateApproval n r])))"
  by (simp add: approve_and_wait_def call_defs csr_flags_eq has_decision_def Let_def split: sum.split)

text \<open>The run up to the re-fetch.\<close>

lemma generateKubeletCert_run:
  "run_state (generateKubeletCert cr poll kc nodeName) h =
     (case cr_GenerateKey cr h of
        Inl e \<Rightarrow> (Inl (Wrapf ''generating RSA key'' e), h @ [EKeyPair])
      | Inr key \<Rightarrow>
     (case cr_CreateCertificateRequest cr (h @ [EKeyPair]) (''system:node:'' @ nodeName) [''system:nodes''] key of
        Inl e \<Rightarrow> (Inl (Wrapf ''creating CSR'' e), h @ [EKeyPair, EKeyPair])
      | Inr der \<Rightarrow>
          (let r = kubelet_csr (''kubelet-'' @ nodeName) (EncodeToMemory ''CERTIFICATE REQUEST'' der) in
           case c_Create kc (h @ [EKeyPair, EKeyPair]) r of
             Inl e \<Rightarrow> (Inl (Wrapf ''creating CSR'' e), h @ [EKeyPair, EKeyPair, ECreateCSR r])
           | Inr _ \<Rightarrow> run_state (approve_and_wait poll kc (''kubelet-'' @ nodeName) (EncodeToMemory ''RSA PRIVATE KEY'' key))
                        (h @ [EKeyPair, EKeyPair, ECreateCSR r]))))"
  by (simp add: generateKubeletCert_def call_defs Let_def split: sum.split)

fun is_approval :: "event \<Rightarrow> bool" where
  "is_approval (EUpdateApproval _ _) = True"
| "is_approval _ = False"

lemma generateKubeletCert_prefix:
  "(\<exists>evs. snd (run_state (generateKubeletCert cr poll kc nodeName) h) = h @ evs \<and> list_all (\<lambda>e. \<not> is_approval e) evs)
   \<or> (\<exists>pre key. list_all (\<lambda>e. \<not> is_approval e) pre \<and> run_state (generateKubeletCert cr poll kc nodeName) h
        = run_state (approve_and_wait poll kc (''kubelet-'' @ nodeName) key) (h @ pre))"
proof (cases "cr_GenerateKey cr h")
  case (Inr key)
  note key = Inr
  show ?thesis
  proof (cases "cr_CreateCertificateRequest cr (h @ [EKeyPair]) (''system:node:'' @ nodeName) [''system:nodes''] key")
    case (Inr der)
    let ?r = "kubelet_csr (''kubelet-'' @ nodeName) (EncodeToMemory ''CERTIFICATE REQUEST'' der)"
    let ?pre = "[EKeyPair, EKeyPair, ECreateCSR ?r]"
    show ?thesis
    proof (cases "c_Create kc (h @ [EKeyPair, EKeyPair]) ?r")
      case (Inr r)
      then have "run_state (generateKubeletCert cr poll kc nodeName) h = run_state
          (approve_and_wait poll kc (''kubelet-'' @ nodeName) (EncodeToMemory ''RSA PRIVATE KEY'' key)) (h @ ?pre)"
        using key \<open>_ = Inr der\<close> by (simp add: generateKubeletCert_run)
      moreover have "list_all (\<lambda>e. \<not> is_approval e) ?pre" by simp
      ultimately show ?thesis by blast
    qed (use key Inr in \<open>simp add: generateKubeletCert_run\<close>)
  qed (use key in \<open>simp add: generateKubeletCert_run\<close>)
qed (simp add: generateKubeletCert_run)

definition approvals_ok :: "csr_client \<Rightarrow> string \<Rightarrow> history \<Rightarrow> bool" where
  "approvals_ok kc n evs \<longleftrightarrow>
     length (filter is_approval evs) \<le> 1
     \<and> (\<forall>m r. EUpdateApproval m r \<in> set evs \<longrightarrow> m = n
          \<and> (\<exists>h0 fresh. c_Get kc h0 m = Inr fresh
               \<and> \<not> has_decision CertificateApproved fresh \<and> \<not> has_decision CertificateDenied fresh
               \<and> r = fresh\<lparr>csr_Conditions := csr_Conditions fresh @ [approval]\<rparr>))"

lemma approvals_ok_none: "list_all (\<lambda>e. \<not> is_approval e) evs \<Longrightarrow> approvals_ok kc n evs"
  unfolding approvals_ok_def by (auto simp: list_all_iff filter_empty_conv)

lemma approvals_ok_one:
  assumes "list_all (\<lambda>e. \<not> is_approval e) pre" and "list_all (\<lambda>e. e = EGetCSR n) gets"
    and "c_Get kc h0 n = Inr fresh"
    and "\<not> has_decision CertificateDenied fresh" and "\<not> has_decision CertificateApproved fresh"
  shows "approvals_ok kc n (pre @ EGetCSR n # EUpdateApproval n (fresh\<lparr>csr_Conditions := csr_Conditions fresh @ [approval]\<rparr>) # gets)"
proof -
  let ?r = "fresh\<lparr>csr_Conditions := csr_Conditions fresh @ [approval]\<rparr>"
  have quiet: "filter is_approval pre = []" "filter is_approval gets = []"
    using assms(1,2) by (auto simp: list_all_iff filter_empty_conv)
  have "EUpdateApproval m r \<notin> set pre" and "EUpdateApproval m r \<notin> set gets" for m r
    using assms(1,2) by (auto simp: list_all_iff)
  then have "EUpdateApproval m r \<in> set (pre @ EGetCSR n # EUpdateApproval n ?r # gets) \<longleftrightarrow> m = n \<and> r = ?r" for m r
    by auto
  then show ?thesis unfolding approvals_ok_def using quiet assms(3-5) by auto
qed

lemma approve_and_wait_events:
  assumes "polls poll"
  obtains gets where "list_all (\<lambda>e. e = EGetCSR n) gets"
    and "snd (run_state (approve_and_wait poll kc n key) h) = h @ EGetCSR n # gets
      \<or> (\<exists>fresh. c_Get kc h n = Inr fresh \<and> \<not> has_decision CertificateDenied fresh \<and> \<not> has_decision CertificateApproved fresh
          \<and> snd (run_state (approve_and_wait poll kc n key) h) =
              h @ EGetCSR n # EUpdateApproval n (fresh\<lparr>csr_Conditions := csr_Conditions fresh @ [approval]\<rparr>) # gets)"
proof (cases "c_Get kc h n")
  case (Inl e)
  then show ?thesis using that [of "[]"] by (simp add: approve_and_wait_run)
next
  case (Inr fresh)
  let ?r = "fresh\<lparr>csr_Conditions := csr_Conditions fresh @ [approval]\<rparr>"
  obtain g1 where g1: "snd (run_state (await_cert poll kc n key) (h @ [EGetCSR n])) = (h @ [EGetCSR n]) @ g1"
    "list_all (\<lambda>e. e = EGetCSR n) g1" using await_cert_events [OF assms] by blast
  obtain g2 where g2: "snd (run_state (await_cert poll kc n key) (h @ [EGetCSR n, EUpdateApproval n ?r]))
      = (h @ [EGetCSR n, EUpdateApproval n ?r]) @ g2" "list_all (\<lambda>e. e = EGetCSR n) g2"
    using await_cert_events [OF assms] by blast
  consider "has_decision CertificateDenied fresh"
    | "\<not> has_decision CertificateDenied fresh" "has_decision CertificateApproved fresh"
    | e where "\<not> has_decision CertificateDenied fresh" "\<not> has_decision CertificateApproved fresh"
        "c_UpdateApproval kc (h @ [EGetCSR n]) n ?r = Inl e"
    | r where "\<not> has_decision CertificateDenied fresh" "\<not> has_decision CertificateApproved fresh"
        "c_UpdateApproval kc (h @ [EGetCSR n]) n ?r = Inr r"
    by (cases "c_UpdateApproval kc (h @ [EGetCSR n]) n ?r") blast+
  then show ?thesis
  proof cases
    case 1
    then show ?thesis using that [of "[]"] Inr by (simp add: approve_and_wait_run)
  next
    case 2
    then show ?thesis using that [of g1] Inr g1 by (simp add: approve_and_wait_run)
  next
    case 3
    then show ?thesis using that [of "[]"] Inr by (simp add: approve_and_wait_run)
  next
    case 4
    then show ?thesis using that [of g2] Inr g2 by (simp add: approve_and_wait_run)
  qed
qed

lemma approve_and_wait_ok:
  assumes "polls poll" and "list_all (\<lambda>e. \<not> is_approval e) pre"
    and run: "h @ evs = snd (run_state (approve_and_wait poll kc n key) (h @ pre))"
  shows "approvals_ok kc n evs"
proof -
  obtain gets where gets: "list_all (\<lambda>e. e = EGetCSR n) gets"
    and "snd (run_state (approve_and_wait poll kc n key) (h @ pre)) = (h @ pre) @ EGetCSR n # gets
      \<or> (\<exists>fresh. c_Get kc (h @ pre) n = Inr fresh \<and> \<not> has_decision CertificateDenied fresh \<and> \<not> has_decision CertificateApproved fresh
          \<and> snd (run_state (approve_and_wait poll kc n key) (h @ pre)) =
              (h @ pre) @ EGetCSR n # EUpdateApproval n (fresh\<lparr>csr_Conditions := csr_Conditions fresh @ [approval]\<rparr>) # gets)"
    by (rule approve_and_wait_events [OF assms(1)])
  then consider "evs = pre @ EGetCSR n # gets"
    | fresh where "c_Get kc (h @ pre) n = Inr fresh" "\<not> has_decision CertificateDenied fresh"
        "\<not> has_decision CertificateApproved fresh"
        "evs = pre @ EGetCSR n # EUpdateApproval n (fresh\<lparr>csr_Conditions := csr_Conditions fresh @ [approval]\<rparr>) # gets"
    unfolding run [symmetric] append.assoc same_append_eq by blast
  then show ?thesis
  proof cases
    case 1
    then show ?thesis using assms(2) gets by (intro approvals_ok_none) (auto simp: list_all_iff)
  next
    case 2
    then show ?thesis using approvals_ok_one [OF assms(2) gets] by blast
  qed
qed

section \<open>Examples\<close>

definition ex_crypto :: crypto where
  "ex_crypto = \<lparr>cr_GenerateKey = \<lambda>_. Inr ''K'', cr_CreateCertificateRequest = \<lambda>_ _ _ _. Inr ''R''\<rparr>"

text \<open>A cluster that signs every request at once.\<close>

definition ex_csr :: csr_client where
  "ex_csr = down_csr\<lparr>c_Create := \<lambda>_ r. Inr r, c_UpdateApproval := \<lambda>_ _ r. Inr r,
     c_Get := \<lambda>_ n. Inr \<lparr>csr_Name = n, csr_Request = '''', csr_SignerName = '''', csr_Usages = [],
        csr_Conditions = [], csr_Certificate = ''CERT''\<rparr>\<rparr>"

lemma ex_cert_run:
  "fst (run_state (generateKubeletCert ex_crypto (poll_fuel 45) ex_csr ''n1'') [])
     = Inr \<lparr>kcb_ClientCertPEM = ''CERT'', kcb_ClientKeyPEM = EncodeToMemory ''RSA PRIVATE KEY'' ''K''\<rparr>"
  by (simp add: generateKubeletCert_run approve_and_wait_run await_cert_def cert_condition_def call_defs
      poll_fuel.simps ex_crypto_def ex_csr_def has_decision_def Let_def)

section \<open>Properties\<close>

text \<open>
  C38. A certificate the provider uses is one the cluster issued: where the function succeeds, the
  certificate is not empty and was read from the signing request of this node, and the key is the
  one the request was made with.
\<close>

theorem cert_was_issued:
  assumes "polls poll" and "fst (run_state (generateKubeletCert cr poll kc nodeName) h) = Inr b"
  shows "kcb_ClientCertPEM b \<noteq> ''''
    \<and> (\<exists>h0 u. c_Get kc h0 (''kubelet-'' @ nodeName) = Inr u \<and> csr_Certificate u = kcb_ClientCertPEM b)
    \<and> (\<exists>key der. cr_GenerateKey cr h = Inr key \<and> kcb_ClientKeyPEM b = EncodeToMemory ''RSA PRIVATE KEY'' key
        \<and> cr_CreateCertificateRequest cr (h @ [EKeyPair]) (''system:node:'' @ nodeName) [''system:nodes''] key = Inr der)"
proof -
  let ?n = "''kubelet-'' @ nodeName"
  obtain key der h1 where kd: "cr_GenerateKey cr h = Inr key"
      "cr_CreateCertificateRequest cr (h @ [EKeyPair]) (''system:node:'' @ nodeName) [''system:nodes''] key = Inr der"
    and "fst (run_state (approve_and_wait poll kc ?n (EncodeToMemory ''RSA PRIVATE KEY'' key)) h1) = Inr b"
    using assms(2) by (auto simp: generateKubeletCert_run Let_def split: sum.splits)
  then obtain h2 where "fst (run_state (await_cert poll kc ?n (EncodeToMemory ''RSA PRIVATE KEY'' key)) h2) = Inr b"
    by (auto simp: approve_and_wait_run Let_def split: sum.splits if_splits)
  from await_cert_success [OF assms(1) this] kd show ?thesis by blast
qed

theorem cert_was_issued_witness:
  "\<exists>h0 u. c_Get ex_csr h0 ''kubelet-n1'' = Inr u \<and> csr_Certificate u = ''CERT''"
  using cert_was_issued [OF poll_fuel_polls ex_cert_run] by simp

text \<open>
  C39. The provider approves only its own undecided request, and at most once: every approval it
  writes is for this node's request, of which the copy it had just read carried neither an
  approval nor a denial, and adds exactly its own condition to that copy.
\<close>

theorem approval_safe:
  assumes "polls poll" and "run_state (generateKubeletCert cr poll kc nodeName) h = (res, h @ evs)"
  shows "length (filter is_approval evs) \<le> 1
    \<and> (\<forall>n r. EUpdateApproval n r \<in> set evs \<longrightarrow> n = ''kubelet-'' @ nodeName
        \<and> (\<exists>h0 fresh. c_Get kc h0 n = Inr fresh
             \<and> (\<forall>c \<in> set (csr_Conditions fresh). csrc_Type c \<noteq> CertificateApproved \<and> csrc_Type c \<noteq> CertificateDenied)
             \<and> r = fresh\<lparr>csr_Conditions := csr_Conditions fresh @ [approval]\<rparr>))"
proof -
  let ?n = "''kubelet-'' @ nodeName"
  have snd: "snd (run_state (generateKubeletCert cr poll kc nodeName) h) = h @ evs" using assms(2) by simp
  from generateKubeletCert_prefix [of cr poll kc nodeName h]
  have "approvals_ok kc ?n evs"
  proof
    assume "\<exists>evs. snd (run_state (generateKubeletCert cr poll kc nodeName) h) = h @ evs \<and> list_all (\<lambda>e. \<not> is_approval e) evs"
    then show ?thesis using snd by (intro approvals_ok_none) auto
  next
    assume "\<exists>pre key. list_all (\<lambda>e. \<not> is_approval e) pre \<and> run_state (generateKubeletCert cr poll kc nodeName) h
        = run_state (approve_and_wait poll kc ?n key) (h @ pre)"
    then obtain pre key where pre: "list_all (\<lambda>e. \<not> is_approval e) pre"
      and run: "h @ evs = snd (run_state (approve_and_wait poll kc ?n key) (h @ pre))"
      using snd by metis
    from approve_and_wait_ok [OF assms(1) this] show ?thesis .
  qed
  then show ?thesis unfolding approvals_ok_def has_decision_def by blast
qed

theorem approval_safe_witness:
  "\<exists>evs. snd (run_state (generateKubeletCert ex_crypto (poll_fuel 45) ex_csr ''n1'') []) = [] @ evs
     \<and> length (filter is_approval evs) \<le> 1"
  using approval_safe [OF poll_fuel_polls, of ex_crypto 45 ex_csr "''n1''" "[]"] by (metis append_Nil prod.collapse)



end
