(* ===== verification/Instance.thy ===== *)
theory Instance
  imports World
begin

text \<open>
  The server provider, \<^verbatim>\<open>pkg/providers/instance/instance.go\<close>: the requests to the UpCloud
  server API behind every NodeClaim, and the marker labels by which the provider recognises its
  own servers.

  \<open>Create\<close> builds the request from its arguments as the code does, the writes to the label map
  in their order; \<open>List\<close> is the loop over all servers of the account. The lemmas say what the
  request contains and which servers \<open>List\<close> returns; the locale \<open>server_marks\<close> states what
  connects the two: a server that keeps the labels it was created with is listed.
\<close>

section \<open>Definitions\<close>

record InstanceProvider =
  ip_svc :: server_service
  ip_templateUUID :: string
  ip_networkUUID :: string
  ip_clusterID :: string
  ip_clusterName :: string

definition NewInstanceProvider ::
  "server_service \<Rightarrow> string \<Rightarrow> string \<Rightarrow> string \<Rightarrow> string \<Rightarrow> InstanceProvider" where
  "NewInstanceProvider svc templateUUID networkUUID clusterID clusterName =
     \<lparr>ip_svc = svc, ip_templateUUID = templateUUID, ip_networkUUID = networkUUID,
      ip_clusterID = clusterID, ip_clusterName = clusterName\<rparr>"

text \<open>The four writes of the marker labels; each may panic on a nil map.\<close>

definition mark_labels :: "InstanceProvider \<Rightarrow> string \<Rightarrow> labels \<Rightarrow> goerror + labels" where
  "mark_labels p hostname labels =
     (case map_set ServerManagedLabelKey ServerManagedLabelValue (ensure_map labels) of
        Inl e \<Rightarrow> Inl e
      | Inr l1 \<Rightarrow>
     (case map_set ServerClusterIDLabelKey (ip_clusterID p) l1 of
        Inl e \<Rightarrow> Inl e
      | Inr l2 \<Rightarrow>
     (case map_set ServerClusterNameLabelKey (ip_clusterName p) l2 of
        Inl e \<Rightarrow> Inl e
      | Inr l3 \<Rightarrow> map_set ServerGeneratedNameLabelKey hostname l3)))"

definition label_slice :: "labels \<Rightarrow> UpLabel list" where
  "label_slice labels = map (\<lambda>(k, v). \<lparr>ul_Key = k, ul_Value = v\<rparr>) (map_entries labels)"

definition root_device :: "InstanceProvider \<Rightarrow> string \<Rightarrow> StorageSpec option \<Rightarrow> CreateServerStorageDevice" where
  "root_device p hostname storage =
     (let device = \<lparr>dev_Action = ''clone'', dev_Storage = ip_templateUUID p, dev_Title = hostname @ ''-root'',
                    dev_Size = 0, dev_Tier = '''', dev_Encrypted = None\<rparr>
      in (case storage of
            None \<Rightarrow> device
          | Some st \<Rightarrow>
              (let d1 = (if 0 < sint (st_Size st) then device\<lparr>dev_Size := st_Size st\<rparr> else device);
                   d2 = (if st_Tier st \<noteq> '''' then d1\<lparr>dev_Tier := st_Tier st\<rparr> else d1)
               in (case st_Encrypted st of None \<Rightarrow> d2 | Some b \<Rightarrow> d2\<lparr>dev_Encrypted := Some b\<rparr>))))"

definition interfaces :: "InstanceProvider \<Rightarrow> CreateServerInterface list" where
  "interfaces p =
     [\<lparr>if_Type = ''private'', if_Network = ip_networkUUID p, if_IPFamilies = [''IPv4'']\<rparr>,
      \<lparr>if_Type = ''utility'', if_Network = '''', if_IPFamilies = [''IPv4'']\<rparr>,
      \<lparr>if_Type = ''public'', if_Network = '''', if_IPFamilies = [''IPv4'']\<rparr>]"

definition Create ::
  "InstanceProvider \<Rightarrow> string \<Rightarrow> string \<Rightarrow> string \<Rightarrow> string \<Rightarrow> string \<Rightarrow> labels \<Rightarrow> StorageSpec option
     \<Rightarrow> (goerror + ServerDetails) prog" where
  "Create p hostname plan zone userData serverGroupUUID labels storage =
     (case mark_labels p hostname labels of
        Inl e \<Rightarrow> ret (Inl e)
      | Inr marked \<Rightarrow>
          CreateServer (ip_svc p)
            \<lparr>csq_Labels = label_slice marked, csq_Zone = zone, csq_Hostname = hostname, csq_Title = hostname,
             csq_Plan = plan, csq_ServerGroup = serverGroupUUID,
             csq_StorageDevices = [root_device p hostname storage],
             csq_Interfaces = interfaces p, csq_UserData = userData, csq_Metadata = True\<rparr>)"

definition Delete :: "InstanceProvider \<Rightarrow> string \<Rightarrow> goerror option prog" where
  "Delete p serverUUID = DeleteServerAndStorages (ip_svc p) serverUUID"

definition Get :: "InstanceProvider \<Rightarrow> string \<Rightarrow> (goerror + ServerDetails) prog" where
  "Get p serverUUID = GetServerDetails (ip_svc p) serverUUID"

fun has_managed_label :: "UpLabel list \<Rightarrow> bool" where
  "has_managed_label [] = False"
| "has_managed_label (l # ls) =
     (if ul_Key l = ServerManagedLabelKey \<and> ul_Value l = ServerManagedLabelValue then True
      else has_managed_label ls)"

definition isManaged :: "ServerDetails \<Rightarrow> bool" where
  "isManaged s = has_managed_label (sd_Labels s)"

fun list_loop :: "InstanceProvider \<Rightarrow> string list \<Rightarrow> ServerDetails list \<Rightarrow> ServerDetails list prog" where
  "list_loop p [] result = ret result"
| "list_loop p (uuid # uuids) result =
     do {
       r \<leftarrow> GetServerDetails (ip_svc p) uuid;
       (case r of
          Inl err \<Rightarrow> list_loop p uuids result
        | Inr details \<Rightarrow>
            if isManaged details then list_loop p uuids (result @ [details])
            else list_loop p uuids result)
     }"

definition List :: "InstanceProvider \<Rightarrow> (goerror + ServerDetails list) prog" where
  "List p =
     do {
       r \<leftarrow> GetServers (ip_svc p);
       (case r of
          Inl err \<Rightarrow> ret (Inl (Wrapf ''listing servers'' err))
        | Inr servers \<Rightarrow> do { result \<leftarrow> list_loop p servers []; ret (Inr result) })
     }"

definition Stop :: "InstanceProvider \<Rightarrow> string \<Rightarrow> goerror option prog" where
  "Stop p serverUUID = StopServer (ip_svc p) serverUUID ''hard'' (30 * Second)"

definition WaitForStart :: "InstanceProvider \<Rightarrow> string \<Rightarrow> goerror option prog" where
  "WaitForStart p serverUUID = WaitForServerState (ip_svc p) serverUUID ServerStateStarted"

definition WaitForStop :: "InstanceProvider \<Rightarrow> string \<Rightarrow> goerror option prog" where
  "WaitForStop p serverUUID = WaitForServerState (ip_svc p) serverUUID ServerStateStopped"

section \<open>The labels of a created server\<close>

text \<open>The labels \<open>Create\<close> sends, as a function of the caller's.\<close>

definition marks :: "InstanceProvider \<Rightarrow> string \<Rightarrow> (string \<rightharpoonup> string) \<Rightarrow> (string \<rightharpoonup> string)" where
  "marks p hostname m =
     m(ServerManagedLabelKey \<mapsto> ServerManagedLabelValue,
       ServerClusterIDLabelKey \<mapsto> ip_clusterID p,
       ServerClusterNameLabelKey \<mapsto> ip_clusterName p,
       ServerGeneratedNameLabelKey \<mapsto> hostname)"

lemma wf_ensure_map: "wf_map m \<Longrightarrow> wf_map (ensure_map m)"
  by (cases m) (simp_all add: wf_map_def)

lemma mark_labels_ok:
  obtains marked where "mark_labels p hostname labels = Inr marked"
    and "map_get marked = marks p hostname (map_get labels)"
    and "wf_map labels \<longrightarrow> wf_map marked"
proof -
  obtain al where l1: "map_set ServerManagedLabelKey ServerManagedLabelValue (ensure_map labels) = Inr (Some al)"
    and m1: "map_of al = (map_get labels)(ServerManagedLabelKey \<mapsto> ServerManagedLabelValue)"
    by (rule map_set_ensure)
  let ?l4 = "AList.update ServerGeneratedNameLabelKey hostname
      (AList.update ServerClusterNameLabelKey (ip_clusterName p)
        (AList.update ServerClusterIDLabelKey (ip_clusterID p) al))"
  have "mark_labels p hostname labels = Inr (Some ?l4)" by (simp add: mark_labels_def l1)
  moreover have "map_get (Some ?l4) = marks p hostname (map_get labels)"
    by (simp add: fun_eq_iff update_conv' m1 marks_def)
  moreover have "wf_map labels \<longrightarrow> wf_map (Some ?l4)"
    using wf_map_set [OF wf_ensure_map l1] unfolding wf_map_def by (simp add: distinct_update)
  ultimately show thesis by (rule that)
qed

definition slice_lookup :: "UpLabel list \<Rightarrow> string \<rightharpoonup> string" where
  "slice_lookup ls = map_of (map (\<lambda>l. (ul_Key l, ul_Value l)) ls)"

lemma slice_lookup_label_slice: "slice_lookup (label_slice m) = map_get m"
  by (simp add: slice_lookup_def label_slice_def map_get_eq comp_def case_prod_unfold)

lemma has_managed_label_iff:
  "has_managed_label ls \<longleftrightarrow> (\<exists>l \<in> set ls. ul_Key l = ServerManagedLabelKey \<and> ul_Value l = ServerManagedLabelValue)"
  by (induction ls) auto

lemma has_managed_label_lookup:
  "slice_lookup ls ServerManagedLabelKey = Some ServerManagedLabelValue \<Longrightarrow> has_managed_label ls"
  by (force simp: slice_lookup_def has_managed_label_iff dest!: map_of_SomeD)

lemma Create_run:
  obtains req where
    "run_state (Create p hostname plan zone ud sg labels storage) h
       = (s_CreateServer (ip_svc p) h req, h @ [ECreateServer req])"
    and "slice_lookup (csq_Labels req) = marks p hostname (map_get labels)"
    and "wf_map labels \<longrightarrow> distinct (map ul_Key (csq_Labels req))"
    and "csq_Zone req = zone" and "csq_Hostname req = hostname" and "csq_Plan req = plan"
    and "csq_UserData req = ud" and "csq_ServerGroup req = sg"
    and "csq_StorageDevices req = [root_device p hostname storage]"
proof -
  obtain marked where m: "mark_labels p hostname labels = Inr marked"
    and get: "map_get marked = marks p hostname (map_get labels)"
    and wf: "wf_map labels \<longrightarrow> wf_map marked"
    by (rule mark_labels_ok [of p hostname labels])
  have keys: "map ul_Key (label_slice marked) = map fst (map_entries marked)"
    by (simp add: label_slice_def comp_def case_prod_unfold)
  show thesis
    by (rule that) (use m get wf keys in \<open>auto simp: Create_def call_defs slice_lookup_label_slice wf_map_def\<close>)
qed

section \<open>The loop of List\<close>

definition answers :: "server_service \<Rightarrow> history \<Rightarrow> string list \<Rightarrow> (goerror + ServerDetails) list" where
  "answers s h uuids =
     map (\<lambda>i. s_GetServerDetails s (h @ map EGetServerDetails (take i uuids)) (uuids ! i)) [0..<length uuids]"

lemma answers_length: "length (answers s h us) = length us"
  by (simp add: answers_def)

fun successes :: "(goerror + 'a) list \<Rightarrow> 'a list" where
  "successes [] = []"
| "successes (Inl _ # rs) = successes rs"
| "successes (Inr x # rs) = x # successes rs"

lemma set_successes: "set (successes rs) = {x. Inr x \<in> set rs}"
  by (induction rs rule: successes.induct) auto

lemma answers_Cons:
  "answers s h (u # us) = s_GetServerDetails s h u # answers s (h @ [EGetServerDetails u]) us"
proof -
  have "[0..<length (u # us)] = 0 # map Suc [0..<length us]" by (simp add: upt_conv_Cons map_Suc_upt del: upt_Suc)
  then show ?thesis by (simp add: answers_def comp_def del: upt_Suc)
qed

lemma set_answers:
  "r \<in> set (answers s h us) \<longleftrightarrow>
     (\<exists>i < length us. s_GetServerDetails s (h @ map EGetServerDetails (take i us)) (us ! i) = r)"
  unfolding answers_def by (auto simp: image_iff)

lemma list_loop_run:
  "run_state (list_loop p uuids acc) h =
     (acc @ filter isManaged (successes (answers (ip_svc p) h uuids)), h @ map EGetServerDetails uuids)"
proof (induction uuids arbitrary: acc h)
  case Nil
  then show ?case by (simp add: answers_def)
next
  case (Cons u us)
  then show ?case
    by (simp add: call_defs answers_Cons split: sum.split)
qed

lemma List_run:
  "run_state (List p) h =
     (case s_GetServers (ip_svc p) h of
        Inl e \<Rightarrow> (Inl (Wrapf ''listing servers'' e), h @ [EGetServers])
      | Inr us \<Rightarrow> (Inr (filter isManaged (successes (answers (ip_svc p) (h @ [EGetServers]) us))),
                  h @ EGetServers # map EGetServerDetails us))"
  by (simp add: List_def call_defs list_loop_run split: sum.split)

section \<open>The contract between creating and listing\<close>

text \<open>
  \<open>Create\<close> stamps what \<open>List\<close> recognises: this is all that keeps a server from being lost by
  its controller, since the account's servers are told apart by their labels only.
\<close>

locale server_marks =
  fixes stamp :: "string \<Rightarrow> labels \<Rightarrow> UpLabel list" and recognised :: "ServerDetails \<Rightarrow> bool"
  assumes stamped_recognised: "sd_Labels s = stamp hostname m \<Longrightarrow> recognised s"
    and recognised_by_labels: "sd_Labels s = sd_Labels t \<Longrightarrow> recognised s \<longleftrightarrow> recognised t"
begin

lemma stamped_survives_filter:
  assumes "Inr s \<in> set rs" and "sd_Labels s = stamp hostname m"
  shows "s \<in> set (filter recognised (successes rs))"
  using assms stamped_recognised by (simp add: set_successes)

lemma all_stamped_recognised:
  "list_all (\<lambda>s. \<exists>hn m. sd_Labels s = stamp hn m) ss \<Longrightarrow> filter recognised ss = ss"
  using stamped_recognised by (auto simp: list_all_iff intro!: filter_True)

end

definition stamped :: "InstanceProvider \<Rightarrow> string \<Rightarrow> labels \<Rightarrow> UpLabel list" where
  "stamped p hostname m = (case mark_labels p hostname m of Inl _ \<Rightarrow> [] | Inr marked \<Rightarrow> label_slice marked)"

lemma stamped_lookup: "slice_lookup (stamped p hostname m) = marks p hostname (map_get m)"
  by (rule mark_labels_ok [of p hostname m]) (simp add: stamped_def slice_lookup_label_slice)

lemma marks_managed: "marks p hostname m ServerManagedLabelKey = Some ServerManagedLabelValue"
  by (simp add: marks_def server_label_defs)

interpretation own: server_marks "stamped p" isManaged for p
proof
  fix s :: ServerDetails and hostname m
  assume "sd_Labels s = stamped p hostname m"
  then show "isManaged s"
    unfolding isManaged_def by (simp add: has_managed_label_lookup stamped_lookup marks_managed)
qed (simp add: isManaged_def)

section \<open>Properties\<close>

text \<open>
  C37. Creating a server is one request, and it carries the marker labels whatever the caller
  asked for: the four markers hold the provider's values even where the caller's labels use the
  same keys, every other label is the caller's, no key appears twice; the root device is a clone
  of the template and takes a size, tier or encryption flag only where the caller gave one.
\<close>

theorem Create_request:
  assumes "wf_map labels"
  shows "\<exists>req. run_state (Create p hostname plan zone ud sg labels storage) h
        = (s_CreateServer (ip_svc p) h req, h @ [ECreateServer req])
    \<and> distinct (map ul_Key (csq_Labels req))
    \<and> (\<forall>k. slice_lookup (csq_Labels req) k =
          (if k = ServerManagedLabelKey then Some ServerManagedLabelValue
           else if k = ServerClusterIDLabelKey then Some (ip_clusterID p)
           else if k = ServerClusterNameLabelKey then Some (ip_clusterName p)
           else if k = ServerGeneratedNameLabelKey then Some hostname
           else map_get labels k))
    \<and> csq_Zone req = zone \<and> csq_Hostname req = hostname \<and> csq_Plan req = plan \<and> csq_UserData req = ud
    \<and> (\<exists>d. csq_StorageDevices req = [d] \<and> dev_Action d = ''clone'' \<and> dev_Storage d = ip_templateUUID p
         \<and> dev_Size d = (case storage of Some st \<Rightarrow> if 0 < sint (st_Size st) then st_Size st else 0 | None \<Rightarrow> 0)
         \<and> dev_Tier d = (case storage of Some st \<Rightarrow> st_Tier st | None \<Rightarrow> '''')
         \<and> dev_Encrypted d = Option.bind storage st_Encrypted)"
proof -
  obtain req where "run_state (Create p hostname plan zone ud sg labels storage) h
       = (s_CreateServer (ip_svc p) h req, h @ [ECreateServer req])"
    and "slice_lookup (csq_Labels req) = marks p hostname (map_get labels)"
    and "wf_map labels \<longrightarrow> distinct (map ul_Key (csq_Labels req))"
    and "csq_Zone req = zone" "csq_Hostname req = hostname" "csq_Plan req = plan" "csq_UserData req = ud"
    and "csq_StorageDevices req = [root_device p hostname storage]"
    by (rule Create_run [of p hostname plan zone ud sg labels storage h])
  moreover have "marks p hostname m k =
      (if k = ServerManagedLabelKey then Some ServerManagedLabelValue
       else if k = ServerClusterIDLabelKey then Some (ip_clusterID p)
       else if k = ServerClusterNameLabelKey then Some (ip_clusterName p)
       else if k = ServerGeneratedNameLabelKey then Some hostname else m k)" for m k
    by (simp add: marks_def server_label_defs)
  moreover have "dev_Action (root_device p hostname storage) = ''clone''"
    and "dev_Storage (root_device p hostname storage) = ip_templateUUID p"
    and "dev_Size (root_device p hostname storage) =
      (case storage of Some st \<Rightarrow> if 0 < sint (st_Size st) then st_Size st else 0 | None \<Rightarrow> 0)"
    and "dev_Tier (root_device p hostname storage) = (case storage of Some st \<Rightarrow> st_Tier st | None \<Rightarrow> '''')"
    and "dev_Encrypted (root_device p hostname storage) = Option.bind storage st_Encrypted"
    by (auto simp: root_device_def Let_def split: option.split)
  ultimately show ?thesis using assms by (intro exI [of _ req]) simp
qed

definition ex_instances :: InstanceProvider where
  "ex_instances = NewInstanceProvider down_servers ''tpl'' ''net'' ''c1'' ''prod''"

theorem Create_request_witness:
  "\<exists>req. snd (run_state (Create ex_instances ''karpenter-1'' ''2xCPU-4GB'' ''fi-hel1'' ''#'' ''''
        (Some [(''managed_by'', ''me''), (''team'', ''a'')]) None) []) = [ECreateServer req]
     \<and> slice_lookup (csq_Labels req) ''managed_by'' = Some ''karpenter''
     \<and> slice_lookup (csq_Labels req) ''team'' = Some ''a''"
proof -
  have "wf_map (Some [(''managed_by'', ''me''), (''team'', ''a'')])" by (simp add: wf_map_def)
  from Create_request [OF this, of ex_instances "''karpenter-1''" "''2xCPU-4GB''" "''fi-hel1''" "''#''" "''''" None "[]"]
  show ?thesis by (auto simp: server_label_defs)
qed

text \<open>
  \<open>List\<close> returns exactly the managed servers whose details could be read, once for each server
  of the account, and makes no call that changes anything; an error of the first call is reported.
\<close>

theorem List_exact:
  "case s_GetServers (ip_svc p) h of
     Inl e \<Rightarrow> run_state (List p) h = (Inl (Wrapf ''listing servers'' e), h @ [EGetServers])
   | Inr us \<Rightarrow> \<exists>result. run_state (List p) h = (Inr result, h @ EGetServers # map EGetServerDetails us)
       \<and> length result \<le> length us
       \<and> (\<forall>s. s \<in> set result \<longleftrightarrow>
            (\<exists>i < length us. s_GetServerDetails (ip_svc p) (h @ EGetServers # map EGetServerDetails (take i us)) (us ! i) = Inr s)
            \<and> (\<exists>l \<in> set (sd_Labels s). ul_Key l = ''managed_by'' \<and> ul_Value l = ''karpenter''))"
proof (cases "s_GetServers (ip_svc p) h")
  case (Inl e)
  then show ?thesis by (simp add: List_run)
next
  case (Inr us)
  let ?rs = "answers (ip_svc p) (h @ [EGetServers]) us"
  have "length (filter isManaged (successes rs)) \<le> length (rs :: (goerror + ServerDetails) list)" for rs
    by (rule order_trans [OF length_filter_le]) (induction rs rule: successes.induct, auto)
  then have len: "length (filter isManaged (successes ?rs)) \<le> length us"
    by (metis answers_length)
  have "s \<in> set (filter isManaged (successes ?rs)) \<longleftrightarrow>
      (\<exists>i < length us. s_GetServerDetails (ip_svc p) (h @ EGetServers # map EGetServerDetails (take i us)) (us ! i) = Inr s)
      \<and> (\<exists>l \<in> set (sd_Labels s). ul_Key l = ''managed_by'' \<and> ul_Value l = ''karpenter'')" for s
    by (simp add: set_successes set_answers isManaged_def has_managed_label_iff server_label_defs conj_commute)
  then show ?thesis using Inr len by (simp add: List_run)
qed

text \<open>
  A created server is not lost: once the account lists it and its details come back with the
  labels it was created with, \<open>List\<close> returns it, whatever labels the caller chose and whatever
  other servers there are.
\<close>

theorem created_is_listed:
  assumes "run_state (Create p hostname plan zone ud sg labels storage) h = (r, h @ [ECreateServer req])"
    and "s_GetServers (ip_svc p) h' = Inr us" and "i < length us"
    and "s_GetServerDetails (ip_svc p) (h' @ EGetServers # map EGetServerDetails (take i us)) (us ! i) = Inr s"
    and "sd_Labels s = csq_Labels req"
  shows "\<exists>result. fst (run_state (List p) h') = Inr result \<and> s \<in> set result"
proof -
  let ?rs = "answers (ip_svc p) (h' @ [EGetServers]) us"
  have "Inr s \<in> set ?rs"
    using assms(3,4) by (auto simp: set_answers)
  moreover have "csq_Labels req = stamped p hostname labels"
    using assms(1) by (auto simp: Create_def call_defs stamped_def split: sum.splits)
  ultimately have "s \<in> set (filter isManaged (successes ?rs))"
    using own.stamped_survives_filter assms(5) by simp
  then show ?thesis using assms(2) by (simp add: List_run)
qed

definition ex_server :: "CreateServerRequest \<Rightarrow> ServerDetails" where
  "ex_server req = \<lparr>sd_UUID = ''u'', sd_Hostname = csq_Hostname req, sd_Plan = csq_Plan req,
     sd_CoreNumber = 2, sd_MemoryAmount = 4096, sd_Labels = csq_Labels req\<rparr>"

text \<open>An account in which the last created server is the only one.\<close>

fun last_created :: "history \<Rightarrow> ServerDetails option" where
  "last_created [] = None"
| "last_created (ECreateServer req # h) =
     (case last_created h of Some s \<Rightarrow> Some s | None \<Rightarrow> Some (ex_server req))"
| "last_created (_ # h) = last_created h"

definition ex_account :: server_service where
  "ex_account = down_servers\<lparr>s_CreateServer := \<lambda>_ req. Inr (ex_server req),
     s_GetServers := \<lambda>h. Inr (case last_created h of None \<Rightarrow> [] | Some s \<Rightarrow> [sd_UUID s]),
     s_GetServerDetails := \<lambda>h _. (case last_created h of None \<Rightarrow> Inl down | Some s \<Rightarrow> Inr s)\<rparr>"

theorem created_is_listed_witness:
  "\<exists>s result. fst (run_state (Create (NewInstanceProvider ex_account ''tpl'' ''net'' ''c1'' ''prod'')
        ''karpenter-1'' ''2xCPU-4GB'' ''fi-hel1'' ''#'' '''' None None) []) = Inr s
     \<and> fst (run_state (List (NewInstanceProvider ex_account ''tpl'' ''net'' ''c1'' ''prod''))
         (snd (run_state (Create (NewInstanceProvider ex_account ''tpl'' ''net'' ''c1'' ''prod'')
            ''karpenter-1'' ''2xCPU-4GB'' ''fi-hel1'' ''#'' '''' None None) []))) = Inr result
     \<and> s \<in> set result"
proof -
  let ?p = "NewInstanceProvider ex_account ''tpl'' ''net'' ''c1'' ''prod''"
  let ?c = "Create ?p ''karpenter-1'' ''2xCPU-4GB'' ''fi-hel1'' ''#'' '''' None None"
  obtain req where run: "run_state ?c [] = (s_CreateServer (ip_svc ?p) [] req, [] @ [ECreateServer req])"
    by (rule Create_run [of ?p "''karpenter-1''" "''2xCPU-4GB''" "''fi-hel1''" "''#''" "''''" None None "[]"])
  have "s_CreateServer (ip_svc ?p) [] req = Inr (ex_server req)"
    by (simp add: NewInstanceProvider_def ex_account_def)
  moreover have "\<exists>result. fst (run_state (List ?p) [ECreateServer req]) = Inr result \<and> ex_server req \<in> set result"
    by (rule created_is_listed [OF run, where us = "[''u'']" and i = 0])
       (simp_all add: NewInstanceProvider_def ex_account_def ex_server_def)
  ultimately show ?thesis using run by simp
qed

text \<open>
  The cluster is not part of what is recognised: a provider of one cluster lists a server that
  carries the cluster label of another.
\<close>

definition other_server :: ServerDetails where
  "other_server = \<lparr>sd_UUID = ''u'', sd_Hostname = ''n'', sd_Plan = ''2xCPU-4GB'', sd_CoreNumber = 2,
     sd_MemoryAmount = 4096, sd_Labels = [\<lparr>ul_Key = ''managed_by'', ul_Value = ''karpenter''\<rparr>,
       \<lparr>ul_Key = ''capu_cluster_id'', ul_Value = ''c2''\<rparr>]\<rparr>"

definition other_account :: server_service where
  "other_account = down_servers\<lparr>s_GetServers := \<lambda>_. Inr [''u''], s_GetServerDetails := \<lambda>_ _. Inr other_server\<rparr>"

theorem List_other_cluster:
  "fst (run_state (List (NewInstanceProvider other_account ''tpl'' ''net'' ''c1'' ''prod'')) []) = Inr [other_server]
   \<and> slice_lookup (sd_Labels other_server) ServerClusterIDLabelKey = Some ''c2''"
proof
  have "isManaged other_server"
    by (simp add: isManaged_def other_server_def server_label_defs)
  then show "fst (run_state (List (NewInstanceProvider other_account ''tpl'' ''net'' ''c1'' ''prod'')) []) = Inr [other_server]"
    by (simp add: List_run NewInstanceProvider_def other_account_def answers_def)
qed (simp add: slice_lookup_def other_server_def server_label_defs)

end
