(* ===== verification/Util.thy ===== *)
theory Util
  imports Go_Strings
begin

text \<open>
  The package \<^verbatim>\<open>pkg/util\<close>: what a plan's name says about it. UpCloud has no field for spot
  plans or plan families, so both are read off the name.
\<close>

section \<open>Definitions\<close>

definition IsSpotPlan :: "string \<Rightarrow> bool" where
  "IsSpotPlan name = Contains (ToUpper name) ''SPOT''"

fun family_loop :: "string list \<Rightarrow> string \<Rightarrow> string" where
  "family_loop [] name = ''UNKNOWN''"
| "family_loop (p # ps) name =
     (if HasPrefix name (p @ ''-'') \<or> HasPrefix name p then p else family_loop ps name)"

definition families :: "string list" where
  "families = [''CLOUDNATIVE'', ''GPU'', ''STARTER'', ''PREMIUM'']"

definition InstanceFamily :: "string \<Rightarrow> string" where
  "InstanceFamily name = family_loop families name"

section \<open>Lemmas\<close>

lemma family_loop_cases:
  "(\<exists>p \<in> set ps. family_loop ps n = p \<and> HasPrefix n p)
   \<or> (family_loop ps n = ''UNKNOWN'' \<and> (\<forall>p \<in> set ps. \<not> HasPrefix n p))"
  by (induction ps) (auto simp: HasPrefix_iff)

lemma HasPrefix_comparable:
  "HasPrefix n p \<Longrightarrow> HasPrefix n q \<Longrightarrow> HasPrefix p q \<or> HasPrefix q p"
  by (auto simp: HasPrefix_iff append_eq_append_conv2)

lemma families_incomparable:
  "p \<in> set families \<Longrightarrow> q \<in> set families \<Longrightarrow> HasPrefix p q \<Longrightarrow> p = q"
  by (auto simp: families_def HasPrefix_def)

lemma family_unique:
  assumes "p \<in> set families" and "HasPrefix n p"
  shows "InstanceFamily n = p"
proof -
  from family_loop_cases [of families n] assms
  obtain q where q: "q \<in> set families" "family_loop families n = q" "HasPrefix n q" by blast
  then have "p = q"
    using HasPrefix_comparable [OF assms(2) q(3)] families_incomparable assms(1) by blast
  then show ?thesis using q by (simp add: InstanceFamily_def)
qed

lemma map_contains_iff:
  "(\<exists>a b. map f n = a @ w @ b) \<longleftrightarrow> (\<exists>a v b. n = a @ v @ b \<and> map f v = w)"
proof
  assume "\<exists>a b. map f n = a @ w @ b"
  then obtain a b where "map f n = a @ w @ b" by blast
  then obtain us vs where n: "n = us @ vs" and "map f vs = w @ b"
    using map_eq_append_conv [of f n a "w @ b"] by metis
  then obtain ws xs where "vs = ws @ xs" "map f ws = w"
    using map_eq_append_conv [of f vs w b] by metis
  with n show "\<exists>a v b. n = a @ v @ b \<and> map f v = w" by blast
next
  assume "\<exists>a v b. n = a @ v @ b \<and> map f v = w"
  then show "\<exists>a b. map f n = a @ w @ b" by (metis map_append)
qed

lemma IsSpotPlan_ascii:
  assumes "\<forall>c \<in> set n. is_ascii c"
  shows "IsSpotPlan n \<longleftrightarrow> (\<exists>a w b. n = a @ w @ b \<and> map upper_byte w = ''SPOT'')"
proof -
  have "ToUpper n = map upper_byte n" by (rule ToUpper_ascii [OF assms])
  then show ?thesis unfolding IsSpotPlan_def Contains_iff by (simp only: map_contains_iff)
qed

section \<open>Properties\<close>

text \<open>
  \<open>InstanceFamily\<close> is the one family whose name starts the plan's name, whatever the order
  the families are tried in, and \<^verbatim>\<open>UNKNOWN\<close> exactly where no family's name does.
\<close>

theorem InstanceFamily_spec:
  "(\<forall>p. InstanceFamily n = p \<and> p \<noteq> ''UNKNOWN'' \<longleftrightarrow> p \<in> set families \<and> HasPrefix n p)
   \<and> (\<forall>ps. set ps = set families \<longrightarrow> family_loop ps n = InstanceFamily n)"
proof (intro conjI allI impI)
  fix p
  have "''UNKNOWN'' \<notin> set families" by (simp add: families_def)
  then show "InstanceFamily n = p \<and> p \<noteq> ''UNKNOWN'' \<longleftrightarrow> p \<in> set families \<and> HasPrefix n p"
    using family_loop_cases [of families n] family_unique by (auto simp: InstanceFamily_def)
next
  fix ps
  assume "set ps = set families"
  then show "family_loop ps n = InstanceFamily n"
    using family_loop_cases [of ps n] family_loop_cases [of families n] family_unique
    by (auto simp: InstanceFamily_def)
qed

theorem InstanceFamily_spec_witness:
  "family_loop [''GPU'', ''PREMIUM'', ''CLOUDNATIVE'', ''STARTER''] ''GPU-SPOT-8xCPU-64GB-1xL4'' = ''GPU''"
proof -
  have "set [''GPU'', ''PREMIUM'', ''CLOUDNATIVE'', ''STARTER''] = set families" by (auto simp: families_def)
  then have "family_loop [''GPU'', ''PREMIUM'', ''CLOUDNATIVE'', ''STARTER''] ''GPU-SPOT-8xCPU-64GB-1xL4''
      = InstanceFamily ''GPU-SPOT-8xCPU-64GB-1xL4''"
    using InstanceFamily_spec by blast
  then show ?thesis by (simp add: InstanceFamily_def families_def HasPrefix_def)
qed

end
