(* ===== verification/InstanceTypes.thy ===== *)
theory InstanceTypes
  imports World Util
begin

text \<open>
  The instance-type catalogue, \<^verbatim>\<open>pkg/providers/instancetypes/instancetypes.go\<close>: the UpCloud
  plans with their prices as Karpenter instance types, cached in the provider.

  The fields of the struct are the record \<open>Provider\<close>; an operation that changes it returns the
  new record. The order of a map's entries is the order in which a loop over it runs, so a
  result that depends on that order shows. A requirement is kept as the arguments of the call
  \<^verbatim>\<open>scheduling.NewRequirement\<close>; the imported function \<^verbatim>\<open>NewRequirements\<close> intersects
  requirements on the same key, and \<open>build_requirements_keys\<close> shows that it never has to.
  Log output is left out, and with it the loop that only warns about missing prices.

  The locale \<open>catalogue\<close> is what the cloud provider relies on: every advertised type can be
  looked up by its name. It is interpreted on \<open>List\<close> and \<open>Get\<close> for the reachable providers.
\<close>

section \<open>Definitions\<close>

record Requirement =
  req_Key :: string
  req_Operator :: string
  req_Values :: "string list"

record Offering =
  off_Requirements :: "Requirement list"
  off_Price :: float64
  off_Available :: bool

record InstanceType =
  it_Name :: string
  it_Requirements :: "Requirement list"
  it_Offerings :: "Offering list"
  it_Capacity :: ResourceList

record Provider =
  itp_svc :: cloud_service
  itp_zone :: string
  itp_instanceTypesByName :: "(string \<times> InstanceType) list"
  itp_plansByName :: "(string \<times> Plan) list"
  itp_prices :: "(string \<times> float64) list"
  itp_lastFetch :: gotime
  itp_cacheTTL :: duration

definition NewProvider :: "cloud_service \<Rightarrow> string \<Rightarrow> Provider" where
  "NewProvider svc zone =
     \<lparr>itp_svc = svc, itp_zone = zone, itp_instanceTypesByName = [], itp_plansByName = [],
      itp_prices = [], itp_lastFetch = zeroTime, itp_cacheTTL = 30 * Minute\<rparr>"

definition List :: "Provider \<Rightarrow> InstanceType list" where
  "List p = map snd (itp_instanceTypesByName p)"

definition Get :: "Provider \<Rightarrow> string \<Rightarrow> Plan option" where
  "Get p name = map_of (itp_plansByName p) name"

text \<open>\<^verbatim>\<open>math.MaxFloat64\<close> and \<^verbatim>\<open>math.MaxInt64\<close>; the built-in \<^verbatim>\<open>max(x, 0)\<close> on an \<^verbatim>\<open>int\<close>.\<close>

definition MaxFloat64 :: float64 where
  "MaxFloat64 = (2 ^ 53 - 1) * 2 ^ 971"

definition MaxInt64 :: int where
  "MaxInt64 = 2 ^ 63 - 1"

definition max_zero :: "int64 \<Rightarrow> int64" where
  "max_zero x = (if sint x < 0 then 0 else x)"

definition memory_bytes :: "int64 \<Rightarrow> int64" where
  "memory_bytes memoryMB =
     (if sint memoryMB \<le> MaxInt64 div (1024 * 1024) then memoryMB * 1024 * 1024
      else word_of_int MaxInt64)"

definition NewRequirement :: "string \<Rightarrow> string \<Rightarrow> string \<Rightarrow> Requirement" where
  "NewRequirement k op v = \<lparr>req_Key = k, req_Operator = op, req_Values = [v]\<rparr>"

definition buildInstanceTypeWithPrices ::
  "Provider \<Rightarrow> Plan \<Rightarrow> (string \<times> float64) list \<Rightarrow> InstanceType" where
  "buildInstanceTypeWithPrices p plan prices =
     (let cores = max_zero (plan_CoreNumber plan);
          memoryMB = max_zero (plan_MemoryAmount plan);
          memoryBytes = memory_bytes memoryMB;
          gpuAmount = max_zero (plan_GPUAmount plan);
          resources =
            [(ResourceCPU, NewQuantity cores DecimalSI),
             (ResourceMemory, NewQuantity memoryBytes BinarySI),
             (ResourcePods, NewQuantity 110 DecimalSI)]
            @ (if 0 < sint gpuAmount then [(ResourceNvidiaGPU, NewQuantity gpuAmount DecimalSI)] else []);
          price = (case map_of prices (plan_Name plan) of Some q \<Rightarrow> q | None \<Rightarrow> MaxFloat64);
          capacityType = (if IsSpotPlan (plan_Name plan) then CapacityTypeSpot else CapacityTypeOnDemand);
          offerings =
            [\<lparr>off_Requirements = [NewRequirement CapacityTypeLabelKey NodeSelectorOpIn capacityType],
              off_Price = price, off_Available = True\<rparr>];
          reqs =
            [NewRequirement LabelInstanceTypeStable NodeSelectorOpIn (plan_Name plan),
             NewRequirement LabelArchStable NodeSelectorOpIn ''amd64'',
             NewRequirement LabelOSStable NodeSelectorOpIn ''linux'',
             NewRequirement LabelTopologyZone NodeSelectorOpIn (itp_zone p),
             NewRequirement CapacityTypeLabelKey NodeSelectorOpIn capacityType,
             NewRequirement LabelInstanceFamily NodeSelectorOpIn (InstanceFamily (plan_Name plan)),
             NewRequirement LabelInstanceCPU NodeSelectorOpIn (print_int (sint cores)),
             NewRequirement LabelInstanceMemory NodeSelectorOpIn (print_int (sint memoryMB)),
             NewRequirement LabelInstanceStorageSize NodeSelectorOpIn (print_int (sint (plan_StorageSize plan)))]
            @ (if 0 < sint gpuAmount
               then [NewRequirement LabelInstanceGPUCount NodeSelectorOpIn (print_int (sint gpuAmount)),
                     NewRequirement LabelInstanceGPUModel NodeSelectorOpIn (plan_GPUModel plan)]
               else [])
      in \<lparr>it_Name = plan_Name plan, it_Requirements = reqs, it_Offerings = offerings,
          it_Capacity = resources\<rparr>)"

subsection \<open>Prices\<close>

definition server_plan_prefix :: string where
  "server_plan_prefix = ''server_plan_''"

text \<open>The zone's prices, else those of the first zone the loop happens to visit, else none.\<close>

definition zone_prices :: "string \<Rightarrow> (string \<times> (string \<times> float64) list) list \<Rightarrow> (string \<times> float64) list" where
  "zone_prices zone pricesByZone =
     (case map_of pricesByZone zone of
        Some zp \<Rightarrow> zp
      | None \<Rightarrow> (case pricesByZone of [] \<Rightarrow> [] | (_, zp) # _ \<Rightarrow> zp))"

fun price_loop :: "(string \<times> float64) list \<Rightarrow> (string \<times> float64) list \<Rightarrow> (string \<times> float64) list" where
  "price_loop [] prices = prices"
| "price_loop ((itemName, price) # items) prices =
     (let name = TrimPrefix itemName server_plan_prefix;
          prices1 = AList.update name price prices;
          prices2 = (if name = itemName then AList.update (server_plan_prefix @ name) price prices1 else prices1)
      in price_loop items prices2)"

definition refreshPrices :: "host \<Rightarrow> Provider \<Rightarrow> (goerror option \<times> Provider) prog" where
  "refreshPrices hst p =
     do {
       (now, _) \<leftarrow> Now hst;
       if Since now (itp_lastFetch p) < itp_cacheTTL p then ret (None, p)
       else do {
         r \<leftarrow> GetPricesByZone (itp_svc p);
         (case r of
            Inl err \<Rightarrow> ret (Some (Wrapf ''fetching prices'' err), p)
          | Inr pricesByZone \<Rightarrow>
              do {
                (fetched, _) \<leftarrow> Now hst;
                ret (None, p\<lparr>itp_prices := price_loop (zone_prices (itp_zone p) pricesByZone) [],
                             itp_lastFetch := fetched\<rparr>)
              })
       }
     }"

subsection \<open>Refresh\<close>

fun plan_loop ::
  "Provider \<Rightarrow> (string \<times> float64) list \<Rightarrow> Plan list \<Rightarrow>
     (string \<times> InstanceType) list \<times> (string \<times> Plan) list \<Rightarrow>
     (string \<times> InstanceType) list \<times> (string \<times> Plan) list" where
  "plan_loop p prices [] acc = acc"
| "plan_loop p prices (plan # plans) (built, rawPlans) =
     plan_loop p prices plans
       (AList.update (plan_Name plan) (buildInstanceTypeWithPrices p plan prices) built,
        AList.update (plan_Name plan) plan rawPlans)"

definition Refresh :: "host \<Rightarrow> Provider \<Rightarrow> (goerror option \<times> Provider) prog" where
  "Refresh hst p =
     do {
       r \<leftarrow> GetPlans (itp_svc p);
       (case r of
          Inl err \<Rightarrow> ret (Some (Wrapf ''fetching plans'' err), p)
        | Inr plans \<Rightarrow>
            do {
              (_, p1) \<leftarrow> refreshPrices hst p;
              (case plan_loop p1 (itp_prices p1) plans ([], []) of
                 (built, rawPlans) \<Rightarrow>
                   ret (None, p1\<lparr>itp_instanceTypesByName := built, itp_plansByName := rawPlans\<rparr>))
            })
     }"

section \<open>Capacities\<close>

lemma sint_word_of_int64:
  assumes "- (2 ^ 63) \<le> j" and "j < 2 ^ 63"
  shows "sint (word_of_int j :: int64) = j"
  using assms by (simp add: sint_sbintrunc' signed_take_bit_int_eq_self)

lemma sint_int64_bounds: "- (2 ^ 63) \<le> sint (x :: int64)" "sint (x :: int64) < 2 ^ 63"
  using sint_greater_eq [of x] sint_less [of x] by simp_all

lemma sint_max_zero: "sint (max_zero x) = max 0 (sint x)"
  by (simp add: max_zero_def)

lemma sint_memory_bytes:
  assumes "0 \<le> sint x"
  shows "sint (memory_bytes x) = min (sint x * 1048576) MaxInt64"
proof (cases "sint x \<le> MaxInt64 div (1024 * 1024)")
  case True
  have "x * 1024 * 1024 = word_of_int (sint x) * word_of_int 1048576" by simp
  also have "\<dots> = word_of_int (sint x * 1048576)" by (simp only: wi_hom_mult)
  finally have "memory_bytes x = word_of_int (sint x * 1048576)"
    using True by (simp add: memory_bytes_def)
  moreover have "sint x * 1048576 \<le> MaxInt64" using True by (simp add: MaxInt64_def)
  ultimately show ?thesis
    using assms sint_word_of_int64 [of "sint x * 1048576"] by (simp add: MaxInt64_def)
next
  case False
  then show ?thesis
    using sint_word_of_int64 [of MaxInt64] by (simp add: memory_bytes_def MaxInt64_def)
qed

section \<open>Requirements\<close>

lemma build_requirements_keys:
  "distinct (map req_Key (it_Requirements (buildInstanceTypeWithPrices p plan prices)))"
  by (cases "0 < sint (max_zero (plan_GPUAmount plan))")
     (simp_all add: buildInstanceTypeWithPrices_def Let_def NewRequirement_def instance_label_defs)

lemma build_simps [simp]:
  "it_Name (buildInstanceTypeWithPrices p plan prices) = plan_Name plan"
  by (simp add: buildInstanceTypeWithPrices_def Let_def)

lemma build_zone_only:
  "itp_zone p = itp_zone q \<Longrightarrow> buildInstanceTypeWithPrices p plan prices = buildInstanceTypeWithPrices q plan prices"
  by (simp add: buildInstanceTypeWithPrices_def Let_def)

section \<open>Prices\<close>

definition prices_for :: "string \<Rightarrow> (string \<times> float64) list \<Rightarrow> (string \<times> float64) list" where
  "prices_for n items = filter (\<lambda>(i, _). i = n \<or> i = server_plan_prefix @ n) items"

lemma TrimPrefix_eq_self_or:
  "TrimPrefix i pre = i \<or> i = pre @ TrimPrefix i pre"
  by (cases "HasPrefix i pre") (auto simp: HasPrefix_iff TrimPrefix_no_prefix)

lemma price_loop_unprefixed:
  assumes "\<not> HasPrefix n server_plan_prefix"
  shows "map_of (price_loop items acc) n =
    (if prices_for n items = [] then map_of acc n else Some (snd (last (prices_for n items))))"
proof (induction items arbitrary: acc)
  case (Cons item items)
  obtain i q where item: "item = (i, q)" by fastforce
  let ?t = "TrimPrefix i server_plan_prefix"
  let ?acc = "AList.update ?t q acc"
  let ?acc' = "if ?t = i then AList.update (server_plan_prefix @ ?t) q ?acc else ?acc"
  have "server_plan_prefix @ ?t \<noteq> n" using assms by auto
  then have upd: "map_of ?acc' n = (if ?t = n then Some q else map_of acc n)"
    by (auto simp: update_conv')
  have t: "?t = n \<longleftrightarrow> i = n \<or> i = server_plan_prefix @ n"
    using TrimPrefix_eq_self_or [of i server_plan_prefix] TrimPrefix_no_prefix [OF assms]
      TrimPrefix_append [of server_plan_prefix n] by metis
  have "map_of (price_loop (item # items) acc) n = map_of (price_loop items ?acc') n"
    by (simp add: item Let_def)
  then show ?case unfolding Cons.IH upd t by (simp add: item prices_for_def)
qed (simp add: prices_for_def)

lemma filter_key_distinct:
  assumes "distinct (map fst xs)"
  shows "filter (\<lambda>(i, _). i = k) xs = (case map_of xs k of None \<Rightarrow> [] | Some v \<Rightarrow> [(k, v)])"
  using assms
proof (induction xs)
  case (Cons x xs)
  obtain i v where x: "x = (i, v)" by fastforce
  show ?case
  proof (cases "i = k")
    case True
    then have "map_of xs k = None" using Cons.prems by (simp add: x map_of_eq_None_iff)
    then show ?thesis using Cons True by (simp add: x)
  next
    case False
    then show ?thesis using Cons by (simp add: x)
  qed
qed simp

lemma prices_for_distinct:
  assumes "distinct (map fst items)"
    and "\<not> (n \<in> fst ` set items \<and> server_plan_prefix @ n \<in> fst ` set items)"
  shows "prices_for n items =
    (case map_of items n of Some q \<Rightarrow> [(n, q)]
     | None \<Rightarrow> (case map_of items (server_plan_prefix @ n) of None \<Rightarrow> [] | Some q \<Rightarrow> [(server_plan_prefix @ n, q)]))"
proof (cases "map_of items n")
  case None
  then have "n \<notin> fst ` set items" by (simp add: map_of_eq_None_iff)
  then have "prices_for n items = filter (\<lambda>(i, _). i = server_plan_prefix @ n) items"
    unfolding prices_for_def by (intro filter_cong) force+
  then show ?thesis using None filter_key_distinct [OF assms(1)] by simp
next
  case (Some q)
  then have "n \<in> fst ` set items" by (metis fst_conv image_eqI map_of_SomeD)
  then have "server_plan_prefix @ n \<notin> fst ` set items" using assms(2) by blast
  then have "prices_for n items = filter (\<lambda>(i, _). i = n) items"
    unfolding prices_for_def by (intro filter_cong) force+
  then show ?thesis using Some filter_key_distinct [OF assms(1)] by simp
qed

section \<open>The catalogue\<close>

text \<open>The plan a list of plans gives a name: the last of that name.\<close>

definition last_plan :: "Plan list \<Rightarrow> string \<Rightarrow> Plan option" where
  "last_plan plans = map_of (rev (map (\<lambda>q. (plan_Name q, q)) plans))"

lemma plan_loop_maps:
  assumes "plan_loop p prices plans (b, r) = (b', r')"
  shows "map_of r' = map_of r ++ last_plan plans"
    and "map_of b' = map_of b ++ (\<lambda>n. map_option (\<lambda>q. buildInstanceTypeWithPrices p q prices) (last_plan plans n))"
  using assms
  by (induction plans arbitrary: b r)
     (auto simp: last_plan_def update_conv' map_add_def fun_eq_iff split: option.splits)

lemma plan_loop_distinct:
  assumes "plan_loop p prices plans (b, r) = (b', r')"
    and "distinct (map fst b)" and "distinct (map fst r)"
  shows "distinct (map fst b') \<and> distinct (map fst r')"
  using assms
proof (induction plans arbitrary: b r)
  case (Cons q qs)
  show ?case
    by (rule Cons.IH [OF _ distinct_update [OF Cons.prems(2)] distinct_update [OF Cons.prems(3)]])
       (use Cons.prems(1) in simp)
qed simp

lemma last_plan_name: "last_plan plans n = Some q \<Longrightarrow> plan_Name q = n \<and> q \<in> set plans"
  by (auto simp: last_plan_def dest!: map_of_SomeD)

lemma refreshPrices_frame:
  assumes "run_state (refreshPrices hst p) h = ((e, p'), h')"
  shows "itp_zone p' = itp_zone p" and "itp_svc p' = itp_svc p"
    and "itp_instanceTypesByName p' = itp_instanceTypesByName p" and "itp_plansByName p' = itp_plansByName p"
    and "itp_cacheTTL p' = itp_cacheTTL p"
  using assms by (auto simp: refreshPrices_def call_defs split: if_splits sum.splits prod.splits)

text \<open>Every provider value the process can hold: built once, then refreshed any number of times.\<close>

inductive reachable :: "host \<Rightarrow> cloud_service \<Rightarrow> string \<Rightarrow> Provider \<Rightarrow> bool"
  for hst svc zone where
  reachable_new: "reachable hst svc zone (NewProvider svc zone)"
| reachable_refresh:
    "reachable hst svc zone p \<Longrightarrow> run_state (Refresh hst p) h = ((e, p'), h') \<Longrightarrow> reachable hst svc zone p'"

definition catalogue_inv :: "Provider \<Rightarrow> bool" where
  "catalogue_inv p \<longleftrightarrow>
     distinct (map fst (itp_instanceTypesByName p)) \<and> distinct (map fst (itp_plansByName p))
     \<and> (\<forall>n. map_of (itp_instanceTypesByName p) n =
           map_option (\<lambda>q. buildInstanceTypeWithPrices p q (itp_prices p)) (map_of (itp_plansByName p) n))
     \<and> (\<forall>n q. map_of (itp_plansByName p) n = Some q \<longrightarrow> plan_Name q = n)"

lemma Refresh_success:
  assumes "cl_GetPlans (itp_svc p) h = Inr plans"
  obtains p' h' where "run_state (Refresh hst p) h = ((None, p'), h')"
    and "itp_zone p' = itp_zone p" and "itp_svc p' = itp_svc p"
    and "catalogue_inv p'"
    and "map_of (itp_plansByName p') = last_plan plans"
proof -
  obtain e p1 h1 where r: "run_state (refreshPrices hst p) (h @ [EGetPlans]) = ((e, p1), h1)"
    by (metis prod.exhaust)
  obtain b rp where loop: "plan_loop p1 (itp_prices p1) plans ([], []) = (b, rp)" by fastforce
  let ?p = "p1\<lparr>itp_instanceTypesByName := b, itp_plansByName := rp\<rparr>"
  have "run_state (Refresh hst p) h = ((None, ?p), h1)"
    using r assms loop by (simp add: Refresh_def call_defs)
  moreover have "catalogue_inv ?p"
    using plan_loop_maps [OF loop] plan_loop_distinct [OF loop] last_plan_name build_zone_only [of ?p p1]
    by (simp add: catalogue_inv_def)
  moreover have "map_of (itp_plansByName ?p) = last_plan plans"
    using plan_loop_maps(1) [OF loop] by simp
  ultimately show thesis using that refreshPrices_frame [OF r] by simp
qed

lemma Refresh_failure:
  assumes "cl_GetPlans (itp_svc p) h = Inl e"
  shows "run_state (Refresh hst p) h = ((Some (Wrapf ''fetching plans'' e), p), h @ [EGetPlans])"
  using assms by (simp add: Refresh_def call_defs)

lemma reachable_inv: "reachable hst svc zone p \<Longrightarrow> catalogue_inv p \<and> itp_zone p = zone \<and> itp_svc p = svc"
proof (induction rule: reachable.induct)
  case reachable_new
  show ?case by (simp add: catalogue_inv_def NewProvider_def)
next
  case (reachable_refresh p h e p' h')
  show ?case
  proof (cases "cl_GetPlans (itp_svc p) h")
    case (Inl err)
    then show ?thesis using Refresh_failure [OF Inl, of hst] reachable_refresh by simp
  next
    case (Inr plans)
    then obtain q h'' where "run_state (Refresh hst p) h = ((None, q), h'')"
      and "itp_zone q = itp_zone p" "itp_svc q = itp_svc p" "catalogue_inv q"
      by (rule Refresh_success [where hst = hst])
    then show ?thesis using reachable_refresh by simp
  qed
qed

lemma catalogue_inv_name: "catalogue_inv p \<Longrightarrow> Get p n = Some q \<Longrightarrow> plan_Name q = n"
  unfolding catalogue_inv_def Get_def by blast

lemma catalogue_inv_entry:
  assumes "catalogue_inv p"
  shows "(n, it) \<in> set (itp_instanceTypesByName p) \<longleftrightarrow>
    (\<exists>q. Get p n = Some q \<and> it = buildInstanceTypeWithPrices p q (itp_prices p))"
proof -
  have "distinct (map fst (itp_instanceTypesByName p))" using assms unfolding catalogue_inv_def by blast
  then have "(n, it) \<in> set (itp_instanceTypesByName p) \<longleftrightarrow> map_of (itp_instanceTypesByName p) n = Some it"
    by simp
  also have "map_of (itp_instanceTypesByName p) n =
      map_option (\<lambda>q. buildInstanceTypeWithPrices p q (itp_prices p)) (Get p n)"
    using assms unfolding catalogue_inv_def Get_def by blast
  finally show ?thesis by (cases "Get p n") auto
qed

lemma catalogue_types:
  assumes "catalogue_inv p"
  shows "set (List p) =
    {buildInstanceTypeWithPrices p q (itp_prices p) | q. Get p (plan_Name q) = Some q}"
proof -
  have "it \<in> set (List p) \<longleftrightarrow> (\<exists>n. (n, it) \<in> set (itp_instanceTypesByName p))" for it
    by (force simp: List_def image_iff)
  then have "it \<in> set (List p) \<longleftrightarrow>
      (\<exists>n q. Get p n = Some q \<and> it = buildInstanceTypeWithPrices p q (itp_prices p))" for it
    using catalogue_inv_entry [OF assms] by simp
  then show ?thesis using catalogue_inv_name [OF assms] by blast
qed

lemma catalogue_names:
  assumes "catalogue_inv p"
  shows "map it_Name (List p) = map fst (itp_instanceTypesByName p)"
proof -
  have "it_Name it = n" if "(n, it) \<in> set (itp_instanceTypesByName p)" for n it
    using that catalogue_inv_name [OF assms] by (auto simp: catalogue_inv_entry [OF assms])
  then show ?thesis by (auto simp: List_def)
qed

section \<open>When prices are fetched\<close>

lemma refreshPrices_run:
  "run_state (refreshPrices hst p) h =
     (if Since (fst (h_Now hst h)) (itp_lastFetch p) < itp_cacheTTL p then ((None, p), h @ [ENow])
      else (case cl_GetPricesByZone (itp_svc p) (h @ [ENow]) of
              Inl e \<Rightarrow> ((Some (Wrapf ''fetching prices'' e), p), h @ [ENow, EGetPrices])
            | Inr pbz \<Rightarrow>
                ((None, p\<lparr>itp_prices := price_loop (zone_prices (itp_zone p) pbz) [],
                         itp_lastFetch := fst (h_Now hst (h @ [ENow, EGetPrices]))\<rparr>),
                 h @ [ENow, EGetPrices, ENow])))"
  by (simp add: refreshPrices_def call_defs split: prod.split sum.split)

lemma Refresh_run:
  "run_state (Refresh hst p) h =
     (case cl_GetPlans (itp_svc p) h of
        Inl e \<Rightarrow> ((Some (Wrapf ''fetching plans'' e), p), h @ [EGetPlans])
      | Inr plans \<Rightarrow>
          (let ((_, p1), h1) = run_state (refreshPrices hst p) (h @ [EGetPlans]);
               (built, rawPlans) = plan_loop p1 (itp_prices p1) plans ([], [])
           in ((None, p1\<lparr>itp_instanceTypesByName := built, itp_plansByName := rawPlans\<rparr>), h1)))"
  by (simp add: Refresh_def call_defs split: sum.split prod.split)

text \<open>A process that refreshes \<open>n\<close> times.\<close>

fun refresh_times :: "host \<Rightarrow> Provider \<Rightarrow> nat \<Rightarrow> Provider prog" where
  "refresh_times hst p 0 = ret p"
| "refresh_times hst p (Suc n) = do { (_, p') \<leftarrow> Refresh hst p; refresh_times hst p' n }"

definition price_fetches :: "history \<Rightarrow> nat" where
  "price_fetches evs = length (filter (\<lambda>e. e = EGetPrices) evs)"

lemma price_fetches_simps [simp]:
  "price_fetches [] = 0"
  "price_fetches (e # evs) = (if e = EGetPrices then Suc (price_fetches evs) else price_fetches evs)"
  "price_fetches (evs @ evs') = price_fetches evs + price_fetches evs'"
  by (simp_all add: price_fetches_def)

text \<open>All readings of the clock fall in one cache period.\<close>

definition clock_within :: "host \<Rightarrow> gotime \<Rightarrow> duration \<Rightarrow> bool" where
  "clock_within hst t d \<longleftrightarrow> (\<forall>h. t \<le> fst (h_Now hst h) \<and> fst (h_Now hst h) < t + d)"

lemma fresh_within:
  assumes "clock_within hst t d" and "is_duration d" and "t \<le> lf"
  shows "Since (fst (h_Now hst h)) lf < d"
proof -
  have t: "t \<le> fst (h_Now hst h)" "fst (h_Now hst h) < t + d"
    using assms(1) by (simp_all add: clock_within_def)
  then have "0 < d" by simp
  then have "minDuration < d" by (simp add: minDuration_def)
  moreover have "fst (h_Now hst h) - lf < d" using t assms(3) by simp
  ultimately show ?thesis using Since_less_iff [OF assms(2)] by blast
qed

lemma refreshPrices_fetches:
  assumes "clock_within hst t (itp_cacheTTL p)" and "is_duration (itp_cacheTTL p)"
    and "\<And>h. \<exists>pbz. cl_GetPricesByZone (itp_svc p) h = Inr pbz"
    and "run_state (refreshPrices hst p) h = ((e, p'), h')"
  obtains evs where "h' = h @ evs"
    and "price_fetches evs + (if t \<le> itp_lastFetch p' then 0 else 1) \<le> (if t \<le> itp_lastFetch p then 0 else 1)"
proof (cases "Since (fst (h_Now hst h)) (itp_lastFetch p) < itp_cacheTTL p")
  case True
  then show ?thesis using assms(4) that [of "[ENow]"] by (simp add: refreshPrices_run)
next
  case False
  then have "\<not> t \<le> itp_lastFetch p" using fresh_within [OF assms(1,2)] by blast
  moreover obtain pbz where pbz: "cl_GetPricesByZone (itp_svc p) (h @ [ENow]) = Inr pbz"
    using assms(3) by blast
  moreover have "t \<le> itp_lastFetch p'"
    using assms(1,4) False pbz by (auto simp: refreshPrices_run clock_within_def)
  ultimately show ?thesis
    using assms(4) False that [of "[ENow, EGetPrices, ENow]"] by (simp add: refreshPrices_run)
qed

lemma Refresh_fetches:
  assumes "clock_within hst t (itp_cacheTTL p)" and "is_duration (itp_cacheTTL p)"
    and "\<And>h. \<exists>pbz. cl_GetPricesByZone (itp_svc p) h = Inr pbz"
    and "run_state (Refresh hst p) h = ((e, p'), h')"
  obtains evs where "h' = h @ evs" and "itp_cacheTTL p' = itp_cacheTTL p" and "itp_svc p' = itp_svc p"
    and "price_fetches evs + (if t \<le> itp_lastFetch p' then 0 else 1) \<le> (if t \<le> itp_lastFetch p then 0 else 1)"
proof (cases "cl_GetPlans (itp_svc p) h")
  case (Inl err)
  then show ?thesis using assms(4) that [of "[EGetPlans]"] by (simp add: Refresh_run)
next
  case (Inr plans)
  obtain e1 p1 h1 where r: "run_state (refreshPrices hst p) (h @ [EGetPlans]) = ((e1, p1), h1)"
    by (metis prod.exhaust)
  obtain evs where evs: "h1 = (h @ [EGetPlans]) @ evs"
    and le: "price_fetches evs + (if t \<le> itp_lastFetch p1 then 0 else 1) \<le> (if t \<le> itp_lastFetch p then 0 else 1)"
    by (rule refreshPrices_fetches [OF assms(1-3) r])
  have "h' = h1" and "itp_lastFetch p' = itp_lastFetch p1"
    and "itp_cacheTTL p' = itp_cacheTTL p" and "itp_svc p' = itp_svc p"
    using assms(4) Inr r refreshPrices_frame [OF r] by (auto simp: Refresh_run split: prod.splits)
  then show ?thesis using that [of "EGetPlans # evs"] evs le by simp
qed

lemma refresh_times_fetches:
  assumes "clock_within hst t (itp_cacheTTL p)" and "is_duration (itp_cacheTTL p)"
    and "\<And>h. \<exists>pbz. cl_GetPricesByZone (itp_svc p) h = Inr pbz"
  shows "\<exists>evs. snd (run_state (refresh_times hst p n) h) = h @ evs
    \<and> price_fetches evs \<le> (if t \<le> itp_lastFetch p then 0 else 1)"
  using assms
proof (induction n arbitrary: p h)
  case (Suc n)
  obtain e p' h' where r: "run_state (Refresh hst p) h = ((e, p'), h')" by (metis prod.exhaust)
  obtain evs where p': "h' = h @ evs" "itp_cacheTTL p' = itp_cacheTTL p" "itp_svc p' = itp_svc p"
    and le: "price_fetches evs + (if t \<le> itp_lastFetch p' then 0 else 1) \<le> (if t \<le> itp_lastFetch p then 0 else 1)"
    by (rule Refresh_fetches [OF Suc.prems r])
  obtain evs' where "snd (run_state (refresh_times hst p' n) h') = h' @ evs'"
    and "price_fetches evs' \<le> (if t \<le> itp_lastFetch p' then 0 else 1)"
    using Suc.IH [of p' h'] Suc.prems p' by auto
  then show ?case using r p'(1) le by (intro exI [of _ "evs @ evs'"]) auto
qed simp

section \<open>The contract of a catalogue\<close>

locale catalogue =
  fixes inv :: "'p \<Rightarrow> bool" and types :: "'p \<Rightarrow> InstanceType list" and lookup :: "'p \<Rightarrow> string \<Rightarrow> Plan option"
  assumes advertised_known:
      "inv p \<Longrightarrow> it \<in> set (types p) \<Longrightarrow> \<exists>plan. lookup p (it_Name it) = Some plan \<and> plan_Name plan = it_Name it"
    and known_advertised: "inv p \<Longrightarrow> lookup p n = Some plan \<Longrightarrow> \<exists>it \<in> set (types p). it_Name it = n"
    and names_distinct: "inv p \<Longrightarrow> distinct (map it_Name (types p))"
begin

lemma names_are_the_domain: "inv p \<Longrightarrow> it_Name ` set (types p) = dom (lookup p)"
  using advertised_known known_advertised by (fastforce simp: dom_def)

lemma type_of_plan_unique:
  assumes "inv p" and "lookup p n = Some plan"
  shows "\<exists>!it. it \<in> set (types p) \<and> it_Name it = n"
  using known_advertised [OF assms] names_distinct [OF assms(1)] by (auto simp: distinct_map inj_on_def)

end

interpretation plans: catalogue catalogue_inv List Get
proof
  fix p it
  assume "catalogue_inv p" and "it \<in> set (List p)"
  then show "\<exists>plan. Get p (it_Name it) = Some plan \<and> plan_Name plan = it_Name it"
    by (auto simp: catalogue_types)
next
  fix p n plan
  assume inv: "catalogue_inv p" and "Get p n = Some plan"
  moreover from this have "plan_Name plan = n" by (simp add: catalogue_inv_def Get_def)
  ultimately show "\<exists>it \<in> set (List p). it_Name it = n"
    by (intro bexI [of _ "buildInstanceTypeWithPrices p plan (itp_prices p)"]) (auto simp: catalogue_types)
next
  fix p
  assume "catalogue_inv p"
  then show "distinct (map it_Name (List p))" by (simp add: catalogue_names) (simp add: catalogue_inv_def)
qed

section \<open>Properties\<close>

text \<open>
  C34. The capacities of an instance type are those of the plan, clamped at zero and saturated:
  the processor count is the plan's or zero; the memory in bytes is the plan's mebibytes times
  2^20, or zero for a negative amount, or the largest 64-bit integer where the product does not
  fit, so no amount ever wraps around; the accelerator resource is there exactly for a positive
  number of them.
\<close>

theorem buildInstanceType_capacity:
  "it_Capacity (buildInstanceTypeWithPrices p plan prices) = cap \<longleftrightarrow>
     (\<exists>cpu mem gpu. cap = [(ResourceCPU, cpu), (ResourceMemory, mem), (ResourcePods, NewQuantity 110 DecimalSI)] @ gpu
        \<and> cpu = NewQuantity (word_of_int (max 0 (sint (plan_CoreNumber plan)))) DecimalSI
        \<and> q_format mem = BinarySI
        \<and> sint (q_value mem) = min (max 0 (sint (plan_MemoryAmount plan)) * 1048576) (2 ^ 63 - 1)
        \<and> gpu = (if 0 < sint (plan_GPUAmount plan)
                 then [(ResourceNvidiaGPU, NewQuantity (plan_GPUAmount plan) DecimalSI)] else []))"
proof -
  have cores: "max_zero x = word_of_int (max 0 (sint x))" for x :: int64
    by (simp add: max_zero_def)
  have gpu: "0 < sint (max_zero x) \<longleftrightarrow> 0 < sint x" and "0 < sint x \<Longrightarrow> max_zero x = x" for x :: int64
    by (simp_all add: max_zero_def)
  have mem: "sint (memory_bytes (max_zero x)) = min (max 0 (sint x) * 1048576) (2 ^ 63 - 1)" for x
    using sint_memory_bytes [of "max_zero x"] by (simp add: sint_max_zero MaxInt64_def)
  have mem_eq: "m = NewQuantity (memory_bytes (max_zero x)) BinarySI \<longleftrightarrow>
      q_format m = BinarySI \<and> sint (q_value m) = min (max 0 (sint x) * 1048576) (2 ^ 63 - 1)" for m x
    unfolding mem [symmetric] by (cases m) (auto simp: NewQuantity_def signed_word_eqI)
  show ?thesis
    unfolding buildInstanceTypeWithPrices_def Let_def mem_eq [symmetric] conj_assoc [symmetric]
    using gpu \<open>\<And>x. 0 < sint x \<Longrightarrow> max_zero x = x\<close> by (auto simp: cores [symmetric])
qed

text \<open>
  C35. What Karpenter schedules by is unambiguous: an instance type never has two requirements on
  the same key, every requirement is one value of the operator In, and the one on the capacity
  type says the same as the single offering, spot exactly for a plan whose name contains SPOT
  in any case.
\<close>

theorem buildInstanceType_requirements:
  "distinct (map req_Key (it_Requirements (buildInstanceTypeWithPrices p plan prices)))
   \<and> list_all (\<lambda>r. req_Operator r = NodeSelectorOpIn \<and> length (req_Values r) = 1)
       (it_Requirements (buildInstanceTypeWithPrices p plan prices))
   \<and> (\<exists>off. it_Offerings (buildInstanceTypeWithPrices p plan prices) = [off]
        \<and> off_Requirements off =
            filter (\<lambda>r. req_Key r = CapacityTypeLabelKey)
              (it_Requirements (buildInstanceTypeWithPrices p plan prices))
        \<and> map req_Values (off_Requirements off) =
            [[if Contains (ToUpper (plan_Name plan)) ''SPOT'' then ''spot'' else ''on-demand'']])"
proof (intro conjI)
  show "list_all (\<lambda>r. req_Operator r = NodeSelectorOpIn \<and> length (req_Values r) = 1)
       (it_Requirements (buildInstanceTypeWithPrices p plan prices))"
    by (simp add: buildInstanceTypeWithPrices_def Let_def NewRequirement_def)
  show "\<exists>off. it_Offerings (buildInstanceTypeWithPrices p plan prices) = [off]
        \<and> off_Requirements off =
            filter (\<lambda>r. req_Key r = CapacityTypeLabelKey)
              (it_Requirements (buildInstanceTypeWithPrices p plan prices))
        \<and> map req_Values (off_Requirements off) =
            [[if Contains (ToUpper (plan_Name plan)) ''SPOT'' then ''spot'' else ''on-demand'']]"
    by (simp add: buildInstanceTypeWithPrices_def Let_def NewRequirement_def IsSpotPlan_def
        instance_label_defs)
qed (rule build_requirements_keys)

text \<open>
  C4. In every state the process can reach, the catalogue is consistent: the advertised instance
  types are exactly the ones built from the plans that \<open>Get\<close> knows, at the cached prices, one for each name.
\<close>

theorem catalogue_consistent:
  assumes "reachable hst svc zone p"
  shows "set (List p) = {buildInstanceTypeWithPrices p q (itp_prices p) | q. Get p (plan_Name q) = Some q}
    \<and> it_Name ` set (List p) = dom (Get p) \<and> distinct (map it_Name (List p))"
  using reachable_inv [OF assms] catalogue_types plans.names_are_the_domain plans.names_distinct by blast

definition ex_plan :: Plan where
  "ex_plan = \<lparr>plan_Name = ''2xCPU-4GB'', plan_CoreNumber = 2, plan_MemoryAmount = 4096,
     plan_StorageSize = 80, plan_GPUAmount = 0, plan_GPUModel = ''''\<rparr>"

definition ex_cloud :: cloud_service where
  "ex_cloud = down_cloud\<lparr>cl_GetPlans := \<lambda>_. Inr [ex_plan]\<rparr>"

definition ex_provider :: Provider where
  "ex_provider = snd (fst (run_state (Refresh (still_host 0 '''') (NewProvider ex_cloud ''fi-hel1'')) []))"

lemma ex_provider_reachable: "reachable (still_host 0 '''') ex_cloud ''fi-hel1'' ex_provider"
proof -
  let ?run = "run_state (Refresh (still_host 0 '''') (NewProvider ex_cloud ''fi-hel1'')) []"
  have "?run = ((fst (fst ?run), ex_provider), snd ?run)" by (simp add: ex_provider_def)
  then show ?thesis by (rule reachable_refresh [OF reachable_new])
qed

theorem catalogue_consistent_witness:
  "it_Name ` set (List ex_provider) = dom (Get ex_provider)"
  using catalogue_consistent [OF ex_provider_reachable] by blast

text \<open>
  \<open>Refresh\<close> is all or nothing on the plans: where they can be fetched it succeeds, whatever
  happens to the prices, and \<open>Get\<close> then knows exactly the fetched plans, a later one replacing an
  earlier one of the same name; where they cannot be fetched the error is reported, the provider
  is unchanged and no price is asked for.
\<close>

theorem Refresh_replaces_or_keeps:
  "case cl_GetPlans (itp_svc p) h of
     Inl e \<Rightarrow> run_state (Refresh hst p) h = ((Some (Wrapf ''fetching plans'' e), p), h @ [EGetPlans])
   | Inr plans \<Rightarrow> \<exists>p' h'. run_state (Refresh hst p) h = ((None, p'), h')
       \<and> (\<forall>n. Get p' n = map_of (rev (map (\<lambda>q. (plan_Name q, q)) plans)) n)
       \<and> it_Name ` set (List p') = plan_Name ` set plans"
proof (cases "cl_GetPlans (itp_svc p) h")
  case (Inl e)
  then show ?thesis by (simp add: Refresh_failure)
next
  case (Inr plans)
  then obtain p' h' where run: "run_state (Refresh hst p) h = ((None, p'), h')"
    and inv: "catalogue_inv p'" and maps: "map_of (itp_plansByName p') = last_plan plans"
    by (rule Refresh_success [where hst = hst])
  have get: "Get p' = last_plan plans" by (simp add: Get_def maps fun_eq_iff)
  have "dom (last_plan plans) = plan_Name ` set plans"
    by (simp add: last_plan_def dom_map_of_conv_image_fst image_image)
  then have "it_Name ` set (List p') = plan_Name ` set plans"
    using plans.names_are_the_domain [OF inv] get by simp
  moreover have "Get p' n = map_of (rev (map (\<lambda>q. (plan_Name q, q)) plans)) n" for n
    by (simp add: get last_plan_def)
  ultimately show ?thesis using run Inr by simp
qed

text \<open>
  The price of a plan is the zone's price for the plan's name, else for its name with the
  prefix \<^verbatim>\<open>server_plan_\<close>, wherever the price list does not hold both.
\<close>

theorem plan_price:
  assumes "distinct (map fst (zone_prices zone pbz))"
    and "\<not> HasPrefix n ''server_plan_''"
    and "\<not> (n \<in> fst ` set (zone_prices zone pbz) \<and> ''server_plan_'' @ n \<in> fst ` set (zone_prices zone pbz))"
  shows "map_of (price_loop (zone_prices zone pbz) []) n =
    (case map_of (zone_prices zone pbz) n of
       Some q \<Rightarrow> Some q
     | None \<Rightarrow> map_of (zone_prices zone pbz) (''server_plan_'' @ n))"
  using price_loop_unprefixed [of n "zone_prices zone pbz" "[]"] assms
    prices_for_distinct [of "zone_prices zone pbz" n]
  unfolding server_plan_prefix_def [symmetric] by (auto split: option.splits)

theorem plan_price_witness:
  "map_of (price_loop (zone_prices ''fi-hel1'' [(''fi-hel1'', [(''server_plan_1xCPU-1GB'', 7)])]) []) ''1xCPU-1GB''
     = Some 7"
  by (subst plan_price) (simp_all add: zone_prices_def HasPrefix_def)

text \<open>
  Where the price list holds both, the price depends on the order in which Go happens to
  traverse the map: the same two entries in the two orders give two prices.
\<close>

theorem plan_price_order_dependent:
  "map_of (price_loop [(''1xCPU-1GB'', 5), (''server_plan_1xCPU-1GB'', 7)] []) ''1xCPU-1GB'' = Some 7
   \<and> map_of (price_loop [(''server_plan_1xCPU-1GB'', 7), (''1xCPU-1GB'', 5)] []) ''1xCPU-1GB'' = Some 5"
  by (simp add: TrimPrefix_def HasPrefix_def server_plan_prefix_def Let_def)


text \<open>
  The price list is fetched at most once in a cache period: however often the catalogue is
  refreshed while the clock stays within one period, and whatever the plans endpoint answers, a
  price list that can be fetched is asked for at most once.
\<close>

theorem prices_fetched_once:
  assumes "clock_within hst t (30 * Minute)"
    and "\<forall>h. \<exists>pbz. cl_GetPricesByZone svc h = Inr pbz"
  shows "\<exists>evs. snd (run_state (refresh_times hst (NewProvider svc zone) n) h) = h @ evs
    \<and> price_fetches evs \<le> 1"
proof -
  have "is_duration (30 * Minute)" by (simp add: is_duration_def minDuration_def maxDuration_def Minute_def)
  then show ?thesis
    using refresh_times_fetches [of hst t "NewProvider svc zone" n h] assms
    by (auto simp: NewProvider_def split: if_splits)
qed

theorem prices_fetched_once_witness:
  "\<exists>evs. snd (run_state (refresh_times (still_host 0 '''')
       (NewProvider (ex_cloud\<lparr>cl_GetPricesByZone := \<lambda>_. Inr []\<rparr>) ''fi-hel1'') 3) []) = [] @ evs
     \<and> price_fetches evs \<le> 1"
  by (rule prices_fetched_once [where t = 0]) (simp_all add: clock_within_def Minute_def)

end
