(* ===== verification/CloudProvider.thy ===== *)
theory CloudProvider
  imports Kubelet_Cert Instance InstanceTypes
begin

text \<open>
  The Karpenter cloud provider, \<^verbatim>\<open>pkg/cloudprovider/cloudprovider.go\<close>, and the event of
  \<^verbatim>\<open>pkg/events/cloudprovider.go\<close>: what Karpenter calls to create, delete, look up and list
  nodes and to detect drift.

  The definitions follow the file; \<open>Create\<close> is cut into the steps its comments name. The
  imported functions it depends on are the record \<open>create_libs\<close>: the hash of
  \<open>NodeClass_Api\<close>, the encoder of \<open>UserData\<close>, key generation and polling of
  \<open>Kubelet_Cert\<close>, and \<^verbatim>\<open>lo.Assign\<close>, of which the hypothesis \<open>assigns\<close> says that the
  result is a fresh map in which a later argument wins. Log output is left out.
\<close>

section \<open>Definitions\<close>

subsection \<open>Errors\<close>

text \<open>The two error types of \<^verbatim>\<open>sigs.k8s.io/karpenter/pkg/cloudprovider\<close> around a Go error, and a plain error.\<close>

datatype cp_error =
    NodeClaimNotFoundError goerror
  | InsufficientCapacityError goerror
  | PlainError goerror

fun cp_panics :: "cp_error \<Rightarrow> bool" where
  "cp_panics (NodeClaimNotFoundError e) = is_panic e"
| "cp_panics (InsufficientCapacityError e) = is_panic e"
| "cp_panics (PlainError e) = is_panic e"

subsection \<open>cloudprovider.go\<close>

record UpCloudCloudProvider =
  cp_Client :: kube_client
  cp_kubernetesInterface :: csr_client
  cp_instanceProvider :: InstanceProvider
  cp_instanceTypeProvider :: Provider
  cp_zone :: string
  cp_clusterEndpoint :: string
  cp_repairToleration :: duration

definition NewCloudProvider ::
  "kube_client \<Rightarrow> csr_client \<Rightarrow> InstanceProvider \<Rightarrow> Provider \<Rightarrow> string \<Rightarrow> string \<Rightarrow> duration \<Rightarrow> UpCloudCloudProvider" where
  "NewCloudProvider kubeClient kubeInterface instanceProvider instanceTypeProvider zone clusterEndpoint repairToleration =
     \<lparr>cp_Client = kubeClient, cp_kubernetesInterface = kubeInterface, cp_instanceProvider = instanceProvider,
      cp_instanceTypeProvider = instanceTypeProvider, cp_zone = zone, cp_clusterEndpoint = clusterEndpoint,
      cp_repairToleration = repairToleration\<rparr>"

text \<open>The imported functions \<open>Create\<close> depends on.\<close>

record create_libs =
  lib_hash :: hasher
  lib_yaml :: yaml_encoder
  lib_Assign :: "labels list \<Rightarrow> labels"
  lib_crypto :: crypto
  lib_poll :: poller

fun instanceTypeRequirement_loop :: "ClaimRequirement list \<Rightarrow> ClaimRequirement option" where
  "instanceTypeRequirement_loop [] = None"
| "instanceTypeRequirement_loop (r # rs) =
     (if cr_Key r = LabelInstanceTypeStable then Some r else instanceTypeRequirement_loop rs)"

definition instanceTypeRequirement :: "NodeClaim \<Rightarrow> ClaimRequirement option" where
  "instanceTypeRequirement nc = instanceTypeRequirement_loop (nc_Requirements nc)"

definition resolveNodeClass :: "UpCloudCloudProvider \<Rightarrow> NodeClaim \<Rightarrow> (goerror + UpCloudNodeClass) prog" where
  "resolveNodeClass p nodeClaim =
     (case nc_NodeClassRef nodeClaim of
        None \<Rightarrow> ret (Inl (StatusErr ReasonNotFound (''upcloudnodeclasses.'' @ Group @ '' '' @ [dquote, dquote] @ '' not found'')))
      | Some ref \<Rightarrow> GetNodeClass (cp_Client p) (ncr_Name ref))"

text \<open>\<^verbatim>\<open>s[:16]\<close> panics on a shorter string.\<close>

definition server_name :: "string \<Rightarrow> goerror + string" where
  "server_name uuid =
     (let s = ReplaceAll uuid CHR ''-'' '''' in
      if length s < 16 then Inl (Panic ''slice bounds out of range'') else Inr (''karpenter-'' @ take 16 s))"

definition chosen_plan :: "UpCloudNodeClass \<Rightarrow> NodeClaim \<Rightarrow> string" where
  "chosen_plan nodeClass nodeClaim =
     (case instanceTypeRequirement nodeClaim of
        None \<Rightarrow> spec_Plan (cls_Spec nodeClass)
      | Some req \<Rightarrow> (case cr_Values req of [] \<Rightarrow> spec_Plan (cls_Spec nodeClass) | v # _ \<Rightarrow> v))"

definition base_labels :: "string \<Rightarrow> string \<Rightarrow> (string \<times> string) list" where
  "base_labels zone plan =
     (let capacityType = (if IsSpotPlan plan then CapacityTypeSpot else CapacityTypeOnDemand) in
      [(''topology.kubernetes.io/region'', zone),
       (''topology.kubernetes.io/zone'', zone),
       (''failure-domain.beta.kubernetes.io/region'', zone),
       (''failure-domain.beta.kubernetes.io/zone'', zone),
       (LabelInstanceTypeStable, plan),
       (LabelArchStable, ''amd64''),
       (LabelOSStable, ''linux''),
       (CapacityTypeLabelKey, capacityType)])"

definition node_labels ::
  "create_libs \<Rightarrow> UpCloudCloudProvider \<Rightarrow> string \<Rightarrow> UpCloudNodeClass \<Rightarrow> NodeClaim \<Rightarrow> labels" where
  "node_labels L p plan nodeClass nodeClaim =
     lib_Assign L [Some (base_labels (cp_zone p) plan), spec_Labels (cls_Spec nodeClass), om_Labels (nc_Meta nodeClaim)]"

definition node_taints :: "UpCloudNodeClass \<Rightarrow> NodeClaim \<Rightarrow> Taint list" where
  "node_taints nodeClass nodeClaim =
     [UnregisteredNoExecuteTaint]
     @ map (\<lambda>t. \<lparr>taint_Key = kt_Key t, taint_Value = kt_Value t, taint_Effect = kt_Effect t\<rparr>)
         (elements (spec_Taints (cls_Spec nodeClass)))
     @ nc_Taints nodeClaim"

definition node_storage :: "UpCloudCloudProvider \<Rightarrow> string \<Rightarrow> UpCloudNodeClass \<Rightarrow> StorageSpec option" where
  "node_storage p plan nodeClass =
     (let storage = spec_Storage (cls_Spec nodeClass) in
      case InstanceTypes.Get (cp_instanceTypeProvider p) plan of
        None \<Rightarrow> storage
      | Some planInfo \<Rightarrow>
          if 0 < sint (plan_StorageSize planInfo) then
            (let encrypted = (case storage of None \<Rightarrow> None | Some st \<Rightarrow> st_Encrypted st)
             in Some \<lparr>st_Size = plan_StorageSize planInfo, st_Tier = '''', st_Encrypted = encrypted\<rparr>)
          else storage)"

definition server_capacity :: "ServerDetails \<Rightarrow> ResourceList" where
  "server_capacity server =
     [(ResourceCPU, NewQuantity (sd_CoreNumber server) DecimalSI),
      (ResourceMemory, NewQuantity (sd_MemoryAmount server * 1024 * 1024) BinarySI),
      (ResourcePods, NewQuantity 110 DecimalSI)]"

definition created_claim ::
  "hasher \<Rightarrow> string \<Rightarrow> labels \<Rightarrow> UpCloudNodeClass \<Rightarrow> NodeClassReference \<Rightarrow> ServerDetails \<Rightarrow> NodeClaim" where
  "created_claim hs serverName nodeLabels nodeClass ref server =
     \<lparr>nc_Meta = zeroMeta\<lparr>om_Name := serverName, om_Labels := nodeLabels, om_Annotations :=
         Some [(NodeClassHashAnnotationKey, Hash hs nodeClass),
               (NodeClassHashVersionAnnotationKey, NodeClassHashVersion)]\<rparr>,
      nc_NodeClassRef = Some \<lparr>ncr_Name = ncr_Name ref\<rparr>, nc_Requirements = [], nc_Taints = [],
      nc_ProviderID = ProviderIDPrefix @ sd_UUID server, nc_NodeName = sd_Hostname server,
      nc_Capacity = server_capacity server, nc_Allocatable = server_capacity server, nc_Conditions = []\<rparr>"

text \<open>The part of \<open>Create\<close> after the certificates are there.\<close>

definition launch ::
  "create_libs \<Rightarrow> UpCloudCloudProvider \<Rightarrow> NodeClaim \<Rightarrow> UpCloudNodeClass \<Rightarrow> string \<Rightarrow> string \<Rightarrow> kubeletCertBundle
     \<Rightarrow> (cp_error + NodeClaim) prog" where
  "launch L p nodeClaim nodeClass serverName caCertPEM certs =
     (let plan = chosen_plan nodeClass nodeClaim;
          nodeLabels = node_labels L p plan nodeClass nodeClaim;
          serverLabels = lib_Assign L [spec_Labels (cls_Spec nodeClass)]
      in case Generate (lib_yaml L)
            \<lparr>ud_ClusterEndpoint = cp_clusterEndpoint p, ud_CACertPEM = caCertPEM,
             ud_KubeletClientCert = kcb_ClientCertPEM certs, ud_KubeletClientKey = kcb_ClientKeyPEM certs,
             ud_Labels = nodeLabels, ud_Taints = node_taints nodeClass nodeClaim\<rparr> of
           Inl err \<Rightarrow> ret (Inl (PlainError (Wrapf ''generating userdata'' err)))
         | Inr userData \<Rightarrow>
             do {
               r \<leftarrow> Instance.Create (cp_instanceProvider p) serverName plan (cp_zone p) userData
                 (spec_ServerGroupUUID (cls_Spec nodeClass)) serverLabels (node_storage p plan nodeClass);
               (case r of
                  Inl err \<Rightarrow> ret (Inl (InsufficientCapacityError (Wrapf ''creating server'' err)))
                | Inr server \<Rightarrow>
                    (case nc_NodeClassRef nodeClaim of
                       None \<Rightarrow> ret (Inl (PlainError (Panic ''nil pointer dereference'')))
                     | Some ref \<Rightarrow> ret (Inr (created_claim (lib_hash L) serverName nodeLabels nodeClass ref server))))
             })"

text \<open>The part after the server has its name: the CA bundle, the certificates, and the launch.\<close>

definition provision ::
  "create_libs \<Rightarrow> UpCloudCloudProvider \<Rightarrow> NodeClaim \<Rightarrow> UpCloudNodeClass \<Rightarrow> string \<Rightarrow> (cp_error + NodeClaim) prog" where
  "provision L p nodeClaim nodeClass serverName =
     do {
       ca \<leftarrow> getCABundle (cp_Client p);
       (case ca of
          Inl err \<Rightarrow> ret (Inl (PlainError (Wrapf ''getting CA bundle'' err)))
        | Inr caCertPEM \<Rightarrow>
            do {
              kc \<leftarrow> generateKubeletCert (lib_crypto L) (lib_poll L) (cp_kubernetesInterface p) serverName;
              (case kc of
                 Inl err \<Rightarrow> ret (Inl (PlainError (Wrapf ''generating kubelet certificate'' err)))
               | Inr certs \<Rightarrow> launch L p nodeClaim nodeClass serverName caCertPEM certs)
            })
     }"

definition Create ::
  "create_libs \<Rightarrow> host \<Rightarrow> UpCloudCloudProvider \<Rightarrow> NodeClaim \<Rightarrow> (cp_error + NodeClaim) prog" where
  "Create L hst p nodeClaim =
     do {
       r \<leftarrow> resolveNodeClass p nodeClaim;
       (case r of
          Inl err \<Rightarrow> ret (Inl (PlainError (Wrapf ''resolving node class'' err)))
        | Inr nodeClass \<Rightarrow>
            do {
              uuid \<leftarrow> NewUUID hst;
              (case server_name uuid of
                 Inl panic \<Rightarrow> ret (Inl (PlainError panic))
               | Inr serverName \<Rightarrow> provision L p nodeClaim nodeClass serverName)
            })
     }"

definition Delete :: "UpCloudCloudProvider \<Rightarrow> NodeClaim \<Rightarrow> cp_error option prog" where
  "Delete p nodeClaim =
     (let serverUUID = TrimPrefix (nc_ProviderID nodeClaim) ProviderIDPrefix;
          delete =
            do {
              err \<leftarrow> Instance.Delete (cp_instanceProvider p) serverUUID;
              (case err of
                 None \<Rightarrow> ret None
               | Some e \<Rightarrow>
                   if Contains (Error e) ''SERVER_NOT_FOUND''
                   then ret (Some (NodeClaimNotFoundError (Wrapf ''server not found'' e)))
                   else ret (Some (PlainError e)))
            }
      in do {
           serr \<leftarrow> Stop (cp_instanceProvider p) serverUUID;
           (case serr of
              Some e \<Rightarrow>
                if Contains (Error e) ''SERVER_NOT_FOUND''
                then ret (Some (NodeClaimNotFoundError (Wrapf ''server not found'' e)))
                else if \<not> Contains (Error e) ''SERVER_STATE_ILLEGAL'' then ret (Some (PlainError e))
                else delete
            | None \<Rightarrow>
                do {
                  werr \<leftarrow> WaitForStop (cp_instanceProvider p) serverUUID;
                  (case werr of
                     Some e \<Rightarrow> ret (Some (PlainError (Wrapf ''waiting for server to stop'' e)))
                   | None \<Rightarrow> delete)
                })
         })"

definition buildNodeClaim :: "ServerDetails \<Rightarrow> string \<Rightarrow> NodeClaim" where
  "buildNodeClaim server zone =
     (let capacityType = (if IsSpotPlan (sd_Plan server) then CapacityTypeSpot else CapacityTypeOnDemand) in
      \<lparr>nc_Meta = zeroMeta\<lparr>om_Labels :=
          Some [(LabelInstanceTypeStable, sd_Plan server), (LabelArchStable, ''amd64''), (LabelOSStable, ''linux''),
                (LabelTopologyZone, zone), (CapacityTypeLabelKey, capacityType)]\<rparr>,
       nc_NodeClassRef = None, nc_Requirements = [], nc_Taints = [],
       nc_ProviderID = ProviderIDPrefix @ sd_UUID server, nc_NodeName = sd_Hostname server,
       nc_Capacity = server_capacity server, nc_Allocatable = server_capacity server, nc_Conditions = []\<rparr>)"

definition Get :: "UpCloudCloudProvider \<Rightarrow> string \<Rightarrow> (cp_error + NodeClaim) prog" where
  "Get p providerID =
     do {
       r \<leftarrow> Instance.Get (cp_instanceProvider p) (TrimPrefix providerID ProviderIDPrefix);
       (case r of
          Inl err \<Rightarrow> ret (Inl (NodeClaimNotFoundError (Wrapf ''getting server'' err)))
        | Inr server \<Rightarrow> ret (Inr (buildNodeClaim server (cp_zone p))))
     }"

definition List :: "UpCloudCloudProvider \<Rightarrow> (goerror + NodeClaim list) prog" where
  "List p =
     do {
       r \<leftarrow> Instance.List (cp_instanceProvider p);
       (case r of
          Inl err \<Rightarrow> ret (Inl (Wrapf ''listing servers'' err))
        | Inr servers \<Rightarrow> ret (Inr (map (\<lambda>s. buildNodeClaim s (cp_zone p)) servers)))
     }"

definition GetInstanceTypes :: "UpCloudCloudProvider \<Rightarrow> InstanceType list" where
  "GetInstanceTypes p = InstanceTypes.List (cp_instanceTypeProvider p)"

definition NodeClaimFailedToResolveNodeClass :: "NodeClaim \<Rightarrow> PublishedEvent" where
  "NodeClaimFailedToResolveNodeClass nodeClaim =
     \<lparr>ev_UID = om_UID (nc_Meta nodeClaim), ev_Type = ''Warning'', ev_Reason = ''NodeClaimFailedToResolveNodeClass'',
      ev_Message = ''Failed to resolve the UpCloudNodeClass for this NodeClaim; drift is not evaluated until the NodeClass exists again.'',
      ev_DedupeValues = [om_UID (nc_Meta nodeClaim), ''NodeClassUnresolvable'']\<rparr>"

text \<open>
  \<^verbatim>\<open>IgnoreNodeClaimNotFoundError\<close> of the Karpenter package turns a \<open>NodeClaimNotFoundError\<close>
  into nil. Here it is applied to a fresh \<^verbatim>\<open>fmt.Errorf\<close> around an error of the Kubernetes client,
  so it returns its argument.
\<close>

definition IsDrifted :: "hasher \<Rightarrow> UpCloudCloudProvider \<Rightarrow> NodeClaim \<Rightarrow> (string \<times> cp_error option) prog" where
  "IsDrifted hs p nodeClaim =
     do {
       r \<leftarrow> resolveNodeClass p nodeClaim;
       (case r of
          Inl err \<Rightarrow>
            if IsNotFound err then
              do {
                _ \<leftarrow> Publish (NodeClaimFailedToResolveNodeClass nodeClaim);
                ret ('''', None)
              }
            else ret ('''', Some (PlainError (Wrapf ''resolving node class'' err)))
        | Inr nodeClass \<Rightarrow>
            (let stored = map_read (nc_Annotations nodeClaim) NodeClassHashAnnotationKey in
             if stored = '''' then ret ('''', None)
             else if map_read (nc_Annotations nodeClaim) NodeClassHashVersionAnnotationKey \<noteq> NodeClassHashVersion
             then ret ('''', None)
             else if stored \<noteq> Hash hs nodeClass then ret (NodeClassDrifted, None)
             else ret ('''', None)))
     }"

definition Name :: "UpCloudCloudProvider \<Rightarrow> string" where
  "Name p = ''upcloud''"

definition GetSupportedNodeClasses :: "UpCloudNodeClass list" where
  "GetSupportedNodeClasses =
     [\<lparr>cls_Meta = zeroMeta,
       cls_Spec = \<lparr>spec_Zone = '''', spec_Plan = '''', spec_Storage = None, spec_SSHKeys = None,
         spec_KubeletArgs = None, spec_Labels = None, spec_Taints = None, spec_ServerGroupUUID = '''',
         spec_UtilityNetworkAccess = None\<rparr>,
       cls_Status = \<lparr>ncs_Conditions = [], ncs_Hash = ''''\<rparr>\<rparr>]"

record RepairPolicy =
  rp_ConditionType :: string
  rp_ConditionStatus :: string
  rp_TolerationDuration :: duration

definition RepairPolicies :: "UpCloudCloudProvider \<Rightarrow> RepairPolicy list" where
  "RepairPolicies p =
     [\<lparr>rp_ConditionType = NodeReady, rp_ConditionStatus = ConditionFalse, rp_TolerationDuration = cp_repairToleration p\<rparr>,
      \<lparr>rp_ConditionType = NodeReady, rp_ConditionStatus = ConditionUnknown, rp_TolerationDuration = cp_repairToleration p\<rparr>]"

section \<open>What lo.Assign promises\<close>

definition assigns :: "(labels list \<Rightarrow> labels) \<Rightarrow> bool" where
  "assigns assign \<longleftrightarrow>
     (\<forall>ms. assign ms \<noteq> None \<and> wf_map (assign ms)
        \<and> map_get (assign ms) = foldl (\<lambda>m g. m ++ map_get g) Map.empty ms)"

definition plain_assign :: "labels list \<Rightarrow> labels" where
  "plain_assign ms = Some (AList.clearjunk (concat (map map_entries (rev ms))))"

lemma map_of_concat_rev:
  "map_of (concat (map map_entries (rev ms))) = foldl (\<lambda>m g. m ++ map_get g) Map.empty ms"
  by (induction ms rule: rev_induct) (simp_all add: map_get_eq)

lemma plain_assign_assigns: "assigns plain_assign"
  by (simp add: assigns_def plain_assign_def wf_map_def distinct_clearjunk map_of_clearjunk
      map_of_concat_rev map_get_eq)

section \<open>Runs of Create\<close>

lemma getCABundle_run:
  "run_state (getCABundle c) h =
     (case k_GetConfigMap c h ''kube-system'' ''kube-root-ca.crt'' of
        Inl e \<Rightarrow> Inl (Wrapf ''getting kube-root-ca.crt'' e)
      | Inr cm \<Rightarrow> (case map_get (cm_Data cm) ''ca.crt'' of
                    None \<Rightarrow> Inl (ErrText ''ca.crt not found in kube-root-ca.crt'') | Some ca \<Rightarrow> Inr ca),
      h @ [EGetConfigMap ''kube-system'' ''kube-root-ca.crt''])"
  by (simp add: getCABundle_def call_defs split: sum.split option.split)

definition user_data_options ::
  "create_libs \<Rightarrow> UpCloudCloudProvider \<Rightarrow> NodeClaim \<Rightarrow> UpCloudNodeClass \<Rightarrow> string \<Rightarrow> kubeletCertBundle \<Rightarrow> UserDataOptions" where
  "user_data_options L p nc u ca certs =
     \<lparr>ud_ClusterEndpoint = cp_clusterEndpoint p, ud_CACertPEM = ca,
      ud_KubeletClientCert = kcb_ClientCertPEM certs, ud_KubeletClientKey = kcb_ClientKeyPEM certs,
      ud_Labels = node_labels L p (chosen_plan u nc) u nc, ud_Taints = node_taints u nc\<rparr>"

lemma launch_run:
  "run_state (launch L p nc u name ca certs) h =
     (case Generate (lib_yaml L) (user_data_options L p nc u ca certs) of
        Inl e \<Rightarrow> (Inl (PlainError (Wrapf ''generating userdata'' e)), h)
      | Inr ud \<Rightarrow>
          (case run_state (Instance.Create (cp_instanceProvider p) name (chosen_plan u nc) (cp_zone p) ud
                  (spec_ServerGroupUUID (cls_Spec u)) (lib_Assign L [spec_Labels (cls_Spec u)])
                  (node_storage p (chosen_plan u nc) u)) h of
             (Inl e, h') \<Rightarrow> (Inl (InsufficientCapacityError (Wrapf ''creating server'' e)), h')
           | (Inr server, h') \<Rightarrow>
               (case nc_NodeClassRef nc of
                  None \<Rightarrow> Inl (PlainError (Panic ''nil pointer dereference''))
                | Some ref \<Rightarrow> Inr (created_claim (lib_hash L) name (node_labels L p (chosen_plan u nc) u nc) u ref server), h')))"
  by (simp add: launch_def user_data_options_def Let_def split: sum.split prod.split option.split)

lemma resolveNodeClass_run:
  "run_state (resolveNodeClass p nc) h =
     (case nc_NodeClassRef nc of
        None \<Rightarrow> (Inl (StatusErr ReasonNotFound (''upcloudnodeclasses.'' @ Group @ '' '' @ [dquote, dquote] @ '' not found'')), h)
      | Some ref \<Rightarrow> (k_GetNodeClass (cp_Client p) h (ncr_Name ref), h @ [EGetNodeClass (ncr_Name ref)]))"
  by (simp add: resolveNodeClass_def call_defs split: option.split)

lemma emits_cert:
  assumes "polls poll"
  shows "emits (\<lambda>e. \<not> is_server_call e) (generateKubeletCert cr poll kc n)"
proof -
  have "emits (\<lambda>e. \<not> is_server_call e) (cert_condition kc m s)" for m s
    by (rule emits_mono [OF emits_cert_condition]) simp
  then have "emits (\<lambda>e. \<not> is_server_call e) (poll (cert_condition kc m) s)" for m s
    by (rule polls_emits [OF assms])
  then show ?thesis
    by (auto simp: generateKubeletCert_def approve_and_wait_def await_cert_def call_defs
        split: prod.split intro!: emits_rules)
qed

text \<open>
  A run either fails with a plain error before it touches the server API or reaches \<open>launch\<close>, with
  certificates the cluster issued.
\<close>

lemma provision_cases:
  assumes "polls (lib_poll L)"
  obtains (early) e evs where "run_state (provision L p nc u name) h = (Inl (PlainError e), h @ evs)"
      and "list_all (\<lambda>e. \<not> is_server_call e) evs"
    | (launch) ca certs evs where "run_state (provision L p nc u name) h = run_state (launch L p nc u name ca certs) (h @ evs)"
      and "list_all (\<lambda>e. \<not> is_server_call e) evs"
      and "fst (run_state (getCABundle (cp_Client p)) h) = Inr ca"
      and "\<exists>h'. fst (run_state (generateKubeletCert (lib_crypto L) (lib_poll L) (cp_kubernetesInterface p) name) h') = Inr certs"
proof -
  let ?ev = "EGetConfigMap ''kube-system'' ''kube-root-ca.crt''"
  obtain r where ca: "run_state (getCABundle (cp_Client p)) h = (r, h @ [?ev])" by (simp add: getCABundle_run)
  obtain c h' where cert: "run_state (generateKubeletCert (lib_crypto L) (lib_poll L) (cp_kubernetesInterface p) name) (h @ [?ev]) = (c, h')"
    by fastforce
  obtain evs where h': "h' = (h @ [?ev]) @ evs" and evs: "list_all (\<lambda>e. \<not> is_server_call e) evs"
    by (rule emits_extends [OF emits_cert [OF assms] cert])
  show thesis
  proof (cases r)
    case (Inl e)
    then show thesis using early [of _ "[?ev]"] ca by (simp add: provision_def)
  next
    case (Inr caPEM)
    note r = this
    show thesis
    proof (cases c)
      case (Inl e)
      then show thesis using early [of _ "?ev # evs"] r ca cert h' evs by (simp add: provision_def)
    next
      case (Inr certs)
      then have "run_state (provision L p nc u name) h = run_state (launch L p nc u name caPEM certs) (h @ ?ev # evs)"
        using r ca cert h' by (simp add: provision_def)
      moreover have "fst (run_state (generateKubeletCert (lib_crypto L) (lib_poll L) (cp_kubernetesInterface p) name) (h @ [?ev])) = Inr certs"
        using cert Inr by simp
      ultimately show thesis using launch [of caPEM certs "?ev # evs"] evs r ca by auto
    qed
  qed
qed

lemma Create_cases:
  assumes "polls (lib_poll L)"
  obtains (early) e evs where "run_state (Create L hst p nc) h = (Inl (PlainError e), h @ evs)"
      and "list_all (\<lambda>e. \<not> is_server_call e) evs"
    | (launch) ref u name ca certs evs where "nc_NodeClassRef nc = Some ref"
      and "k_GetNodeClass (cp_Client p) h (ncr_Name ref) = Inr u"
      and "server_name (h_NewUUID hst (h @ [EGetNodeClass (ncr_Name ref)])) = Inr name"
      and "run_state (Create L hst p nc) h = run_state (launch L p nc u name ca certs) (h @ evs)"
      and "list_all (\<lambda>e. \<not> is_server_call e) evs"
proof (cases "nc_NodeClassRef nc")
  case None
  then show thesis using early [of _ "[]"] by (simp add: Create_def resolveNodeClass_run)
next
  case (Some ref)
  let ?n = "EGetNodeClass (ncr_Name ref)"
  show thesis
  proof (cases "k_GetNodeClass (cp_Client p) h (ncr_Name ref)")
    case (Inl e)
    then show thesis using early [of _ "[?n]"] Some by (simp add: Create_def resolveNodeClass_run)
  next
    case (Inr u)
    note u = Inr
    show thesis
    proof (cases "server_name (h_NewUUID hst (h @ [?n]))")
      case (Inl e)
      then show thesis using early [of _ "[?n, ENewUUID]"] Some u by (simp add: Create_def resolveNodeClass_run NewUUID_def)
    next
      case (Inr name)
      then have run: "run_state (Create L hst p nc) h = run_state (provision L p nc u name) (h @ [?n, ENewUUID])"
        using Some u by (simp add: Create_def resolveNodeClass_run NewUUID_def)
      show thesis
      proof (cases rule: provision_cases [OF assms, of p nc u name "h @ [?n, ENewUUID]"])
        case (1 e evs)
        then show thesis using that(1) [of e "?n # ENewUUID # evs"] run by simp
      next
        case (2 ca certs evs)
        then show thesis using that(2) [OF Some u Inr, of ca certs "?n # ENewUUID # evs"] run by simp
      qed
    qed
  qed
qed

lemma launch_outcome:
  assumes "nc_NodeClassRef nc = Some ref"
  obtains (no_userdata) e where "run_state (launch L p nc u name ca certs) h = (Inl (PlainError e), h)"
    | (rejected) req e where "run_state (launch L p nc u name ca certs) h =
        (Inl (InsufficientCapacityError (Wrapf ''creating server'' e)), h @ [ECreateServer req])"
    | (created) req server where "run_state (launch L p nc u name ca certs) h =
        (Inr (created_claim (lib_hash L) name (node_labels L p (chosen_plan u nc) u nc) u ref server), h @ [ECreateServer req])"
      and "s_CreateServer (ip_svc (cp_instanceProvider p)) h req = Inr server"
      and "Generate (lib_yaml L) (user_data_options L p nc u ca certs) = Inr (csq_UserData req)"
      and "slice_lookup (csq_Labels req) =
        marks (cp_instanceProvider p) name (map_get (lib_Assign L [spec_Labels (cls_Spec u)]))"
      and "csq_Plan req = chosen_plan u nc" and "csq_Zone req = cp_zone p" and "csq_Hostname req = name"
      and "csq_StorageDevices req = [root_device (cp_instanceProvider p) name (node_storage p (chosen_plan u nc) u)]"
proof (cases "Generate (lib_yaml L) (user_data_options L p nc u ca certs)")
  case (Inl e)
  then show thesis using no_userdata by (simp add: launch_run)
next
  case (Inr ud)
  note ud = this
  obtain req where req: "run_state (Instance.Create (cp_instanceProvider p) name (chosen_plan u nc) (cp_zone p) ud
        (spec_ServerGroupUUID (cls_Spec u)) (lib_Assign L [spec_Labels (cls_Spec u)]) (node_storage p (chosen_plan u nc) u)) h
      = (s_CreateServer (ip_svc (cp_instanceProvider p)) h req, h @ [ECreateServer req])"
    and fields: "slice_lookup (csq_Labels req) =
        marks (cp_instanceProvider p) name (map_get (lib_Assign L [spec_Labels (cls_Spec u)]))"
      "csq_Plan req = chosen_plan u nc" "csq_Zone req = cp_zone p" "csq_Hostname req = name" "csq_UserData req = ud"
      "csq_StorageDevices req = [root_device (cp_instanceProvider p) name (node_storage p (chosen_plan u nc) u)]"
    by (rule Create_run)
  show thesis
  proof (cases "s_CreateServer (ip_svc (cp_instanceProvider p)) h req")
    case (Inl e)
    then show thesis using rejected [of e req] ud req by (simp add: launch_run)
  next
    case (Inr server)
    then show thesis using created [of server req] ud req fields assms by (simp add: launch_run)
  qed
qed

section \<open>Runs of Delete\<close>

lemma Delete_run:
  fixes nc :: NodeClaim and p :: UpCloudCloudProvider
  defines "uuid \<equiv> TrimPrefix (nc_ProviderID nc) ProviderIDPrefix"
    and "svc \<equiv> ip_svc (cp_instanceProvider p)"
  defines "stop \<equiv> EStopServer uuid ''hard'' (30 * Second)" and "wait \<equiv> EWaitForServerState uuid ServerStateStopped"
  defines "finish \<equiv> (\<lambda>h. (case s_DeleteServerAndStorages svc h uuid of
      None \<Rightarrow> None
    | Some e \<Rightarrow> Some (if Contains (Error e) ''SERVER_NOT_FOUND'' then NodeClaimNotFoundError (Wrapf ''server not found'' e)
                    else PlainError e), h @ [EDeleteServer uuid]))"
  shows "run_state (Delete p nc) h =
    (case s_StopServer svc h uuid ''hard'' (30 * Second) of
       Some e \<Rightarrow>
         if Contains (Error e) ''SERVER_NOT_FOUND''
         then (Some (NodeClaimNotFoundError (Wrapf ''server not found'' e)), h @ [stop])
         else if Contains (Error e) ''SERVER_STATE_ILLEGAL'' then finish (h @ [stop])
         else (Some (PlainError e), h @ [stop])
     | None \<Rightarrow>
         (case s_WaitForServerState svc (h @ [stop]) uuid ServerStateStopped of
            Some e \<Rightarrow> (Some (PlainError (Wrapf ''waiting for server to stop'' e)), h @ [stop, wait])
          | None \<Rightarrow> finish (h @ [stop, wait])))"
  unfolding assms
  by (simp add: Delete_def Let_def Stop_def WaitForStop_def Instance.Delete_def call_defs split: option.split)

section \<open>Runs of IsDrifted\<close>

lemma IsDrifted_run:
  "run_state (IsDrifted hs p nc) h =
     (case run_state (resolveNodeClass p nc) h of
        (Inl e, h') \<Rightarrow>
          if IsNotFound e then (('''', None), h' @ [EPublish (NodeClaimFailedToResolveNodeClass nc)])
          else (('''', Some (PlainError (Wrapf ''resolving node class'' e))), h')
      | (Inr u, h') \<Rightarrow>
          ((if map_read (nc_Annotations nc) NodeClassHashAnnotationKey \<noteq> ''''
               \<and> map_read (nc_Annotations nc) NodeClassHashVersionAnnotationKey = NodeClassHashVersion
               \<and> map_read (nc_Annotations nc) NodeClassHashAnnotationKey \<noteq> Hash hs u
            then NodeClassDrifted else '''', None), h'))"
  by (simp add: IsDrifted_def call_defs Let_def split: sum.split prod.split)

lemma created_claim_annotations:
  "map_read (nc_Annotations (created_claim hs name ls u ref s)) NodeClassHashAnnotationKey = Hash hs u"
  "map_read (nc_Annotations (created_claim hs name ls u ref s)) NodeClassHashVersionAnnotationKey = NodeClassHashVersion"
  by (simp_all add: created_claim_def map_read_def)

lemma created_claim_simps [simp]:
  "nc_ProviderID (created_claim hs name ls u ref s) = ProviderIDPrefix @ sd_UUID s"
  "nc_NodeClassRef (created_claim hs name ls u ref s) = Some \<lparr>ncr_Name = ncr_Name ref\<rparr>"
  "om_Labels (nc_Meta (created_claim hs name ls u ref s)) = ls"
  "nc_NodeName (created_claim hs name ls u ref s) = sd_Hostname s"
  "nc_Name (created_claim hs name ls u ref s) = name"
  "nc_Capacity (created_claim hs name ls u ref s) = server_capacity s"
  by (simp_all add: created_claim_def)

lemma Create_success:
  assumes "polls (lib_poll L)" and "fst (run_state (Create L hst p nc) h) = Inr nc'"
  obtains ref u name ca certs req server h' where "nc_NodeClassRef nc = Some ref"
    and "k_GetNodeClass (cp_Client p) h (ncr_Name ref) = Inr u"
    and "nc' = created_claim (lib_hash L) name (node_labels L p (chosen_plan u nc) u nc) u ref server"
    and "snd (run_state (Create L hst p nc) h) = h' @ [ECreateServer req]"
    and "s_CreateServer (ip_svc (cp_instanceProvider p)) h' req = Inr server"
    and "Generate (lib_yaml L) (user_data_options L p nc u ca certs) = Inr (csq_UserData req)"
    and "slice_lookup (csq_Labels req) =
        marks (cp_instanceProvider p) name (map_get (lib_Assign L [spec_Labels (cls_Spec u)]))"
    and "csq_Plan req = chosen_plan u nc" and "csq_Zone req = cp_zone p" and "csq_Hostname req = name"
    and "csq_StorageDevices req = [root_device (cp_instanceProvider p) name (node_storage p (chosen_plan u nc) u)]"
proof (cases rule: Create_cases [OF assms(1), of hst p nc h])
  case (1 e evs)
  then show thesis using assms(2) by simp
next
  case (2 ref u name ca certs evs)
  show thesis
    by (rule launch_outcome [OF 2(1), of L p u name ca certs "h @ evs"])
       (use assms(2) 2(4) in \<open>auto intro: that [OF 2(1,2)]\<close>)
qed

text \<open>A claim stamped with the hash of one class, checked against another.\<close>

lemma IsDrifted_spec_change:
  assumes "slices_as_sets hs" and "nc_NodeClassRef c = Some ref"
    and "map_read (nc_Annotations c) NodeClassHashAnnotationKey = Hash hs u"
    and "map_read (nc_Annotations c) NodeClassHashVersionAnnotationKey = NodeClassHashVersion"
    and "k_GetNodeClass (cp_Client q) h (ncr_Name ref) = Inr v"
    and "hs (hash_input (cls_Spec u)) = Inr x" and "hs (hash_input (cls_Spec v)) = Inr y"
    and "x = y \<Longrightarrow> same_spec (cls_Spec u) (cls_Spec v)"
  shows "fst (run_state (IsDrifted hs q c) h) = (if same_spec (cls_Spec u) (cls_Spec v) then '''' else NodeClassDrifted, None)"
proof -
  have "Hash hs u = Hash hs v \<longleftrightarrow> same_spec (cls_Spec u) (cls_Spec v)"
    using Hash_eq_iff [OF assms(6,7)] assms(8) Hash_same_spec [OF assms(1), of u v] by blast
  moreover have "Hash hs u \<noteq> ''''" using Hash_nonempty_iff assms(6) by blast
  ultimately show ?thesis using assms(2-5) by (simp add: IsDrifted_run resolveNodeClass_run)
qed

lemma node_labels_lookup:
  assumes "assigns (lib_Assign L)"
  shows "map_get (node_labels L p plan u nc) k =
    (case map_get (om_Labels (nc_Meta nc)) k of Some v \<Rightarrow> Some v
     | None \<Rightarrow> (case map_get (spec_Labels (cls_Spec u)) k of Some v \<Rightarrow> Some v
        | None \<Rightarrow> map_of (base_labels (cp_zone p) plan) k))"
proof -
  have three: "map_get (lib_Assign L [a, b, c]) k =
      (case map_get c k of Some v \<Rightarrow> Some v | None \<Rightarrow> (case map_get b k of Some v \<Rightarrow> Some v | None \<Rightarrow> map_get a k))" for a b c
    using assms by (simp add: assigns_def map_add_def split: option.split)
  show ?thesis unfolding node_labels_def three map_get_simps(2) ..
qed

section \<open>Examples\<close>

text \<open>A hash that sees the length of the plan's name only.\<close>

definition plan_length_hash :: hasher where
  "plan_length_hash s = Inr (word_of_nat (length (spec_Plan s)))"

lemma plan_length_hash_set_like: "slices_as_sets plan_length_hash"
  by (simp add: slices_as_sets_def plan_length_hash_def same_spec_def same_scalars_def)

definition ex_libs :: create_libs where
  "ex_libs = \<lparr>lib_hash = plan_length_hash, lib_yaml = ex_yaml, lib_Assign = plain_assign, lib_crypto = ex_crypto,
     lib_poll = poll_fuel 45\<rparr>"

definition ex_node_class :: UpCloudNodeClass where
  "ex_node_class = empty_class\<lparr>cls_Spec := empty_spec\<lparr>spec_Zone := ''fi-hel1'', spec_Plan := ''2xCPU-4GB''\<rparr>\<rparr>"

definition ex_cluster :: "UpCloudNodeClass \<Rightarrow> kube_client" where
  "ex_cluster u = down_kube\<lparr>k_GetNodeClass := \<lambda>_ _. Inr u,
     k_GetConfigMap := \<lambda>_ _ _. Inr \<lparr>cm_Data = Some [(''ca.crt'', ''CA'')]\<rparr>\<rparr>"

definition ex_cp :: "UpCloudNodeClass \<Rightarrow> UpCloudCloudProvider" where
  "ex_cp u = NewCloudProvider (ex_cluster u) ex_csr (NewInstanceProvider ex_account ''tpl'' ''net'' ''c1'' ''prod'')
     ex_provider ''fi-hel1'' ''https://api:6443'' (10 * Minute)"

definition ex_nc :: NodeClaim where
  "ex_nc = empty_claim\<lparr>nc_NodeClassRef := Some \<lparr>ncr_Name = ''default''\<rparr>\<rparr>"

definition ex_host :: host where
  "ex_host = still_host 0 ''0123-4567-89ab-cdef-0123''"

lemma ex_cert:
  "fst (run_state (generateKubeletCert ex_crypto (poll_fuel 45) ex_csr n) h)
     = Inr \<lparr>kcb_ClientCertPEM = ''CERT'', kcb_ClientKeyPEM = EncodeToMemory ''RSA PRIVATE KEY'' ''K''\<rparr>"
  by (simp add: generateKubeletCert_run approve_and_wait_run await_cert_def cert_condition_def call_defs
      poll_fuel.simps ex_crypto_def ex_csr_def has_decision_def Let_def)

lemma ex_libs_laws: "polls (lib_poll ex_libs)" "assigns (lib_Assign ex_libs)" "slices_as_sets (lib_hash ex_libs)"
  by (simp_all add: ex_libs_def poll_fuel_polls plain_assign_assigns plan_length_hash_set_like)

lemma ex_cp_simps:
  "cp_Client (ex_cp u) = ex_cluster u" "cp_kubernetesInterface (ex_cp u) = ex_csr" "cp_zone (ex_cp u) = ''fi-hel1''"
  "cp_clusterEndpoint (ex_cp u) = ''https://api:6443''" "ip_svc (cp_instanceProvider (ex_cp u)) = ex_account"
  "cp_instanceTypeProvider (ex_cp u) = ex_provider"
  by (simp_all add: ex_cp_def NewCloudProvider_def NewInstanceProvider_def)

lemma ex_generate:
  "\<exists>ud. Generate ex_yaml (user_data_options ex_libs (ex_cp ex_node_class) ex_nc ex_node_class ca certs) = Inr ud"
proof -
  let ?o = "user_data_options ex_libs (ex_cp ex_node_class) ex_nc ex_node_class ca certs"
  have plan: "chosen_plan ex_node_class ex_nc = ''2xCPU-4GB''"
    by (simp add: chosen_plan_def instanceTypeRequirement_def ex_nc_def empty_claim_def ex_node_class_def)
  have spot: "\<not> IsSpotPlan ''2xCPU-4GB''" by code_simp
  have labels: "ud_Labels ?o = Some (base_labels ''fi-hel1'' ''2xCPU-4GB'')"
  proof -
    have "spec_Labels (cls_Spec ex_node_class) = None" "om_Labels (nc_Meta ex_nc) = None"
      by (simp_all add: ex_node_class_def empty_spec_def ex_nc_def empty_claim_def zeroMeta_def)
    then show ?thesis
      by (simp add: user_data_options_def node_labels_def plan ex_libs_def plain_assign_def ex_cp_simps
          base_labels_def Let_def)
  qed
  have wf: "wf_map (ud_Labels ?o)"
    unfolding labels by (simp add: wf_map_def base_labels_def Let_def)
  have entries: "\<forall>(k, v) \<in> set (map_entries (ud_Labels ?o)). printable k \<and> printable v \<and> shell_safe k \<and> shell_safe v"
    unfolding labels by (simp add: base_labels_def Let_def spot printable_def byte_def shell_safe_def)
  have taints: "ud_Taints ?o = [UnregisteredNoExecuteTaint]"
    by (simp add: user_data_options_def node_taints_def ex_node_class_def empty_spec_def elements_def ex_nc_def empty_claim_def)
  have "printable (ud_ClusterEndpoint ?o)"
    by (simp add: user_data_options_def ex_cp_simps printable_def byte_def)
  moreover have "\<forall>t \<in> set (ud_Taints ?o). printable (taint_Key t) \<and> printable (taint_Value t) \<and> printable (taint_Effect t)"
    unfolding taints by (simp add: UnregisteredNoExecuteTaint_def printable_def byte_def)
  moreover have "serializeTaintsYAML ex_yaml (ud_Taints ?o) = Inr ''registerWithTaints: []''"
    unfolding taints by (simp add: serializeTaintsYAML_def ex_yaml_def)
  ultimately show ?thesis using Generate_accepts [OF wf _ entries] by blast
qed

lemma ex_creates: "\<exists>nc'. fst (run_state (Create ex_libs ex_host (ex_cp ex_node_class) ex_nc) []) = Inr nc'"
proof -
  let ?p = "ex_cp ex_node_class"
  obtain ud where ud: "Generate ex_yaml (user_data_options ex_libs ?p ex_nc ex_node_class ''CA''
      \<lparr>kcb_ClientCertPEM = ''CERT'', kcb_ClientKeyPEM = EncodeToMemory ''RSA PRIVATE KEY'' ''K''\<rparr>) = Inr ud"
    using ex_generate by blast
  have name: "server_name ''0123-4567-89ab-cdef-0123'' = Inr ''karpenter-0123456789abcdef''" by code_simp
  have launch: "\<exists>nc'. fst (run_state (launch ex_libs ?p ex_nc ex_node_class n ''CA''
      \<lparr>kcb_ClientCertPEM = ''CERT'', kcb_ClientKeyPEM = EncodeToMemory ''RSA PRIVATE KEY'' ''K''\<rparr>) h) = Inr nc'" for n h
  proof -
    have "lib_yaml ex_libs = ex_yaml" "nc_NodeClassRef ex_nc = Some \<lparr>ncr_Name = ''default''\<rparr>"
      and "s_CreateServer (ip_svc (cp_instanceProvider ?p)) h' req = Inr (ex_server req)" for h' req
      by (simp_all add: ex_libs_def ex_nc_def ex_cp_simps ex_account_def)
    then show ?thesis
      using ud by (auto simp: launch_run intro: Create_run
        [of "cp_instanceProvider ?p" n "chosen_plan ex_node_class ex_nc" "cp_zone ?p" ud
          "spec_ServerGroupUUID (cls_Spec ex_node_class)" "lib_Assign ex_libs [spec_Labels (cls_Spec ex_node_class)]"
          "node_storage ?p (chosen_plan ex_node_class ex_nc) ex_node_class" h])
  qed
  show ?thesis
    using launch name
    by (simp add: Create_def provision_def resolveNodeClass_run NewUUID_def getCABundle_run ex_nc_def ex_host_def
        ex_cp_simps ex_cluster_def ex_libs_def case_prod_unfold ex_cert)
qed

section \<open>Properties\<close>

text \<open>
  C6. No server is left behind by a failed launch, and none is requested twice: a launch that
  succeeds or reports insufficient capacity has made exactly one server request, its last call;
  one that fails in any other way has made no call to the server API at all.
\<close>

theorem Create_one_server:
  assumes "polls (lib_poll L)"
  shows "\<exists>evs. snd (run_state (Create L hst p nc) h) = h @ evs
    \<and> (case fst (run_state (Create L hst p nc) h) of
         Inr nc' \<Rightarrow> \<exists>req. filter is_server_call evs = [ECreateServer req] \<and> last evs = ECreateServer req
       | Inl (InsufficientCapacityError e) \<Rightarrow> \<exists>req. filter is_server_call evs = [ECreateServer req] \<and> last evs = ECreateServer req
       | Inl e \<Rightarrow> filter is_server_call evs = [])"
proof (cases rule: Create_cases [OF assms, of hst p nc h])
  case (1 e evs)
  then show ?thesis by (intro exI [of _ evs]) (simp add: list_all_filter_None)
next
  case (2 ref u name ca certs evs)
  note quiet = list_all_filter_None [OF 2(5)]
  show ?thesis
    by (rule launch_outcome [OF 2(1), of L p u name ca certs "h @ evs"])
       (use 2(4) quiet in \<open>auto intro: exI [of _ evs] exI [of _ "evs @ [ECreateServer _]"]\<close>)
qed

theorem Create_one_server_witness:
  "\<exists>evs req. snd (run_state (Create ex_libs ex_host (ex_cp ex_node_class) ex_nc) []) = [] @ evs
     \<and> filter is_server_call evs = [ECreateServer req]"
proof -
  obtain nc' where "fst (run_state (Create ex_libs ex_host (ex_cp ex_node_class) ex_nc) []) = Inr nc'"
    using ex_creates by blast
  then show ?thesis
    using Create_one_server [OF ex_libs_laws(1), of ex_host "ex_cp ex_node_class" ex_nc "[]"] by auto
qed

text \<open>
  C9. Deleting a NodeClaim deletes its server only when the server is down: the one deletion
  request is for the UUID of the provider ID and comes after a hard stop that succeeded and a
  wait for the stopped state, or after a stop the API refused because of the server's state.
  Success is reported exactly where that deletion succeeded, and not-found exactly where the
  stop or the deletion said so.
\<close>

theorem Delete_stops_first:
  assumes "nc_ProviderID nc = ProviderIDPrefix @ uuid" and "run_state (Delete p nc) h = (res, h @ evs)"
    and "svc = ip_svc (cp_instanceProvider p)"
    and "stop = EStopServer uuid ''hard'' (30 * Second)" and "wait = EWaitForServerState uuid ServerStateStopped"
  shows "(\<forall>v. EDeleteServer v \<in> set evs \<longrightarrow> v = uuid
        \<and> (evs = [stop, wait, EDeleteServer v] \<and> s_StopServer svc h uuid ''hard'' (30 * Second) = None
             \<and> s_WaitForServerState svc (h @ [stop]) uuid ServerStateStopped = None
           \<or> evs = [stop, EDeleteServer v] \<and> (\<exists>e. s_StopServer svc h uuid ''hard'' (30 * Second) = Some e
             \<and> Contains (Error e) ''SERVER_STATE_ILLEGAL'' \<and> \<not> Contains (Error e) ''SERVER_NOT_FOUND'')))
    \<and> (res = None \<longleftrightarrow> EDeleteServer uuid \<in> set evs \<and> s_DeleteServerAndStorages svc (h @ butlast evs) uuid = None)
    \<and> ((\<exists>e. res = Some (NodeClaimNotFoundError e)) \<longleftrightarrow>
        (\<exists>e. (s_StopServer svc h uuid ''hard'' (30 * Second) = Some e
              \<or> EDeleteServer uuid \<in> set evs \<and> s_DeleteServerAndStorages svc (h @ butlast evs) uuid = Some e)
            \<and> Contains (Error e) ''SERVER_NOT_FOUND''))"
proof -
  have u: "TrimPrefix (nc_ProviderID nc) ProviderIDPrefix = uuid" using assms(1) by simp
  note run = assms(2) [unfolded Delete_run u, folded assms(3) assms(4) assms(5)]
  show ?thesis
  proof (cases "s_StopServer svc h uuid ''hard'' (30 * Second)")
    case None
    then show ?thesis
      using run assms(4,5)
      by (cases "s_WaitForServerState svc (h @ [stop]) uuid ServerStateStopped";
          cases "s_DeleteServerAndStorages svc (h @ [stop, wait]) uuid") (auto split: if_splits)
  next
    case (Some e)
    then show ?thesis
      using run assms(4,5)
      by (cases "Contains (Error e) ''SERVER_NOT_FOUND''"; cases "Contains (Error e) ''SERVER_STATE_ILLEGAL''";
          cases "s_DeleteServerAndStorages svc (h @ [stop]) uuid") (auto split: if_splits)
  qed
qed

definition ex_stoppable :: UpCloudCloudProvider where
  "ex_stoppable = NewCloudProvider down_kube down_csr (NewInstanceProvider
       (down_servers\<lparr>s_StopServer := \<lambda>_ _ _ _. None, s_WaitForServerState := \<lambda>_ _ _. None,
          s_DeleteServerAndStorages := \<lambda>_ _. None\<rparr>) ''tpl'' ''net'' ''c1'' ''prod'')
     ex_provider ''fi-hel1'' '''' 0"

theorem Delete_stops_first_witness:
  "run_state (Delete ex_stoppable (empty_claim\<lparr>nc_ProviderID := ''upcloud:////u''\<rparr>)) [] =
     (None, [EStopServer ''u'' ''hard'' (30 * Second), EWaitForServerState ''u'' ServerStateStopped, EDeleteServer ''u''])"
proof -
  let ?nc = "empty_claim\<lparr>nc_ProviderID := ''upcloud:////u''\<rparr>"
  let ?evs = "[EStopServer ''u'' ''hard'' (30 * Second), EWaitForServerState ''u'' ServerStateStopped, EDeleteServer ''u'']"
  have id: "nc_ProviderID ?nc = ProviderIDPrefix @ ''u''" by (simp add: ProviderIDPrefix_def)
  have u: "TrimPrefix (nc_ProviderID ?nc) ProviderIDPrefix = ''u''" unfolding id by (rule TrimPrefix_append)
  obtain res where run: "run_state (Delete ex_stoppable ?nc) [] = (res, [] @ ?evs)"
    unfolding Delete_run u by (simp add: ex_stoppable_def NewCloudProvider_def NewInstanceProvider_def)
  have "res = None"
    using Delete_stops_first [OF id run refl refl refl]
    by (simp add: ex_stoppable_def NewCloudProvider_def NewInstanceProvider_def)
  then show ?thesis using run by simp
qed



text \<open>
  C7. Drift detection implements the comparison of specifications: a claim that \<open>Create\<close> launched
  from one class, checked against the class as it is later, is reported as drifted exactly where the
  two specifications differ other than in the order of list entries, the traversal order of the labels or
  nil against empty lists. (Hypotheses on the hash package: lists are hashed as sets, hashing
  succeeds, and the two specifications do not collide.)
\<close>

theorem drift_refines_spec_change:
  assumes "polls (lib_poll L)" and "slices_as_sets (lib_hash L)"
    and "fst (run_state (Create L hst p nc) h) = Inr nc'"
    and "nc_NodeClassRef nc = Some ref" and "k_GetNodeClass (cp_Client p) h (ncr_Name ref) = Inr u"
    and "k_GetNodeClass (cp_Client q) h' (ncr_Name ref) = Inr v"
    and "lib_hash L (hash_input (cls_Spec u)) = Inr x" and "lib_hash L (hash_input (cls_Spec v)) = Inr y"
    and "x = y \<Longrightarrow> same_spec (cls_Spec u) (cls_Spec v)"
  shows "fst (run_state (IsDrifted (lib_hash L) q nc') h') =
    (if same_spec (cls_Spec u) (cls_Spec v) then '''' else NodeClassDrifted, None)"
proof -
  obtain name ls server where nc': "nc' = created_claim (lib_hash L) name ls u ref server"
    using Create_success [OF assms(1,3)] assms(4,5) by (metis Inr_inject option.inject)
  show ?thesis
    by (rule IsDrifted_spec_change [OF assms(2) _ _ _ assms(6-9)]) (simp_all add: nc' created_claim_annotations)
qed

definition ex_changed_class :: UpCloudNodeClass where
  "ex_changed_class = ex_node_class\<lparr>cls_Spec := (cls_Spec ex_node_class)\<lparr>spec_Plan := ''16xCPU-32GB''\<rparr>\<rparr>"

theorem drift_refines_spec_change_witness:
  "\<exists>nc'. fst (run_state (Create ex_libs ex_host (ex_cp ex_node_class) ex_nc) []) = Inr nc'
     \<and> fst (run_state (IsDrifted (lib_hash ex_libs) (ex_cp ex_changed_class) nc') []) = (NodeClassDrifted, None)"
proof -
  obtain nc' where run: "fst (run_state (Create ex_libs ex_host (ex_cp ex_node_class) ex_nc) []) = Inr nc'"
    using ex_creates by blast
  have diff: "\<not> same_spec (cls_Spec ex_node_class) (cls_Spec ex_changed_class)"
    by (simp add: same_spec_def same_scalars_def ex_changed_class_def ex_node_class_def)
  have "fst (run_state (IsDrifted (lib_hash ex_libs) (ex_cp ex_changed_class) nc') []) =
      (if same_spec (cls_Spec ex_node_class) (cls_Spec ex_changed_class) then '''' else NodeClassDrifted, None)"
    by (rule drift_refines_spec_change [OF ex_libs_laws(1,3) run, where x = 9 and y = 11])
       (simp_all add: ex_nc_def ex_cp_simps ex_cluster_def ex_libs_def plan_length_hash_def hash_input_def
          ex_changed_class_def ex_node_class_def)
  then show ?thesis using run diff by simp
qed

text \<open>
  C10. \<open>IsDrifted\<close> never disrupts a node it cannot judge, and never writes: a claim without class is
  reported by an event only, a claim without hash or with the hash of another version is left
  alone, any other error is returned; drift is reported exactly for a current hash that differs
  from the live one.
\<close>

theorem IsDrifted_exact:
  "\<exists>evs. snd (run_state (IsDrifted hs p nc) h) = h @ evs
     \<and> list_all (\<lambda>e. is_read e \<or> e = EPublish (NodeClaimFailedToResolveNodeClass nc)) evs
     \<and> (fst (fst (run_state (IsDrifted hs p nc) h)) \<noteq> '''' \<longleftrightarrow>
          (\<exists>ref u stored. nc_NodeClassRef nc = Some ref \<and> k_GetNodeClass (cp_Client p) h (ncr_Name ref) = Inr u
             \<and> map_get (nc_Annotations nc) NodeClassHashAnnotationKey = Some stored \<and> stored \<noteq> ''''
             \<and> map_get (nc_Annotations nc) NodeClassHashVersionAnnotationKey = Some NodeClassHashVersion
             \<and> stored \<noteq> Hash hs u))
     \<and> (snd (fst (run_state (IsDrifted hs p nc) h)) \<noteq> None \<longleftrightarrow>
          (\<exists>ref e. nc_NodeClassRef nc = Some ref \<and> k_GetNodeClass (cp_Client p) h (ncr_Name ref) = Inl e \<and> \<not> IsNotFound e))
     \<and> (EPublish (NodeClaimFailedToResolveNodeClass nc) \<in> set evs \<longleftrightarrow>
          nc_NodeClassRef nc = None
          \<or> (\<exists>ref e. nc_NodeClassRef nc = Some ref \<and> k_GetNodeClass (cp_Client p) h (ncr_Name ref) = Inl e \<and> IsNotFound e))"
proof (cases "nc_NodeClassRef nc")
  case None
  then show ?thesis by (simp add: IsDrifted_run resolveNodeClass_run)
next
  case (Some ref)
  show ?thesis
  proof (cases "k_GetNodeClass (cp_Client p) h (ncr_Name ref)")
    case (Inl e)
    with Some show ?thesis by (cases "IsNotFound e") (simp_all add: IsDrifted_run resolveNodeClass_run)
  next
    case (Inr u)
    have "NodeClassDrifted \<noteq> ''''" by (simp add: NodeClassDrifted_def)
    with Some Inr show ?thesis
      using hash_version_nonempty [symmetric]
      by (auto simp: IsDrifted_run resolveNodeClass_run map_read_def split: option.splits)
  qed
qed





text \<open>
  Four fields of a class have no effect on the node: launching from a class with another zone,
  other SSH keys, kubelet arguments or utility network access makes the same calls, so the same
  server with the same user data is requested.
\<close>

theorem launch_ignores_fields:
  "snd (run_state (launch L p nc (u\<lparr>cls_Spec := (cls_Spec u)\<lparr>spec_Zone := z, spec_SSHKeys := ks,
       spec_KubeletArgs := as, spec_UtilityNetworkAccess := b\<rparr>\<rparr>) name ca certs) h)
   = snd (run_state (launch L p nc u name ca certs) h)"
proof -
  let ?u = "u\<lparr>cls_Spec := (cls_Spec u)\<lparr>spec_Zone := z, spec_SSHKeys := ks, spec_KubeletArgs := as,
      spec_UtilityNetworkAccess := b\<rparr>\<rparr>"
  have plan: "chosen_plan ?u nc = chosen_plan u nc"
    by (simp add: chosen_plan_def split: option.split list.split)
  have "user_data_options L p nc ?u ca certs = user_data_options L p nc u ca certs"
    by (simp add: user_data_options_def plan node_labels_def node_taints_def)
  moreover have "node_storage p (chosen_plan u nc) ?u = node_storage p (chosen_plan u nc) u"
    by (simp add: node_storage_def Let_def split: option.split)
  moreover have "spec_Labels (cls_Spec ?u) = spec_Labels (cls_Spec u)" "spec_ServerGroupUUID (cls_Spec ?u) = spec_ServerGroupUUID (cls_Spec u)"
    by simp_all
  ultimately show ?thesis unfolding launch_run plan by (auto split: sum.split prod.split)
qed

end
