(* ===== verification/Shared_Claims.thy ===== *)
theory Shared_Claims
  imports TTL_Controller NodeClass_Controller CloudProvider
begin

text \<open>
  Both controllers of the repository write annotations of the same NodeClaims: the TTL controller
  the time of the last reset, the node class controller the hash and its version. Each reads a
  claim, changes its copy and sends the difference as a merge patch
  (\<^verbatim>\<open>client.MergeFrom\<close>), without a lock and possibly long after it has read. This theory
  follows one claim on the server through any mixture of such patches, from any number of runs of
  both controllers, each based on a read as old as it likes.

  What the server makes of a patch is the parameter \<open>mp\<close>, a function of the two versions that
  were compared and the object it has; the named hypothesis \<open>merge_patch\<close> is what the API
  documents: keys on which the two versions agree are left alone, and a difference in annotations
  changes nothing else. The locale \<open>claim_writer\<close> is the contract of a controller that keeps to
  its own keys. It is interpreted for the events of all runs of the two handlers.
\<close>

section \<open>Merge patches\<close>

type_synonym patcher = "NodeClaim \<Rightarrow> NodeClaim \<Rightarrow> NodeClaim \<Rightarrow> NodeClaim"

definition merge_patch :: "patcher \<Rightarrow> bool" where
  "merge_patch mp \<longleftrightarrow>
     (\<forall>old new cur k. map_get (nc_Annotations (mp old new cur)) k =
        (if map_get (nc_Annotations new) k = map_get (nc_Annotations old) k
         then map_get (nc_Annotations cur) k else map_get (nc_Annotations new) k))
   \<and> (\<forall>old new cur. new = set_Annotations (nc_Annotations new) old \<longrightarrow>
        mp old new cur = set_Annotations (nc_Annotations (mp old new cur)) cur)"

definition after_patch :: "patcher \<Rightarrow> string \<Rightarrow> NodeClaim \<Rightarrow> event \<Rightarrow> NodeClaim" where
  "after_patch mp name cur e =
     (case e of EPatchClaim old new \<Rightarrow> if nc_Name old = name then mp old new cur else cur | _ \<Rightarrow> cur)"

definition server_claim :: "patcher \<Rightarrow> string \<Rightarrow> NodeClaim \<Rightarrow> history \<Rightarrow> NodeClaim" where
  "server_claim mp name cur evs = foldl (after_patch mp name) cur evs"

text \<open>Two versions of a claim that agree on some annotations, and on all that is not an annotation.\<close>

definition agree :: "string set \<Rightarrow> NodeClaim \<Rightarrow> NodeClaim \<Rightarrow> bool" where
  "agree K c d \<longleftrightarrow> (\<forall>k \<in> K. map_get (nc_Annotations c) k = map_get (nc_Annotations d) k)
     \<and> c = set_Annotations (nc_Annotations c) d"

lemma set_Annotations_twice [simp]: "set_Annotations m (set_Annotations m' c) = set_Annotations m c"
  by (simp add: set_Annotations_def)

lemma set_Annotations_self [simp]: "set_Annotations (nc_Annotations c) c = c"
  by (simp add: set_Annotations_def)

lemma agree_refl: "agree K c c"
  by (simp add: agree_def)

lemma agree_trans: "agree K a b \<Longrightarrow> agree K b c \<Longrightarrow> agree K a c"
  unfolding agree_def by (metis set_Annotations_twice)

lemma agree_mono: "agree K a b \<Longrightarrow> L \<subseteq> K \<Longrightarrow> agree L a b"
  by (auto simp: agree_def)

text \<open>A patch takes versions that agree to versions that agree.\<close>

lemma agree_patch:
  assumes "merge_patch mp" and "new = set_Annotations (nc_Annotations new) old" and "agree K c d"
  shows "agree K (mp old new c) (mp old new d)"
proof -
  have "mp old new c = set_Annotations (nc_Annotations (mp old new c)) c"
    and "mp old new d = set_Annotations (nc_Annotations (mp old new d)) d"
    and "c = set_Annotations (nc_Annotations c) d"
    using assms by (simp_all add: merge_patch_def agree_def)
  then have "mp old new c = set_Annotations (nc_Annotations (mp old new c)) (mp old new d)"
    by (metis set_Annotations_twice)
  then show ?thesis using assms(1,3) by (simp add: merge_patch_def agree_def)
qed

section \<open>A controller that keeps to its keys\<close>

locale claim_writer =
  fixes emitted :: "event \<Rightarrow> bool" and keys :: "string set"
  assumes other_keys: "emitted (EPatchClaim old new) \<Longrightarrow> k \<notin> keys \<Longrightarrow>
      map_get (nc_Annotations new) k = map_get (nc_Annotations old) k"
    and annotations_only: "emitted (EPatchClaim old new) \<Longrightarrow> new = set_Annotations (nc_Annotations new) old"
begin

lemma step_agrees:
  assumes "merge_patch mp" and "emitted e" and "agree K c d"
  shows "agree K (after_patch mp name c e) (after_patch mp name d e)"
proof (cases "\<exists>old new. e = EPatchClaim old new")
  case True
  then show ?thesis using assms agree_patch annotations_only by (auto simp: after_patch_def)
next
  case False
  then show ?thesis using assms(3) by (cases e) (simp_all add: after_patch_def)
qed

lemma step_frame:
  assumes "merge_patch mp" and "emitted e" and "K \<inter> keys = {}"
  shows "agree K (after_patch mp name c e) c"
proof (cases "\<exists>old new. e = EPatchClaim old new \<and> nc_Name old = name")
  case True
  then obtain old new where e: "e = EPatchClaim old new" "nc_Name old = name" by blast
  have "mp old new c = set_Annotations (nc_Annotations (mp old new c)) c"
    using assms(1) annotations_only [of old new] assms(2) e by (simp add: merge_patch_def)
  moreover have "map_get (nc_Annotations (mp old new c)) k = map_get (nc_Annotations c) k" if "k \<in> K" for k
    using assms that other_keys [of old new k] e by (auto simp: merge_patch_def)
  ultimately show ?thesis by (simp add: agree_def after_patch_def e)
next
  case False
  then show ?thesis by (cases e) (auto simp: after_patch_def agree_refl)
qed

end

text \<open>The events of the runs of a handler, whatever it is told by the API and the clock.\<close>

definition ttl_event :: "event \<Rightarrow> bool" where
  "ttl_event e \<longleftrightarrow> (\<exists>c hst name h res evs. run_state (TTL_Reconcile c hst name) h = (res, h @ evs) \<and> e \<in> set evs)"

definition nodeclass_event :: "event \<Rightarrow> bool" where
  "nodeclass_event e \<longleftrightarrow> (\<exists>sl hs r name h res evs. run_state (NC_Reconcile sl hs r name) h = (res, h @ evs) \<and> e \<in> set evs)"

definition resets_only :: "event \<Rightarrow> bool" where
  "resets_only e \<longleftrightarrow> (\<forall>old new. e = EPatchClaim old new \<longrightarrow> (\<exists>now offset. new = reset_claim now offset old))"

lemma emits_resets_only: "emits resets_only (TTL_Reconcile c hst name)"
proof -
  have reset: "emits resets_only (resetTTL c hst nc)" for nc
  proof (rule emitsI)
    fix h
    obtain now offset where "h_Now hst h = (now, offset)" by fastforce
    from run_resetTTL [OF this, of c nc]
    show "\<exists>evs. snd (run_state (resetTTL c hst nc) h) = h @ evs \<and> list_all resets_only evs"
      by (intro exI [of _ "[ENow, EPatchClaim nc (reset_claim now offset nc)]"]) (auto simp: resets_only_def)
  qed
  have "emits resets_only (TTL_expired c hst nc)" for nc
    unfolding TTL_expired_def taintNode_def call_defs
    by (intro emits_rules reset) (simp_all add: resets_only_def)
  then show ?thesis
    unfolding TTL_Reconcile_def call_defs Let_def
    by (auto simp: resets_only_def split: prod.split intro!: emits_rules)
qed

lemma ttl_event_patch:
  assumes "ttl_event (EPatchClaim old new)"
  shows "\<exists>now offset. new = reset_claim now offset old"
proof -
  obtain c hst name h res evs where run: "run_state (TTL_Reconcile c hst name) h = (res, h @ evs)"
    and "EPatchClaim old new \<in> set evs" using assms unfolding ttl_event_def by blast
  then have "resets_only (EPatchClaim old new)" using emits_new_events [OF emits_resets_only run] by (simp add: list_all_iff)
  then show ?thesis by (simp add: resets_only_def)
qed

lemma nodeclass_event_patch:
  assumes "nodeclass_event (EPatchClaim old new)"
  shows "\<exists>hash sl. new = stamped_claim hash old \<and> \<not> skip_claim sl old"
proof -
  obtain sl hs r name h res evs where "run_state (NC_Reconcile sl hs r name) h = (res, h @ evs)" "EPatchClaim old new \<in> set evs"
    using assms unfolding nodeclass_event_def by blast
  then obtain v claims where "stamps_one_of sl (Hash hs v) claims (EPatchClaim old new)" by (rule claim_write_origin)
  then show ?thesis by (auto simp: stamps_one_of_def)
qed

interpretation ttl_writer: claim_writer ttl_event "{NodeClaimTTLResetAnnotationKey}"
proof unfold_locales
  fix old new k
  assume "ttl_event (EPatchClaim old new)"
  then obtain now offset where "new = reset_claim now offset old" using ttl_event_patch by blast
  then show "new = set_Annotations (nc_Annotations new) old"
    and "k \<notin> {NodeClaimTTLResetAnnotationKey} \<Longrightarrow> map_get (nc_Annotations new) k = map_get (nc_Annotations old) k"
    by (simp_all add: reset_claim_def update_conv' map_get_eq)
qed

interpretation nodeclass_writer: claim_writer nodeclass_event "{NodeClassHashAnnotationKey, NodeClassHashVersionAnnotationKey}"
proof unfold_locales
  fix old new k
  assume "nodeclass_event (EPatchClaim old new)"
  then obtain hash where "new = stamped_claim hash old" using nodeclass_event_patch by blast
  then show "new = set_Annotations (nc_Annotations new) old"
    and "k \<notin> {NodeClassHashAnnotationKey, NodeClassHashVersionAnnotationKey} \<Longrightarrow>
      map_get (nc_Annotations new) k = map_get (nc_Annotations old) k"
    by (simp_all add: stamped_claim_annotations) (simp add: stamped_claim_def)
qed

section \<open>Both controllers at once\<close>

datatype controller = TTL | NodeClass

definition from_runs :: "(controller \<times> event) list \<Rightarrow> bool" where
  "from_runs tr \<longleftrightarrow> (\<forall>(a, e) \<in> set tr. case a of TTL \<Rightarrow> ttl_event e | NodeClass \<Rightarrow> nodeclass_event e)"

definition events_of :: "controller \<Rightarrow> (controller \<times> event) list \<Rightarrow> history" where
  "events_of a tr = map snd (filter (\<lambda>x. fst x = a) tr)"

lemma server_claim_snoc: "server_claim mp name cur (evs @ [e]) = after_patch mp name (server_claim mp name cur evs) e"
  by (simp add: server_claim_def)

text \<open>On the keys of one controller, the server has what that controller alone would have left there.\<close>

lemma server_projection:
  assumes "merge_patch mp" and "from_runs tr"
  shows "agree {NodeClaimTTLResetAnnotationKey} (server_claim mp name cur (map snd tr)) (server_claim mp name cur (events_of TTL tr))
    \<and> agree {NodeClassHashAnnotationKey, NodeClassHashVersionAnnotationKey}
        (server_claim mp name cur (map snd tr)) (server_claim mp name cur (events_of NodeClass tr))
    \<and> agree (- {NodeClaimTTLResetAnnotationKey, NodeClassHashAnnotationKey, NodeClassHashVersionAnnotationKey})
        (server_claim mp name cur (map snd tr)) cur"
  using assms(2)
proof (induction tr rule: rev_induct)
  case Nil
  then show ?case by (simp add: server_claim_def events_of_def agree_refl)
next
  case (snoc x tr)
  obtain a e where x: "x = (a, e)" by fastforce
  have IH: "from_runs tr" using snoc.prems by (simp add: from_runs_def)
  note IH = snoc.IH [OF this]
  show ?case
  proof (cases a)
    case TTL
    then have e: "ttl_event e" using snoc.prems by (simp add: from_runs_def x)
    note f = ttl_writer.step_frame [OF assms(1) e, where name = name] and s = ttl_writer.step_agrees [OF assms(1) e, where name = name]
    have "events_of TTL (tr @ [x]) = events_of TTL tr @ [e]" "events_of NodeClass (tr @ [x]) = events_of NodeClass tr"
      by (simp_all add: events_of_def x TTL)
    then show ?thesis using IH s agree_trans [OF f] by (simp add: server_claim_snoc x)
  next
    case NodeClass
    then have e: "nodeclass_event e" using snoc.prems by (simp add: from_runs_def x)
    note f = nodeclass_writer.step_frame [OF assms(1) e, where name = name]
      and s = nodeclass_writer.step_agrees [OF assms(1) e, where name = name]
    have "events_of NodeClass (tr @ [x]) = events_of NodeClass tr @ [e]" "events_of TTL (tr @ [x]) = events_of TTL tr"
      by (simp_all add: events_of_def x NodeClass)
    then show ?thesis using IH s agree_trans [OF f] by (simp add: server_claim_snoc x ttl_key_distinct [symmetric])
  qed
qed

lemma ttlStart_agree:
  assumes "agree {NodeClaimTTLResetAnnotationKey} c d"
  shows "ttlStart c = ttlStart d"
proof -
  have "map_get (nc_Annotations c) NodeClaimTTLResetAnnotationKey = map_get (nc_Annotations d) NodeClaimTTLResetAnnotationKey"
    and c: "c = set_Annotations (nc_Annotations c) d"
    using assms by (simp_all add: agree_def)
  note read = this(1)
  have "om_CreationTimestamp (nc_Meta c) = om_CreationTimestamp (nc_Meta d)"
    by (subst c) (rule set_Annotations_simps(7))
  then show ?thesis unfolding ttlStart_def read by (simp only:)
qed

lemma IsDrifted_agree:
  assumes "agree {NodeClassHashAnnotationKey, NodeClassHashVersionAnnotationKey} c d"
  shows "fst (run_state (IsDrifted hs p c) h) = fst (run_state (IsDrifted hs p d) h)"
proof -
  have "map_read (nc_Annotations c) NodeClassHashAnnotationKey = map_read (nc_Annotations d) NodeClassHashAnnotationKey"
    and "map_read (nc_Annotations c) NodeClassHashVersionAnnotationKey = map_read (nc_Annotations d) NodeClassHashVersionAnnotationKey"
    and c: "c = set_Annotations (nc_Annotations c) d"
    using assms by (simp_all add: agree_def map_read_def)
  note reads = this(1,2)
  have "nc_NodeClassRef c = nc_NodeClassRef d" by (subst c) (rule set_Annotations_simps(5))
  then show ?thesis
    unfolding IsDrifted_run resolveNodeClass_run reads by (simp split: option.split sum.split)
qed

section \<open>A claim that was stamped when it was launched\<close>

text \<open>
  A patch starts from a version of the claim that its controller has read: one from before the
  launch, or one that the server had at some time before the patch.
\<close>

definition unlaunched :: "NodeClaim \<Rightarrow> bool" where
  "unlaunched c \<longleftrightarrow> map_get (nc_Annotations c) NodeClassHashAnnotationKey = None \<and> nc_ProviderID c = ''''"

definition reads_versions :: "patcher \<Rightarrow> string \<Rightarrow> NodeClaim \<Rightarrow> (controller \<times> event) list \<Rightarrow> bool" where
  "reads_versions mp name cur tr \<longleftrightarrow>
     (\<forall>i < length tr. \<forall>old new. snd (tr ! i) = EPatchClaim old new \<and> nc_Name old = name \<longrightarrow>
        unlaunched old \<or> (\<exists>k \<le> i. old = server_claim mp name cur (map snd (take k tr))))"

definition current_stamp :: "NodeClaim \<Rightarrow> bool" where
  "current_stamp c \<longleftrightarrow> map_get (nc_Annotations c) NodeClassHashAnnotationKey \<noteq> None
     \<and> map_get (nc_Annotations c) NodeClassHashVersionAnnotationKey = Some NodeClassHashVersion"

lemma current_stamp_agree:
  "agree {NodeClassHashAnnotationKey, NodeClassHashVersionAnnotationKey} c d \<Longrightarrow> current_stamp d \<Longrightarrow> current_stamp c"
  by (simp add: agree_def current_stamp_def)

lemma stamp_skips: "current_stamp c \<or> unlaunched c \<Longrightarrow> skip_claim sl c"
  by (auto simp: current_stamp_def unlaunched_def skip_claim_iff map_read_def)

text \<open>The node class controller never writes such a claim again, and so its stamp stays.\<close>

lemma stamp_stays:
  assumes mp: "merge_patch mp" and runs: "from_runs tr" and reads: "reads_versions mp name cur tr" and cur: "current_stamp cur"
  shows "n \<le> length tr \<Longrightarrow>
    (\<forall>k \<le> n. agree {NodeClassHashAnnotationKey, NodeClassHashVersionAnnotationKey}
       (server_claim mp name cur (map snd (take k tr))) cur)
    \<and> (\<forall>i < n. fst (tr ! i) = NodeClass \<longrightarrow> (\<forall>old new. snd (tr ! i) = EPatchClaim old new \<longrightarrow> nc_Name old \<noteq> name))"
proof (induction n)
  case 0
  then show ?case by (simp add: server_claim_def agree_refl)
next
  case (Suc n)
  let ?K = "{NodeClassHashAnnotationKey, NodeClassHashVersionAnnotationKey}"
  let ?c = "\<lambda>k. server_claim mp name cur (map snd (take k tr))"
  obtain a e where x: "tr ! n = (a, e)" by fastforce
  have "take (Suc n) tr = take n tr @ [(a, e)]" using Suc.prems x by (simp add: take_Suc_conv_app_nth)
  then have step: "?c (Suc n) = after_patch mp name (?c n) e" by (simp add: server_claim_snoc)
  have IH: "\<forall>k \<le> n. agree ?K (?c k) cur"
    "\<forall>i < n. fst (tr ! i) = NodeClass \<longrightarrow> (\<forall>old new. snd (tr ! i) = EPatchClaim old new \<longrightarrow> nc_Name old \<noteq> name)"
    using Suc by simp_all
  have e: "case a of TTL \<Rightarrow> ttl_event e | NodeClass \<Rightarrow> nodeclass_event e"
    using runs Suc.prems x unfolding from_runs_def by (metis (no_types, lifting) Suc_le_lessD case_prodD nth_mem)
  have "agree ?K (?c (Suc n)) cur
      \<and> (a = NodeClass \<longrightarrow> (\<forall>old new. e = EPatchClaim old new \<longrightarrow> nc_Name old \<noteq> name))"
  proof (cases a)
    case TTL
    then have "agree ?K (?c (Suc n)) (?c n)"
      unfolding step using e by (intro ttl_writer.step_frame [OF mp]) simp_all
    then show ?thesis using agree_trans IH(1) TTL by blast
  next
    case NodeClass
    have other: "nc_Name old \<noteq> name" if "e = EPatchClaim old new" for old new
    proof
      assume "nc_Name old = name"
      then have "unlaunched old \<or> (\<exists>k \<le> n. old = ?c k)"
        using reads Suc.prems x that unfolding reads_versions_def by (metis Suc_le_lessD snd_conv)
      then have "skip_claim sl old" for sl using stamp_skips current_stamp_agree [OF _ cur] IH(1) by blast
      moreover have "\<exists>sl. \<not> skip_claim sl old" using nodeclass_event_patch e NodeClass that by fastforce
      ultimately show False by blast
    qed
    then have "?c (Suc n) = ?c n" unfolding step by (cases e) (simp_all add: after_patch_def)
    then show ?thesis using IH(1) other by auto
  qed
  then show ?case using IH x by (simp add: le_Suc_eq less_Suc_eq all_conj_distrib)
qed

section \<open>A patcher and a mixed trace\<close>

text \<open>The merge patch on association lists: unchanged keys from the server, changed ones from the writer.\<close>

definition plain_merge :: patcher where
  "plain_merge old new cur =
     (let same = (\<lambda>k. map_get (nc_Annotations new) k = map_get (nc_Annotations old) k) in
      set_Annotations (Some (filter (\<lambda>x. same (fst x)) (map_entries (nc_Annotations cur))
        @ filter (\<lambda>x. \<not> same (fst x)) (map_entries (nc_Annotations new)))) cur)"

lemma map_of_filter_key: "map_of (filter (\<lambda>x. P (fst x)) al) k = (if P k then map_of al k else None)"
  by (induction al) auto

lemma plain_merge_laws: "merge_patch plain_merge"
proof -
  have "map_get (nc_Annotations (plain_merge old new cur)) k =
      (if map_get (nc_Annotations new) k = map_get (nc_Annotations old) k
       then map_get (nc_Annotations cur) k else map_get (nc_Annotations new) k)" for old new cur k
    by (auto simp: plain_merge_def Let_def map_add_def
        map_of_filter_key [of "\<lambda>k. map_get (nc_Annotations new) k = map_get (nc_Annotations old) k"]
        map_of_filter_key [of "\<lambda>k. map_get (nc_Annotations new) k \<noteq> map_get (nc_Annotations old) k"]
        map_get_def [symmetric] split: option.split)
  then show ?thesis by (auto simp: merge_patch_def) (simp add: plain_merge_def Let_def)
qed

definition ex_shared :: NodeClaim where
  "ex_shared = ex_old_claim\<lparr>nc_NodeName := ''node1''\<rparr>"

definition ex_reset :: "NodeClaim \<Rightarrow> event" where
  "ex_reset c = EPatchClaim c (reset_claim (10 * Minute) 0 c)"

definition ex_stamp :: event where
  "ex_stamp = EPatchClaim ex_old_claim (stamped_claim (Hash ex_hasher ex_class) ex_old_claim)"

text \<open>An old claim whose node runs a pod is reset.\<close>

lemma ex_reset_event:
  assumes start: "ttlStart c = zeroTime" and node: "nc_NodeName c = ''node1''"
    and live: "IsZero (om_DeletionTimestamp (nc_Meta c))"
  shows "ttl_event (ex_reset c)"
proof -
  let ?c = "TTL_Controller.ex_controller c [] [empty_pod\<lparr>pod_NodeName := ''node1''\<rparr>]"
  let ?hst = "still_host (10 * Minute) ''''"
  have busy: "hasNonDSPods [empty_pod\<lparr>pod_NodeName := ''node1''\<rparr>] ''node1''"
    by (simp add: empty_pod_def zeroMeta_def IsZero_def isDaemonSet_def)
  have "5 * Minute \<le> Since (10 * Minute) (ttlStart c)"
    unfolding start by (simp add: clock_defs zeroTime_def)
  then have "run_state (TTL_Reconcile ?c ?hst ''claim-1'') [] = run_state (TTL_expired ?c ?hst c) [EGetClaim ''claim-1'', ENow]"
    using run_TTL_expired_branch [of ?c "[]" "''claim-1''" c ?hst "10 * Minute" 0] live node by simp
  also have "\<dots> = run_state (resetTTL ?c ?hst c) [EGetClaim ''claim-1'', ENow, EListPods]"
    using busy unfolding TTL_expired_def call_defs by (simp add: node del: hasNonDSPods.simps)
  finally have "run_state (TTL_Reconcile ?c ?hst ''claim-1'') [] =
      ((requeueAfter (5 * Minute), None), [EGetClaim ''claim-1'', ENow, EListPods, ENow, ex_reset c])"
    using run_resetTTL [of ?hst _ "10 * Minute" 0 ?c c] by (simp add: ex_reset_def)
  then show ?thesis unfolding ttl_event_def
    by (metis append_Nil list.set_intros(1,2))
qed

lemma ex_shared_reset: "ttl_event (ex_reset ex_shared)"
  by (rule ex_reset_event)
     (simp_all add: ex_shared_def ex_old_claim_def empty_claim_def zeroMeta_def IsZero_def ttlStart_def
        ttl_key_distinct [symmetric])

lemma ex_stamp_event: "nodeclass_event ex_stamp"
  unfolding nodeclass_event_def ex_stamp_def
  by (intro exI conjI) (subst append_Nil, rule ex_nodeclass_run, simp)

section \<open>Properties\<close>

text \<open>
  C12. The two controllers do not disturb each other on a claim. Take any mixture of patches from runs
  of both, each computed from a read of any age, applied by the server in any order: the claim it
  ends with has the TTL start that the TTL controller's patches alone would have left, and is
  judged by \<open>IsDrifted\<close> as if only the node class controller had written it; all other
  annotations, and all that is not an annotation, are untouched. So a stamp from an old read never
  takes back a reset of the clock, and a reset never takes back a stamp and lets a node drift.
\<close>

theorem controllers_do_not_interfere:
  assumes "merge_patch mp" and "from_runs tr"
  shows "ttlStart (server_claim mp name cur (map snd tr)) = ttlStart (server_claim mp name cur (events_of TTL tr))
    \<and> fst (run_state (IsDrifted hs p (server_claim mp name cur (map snd tr))) h) =
        fst (run_state (IsDrifted hs p (server_claim mp name cur (events_of NodeClass tr))) h)
    \<and> (\<forall>k. k \<notin> {NodeClaimTTLResetAnnotationKey, NodeClassHashAnnotationKey, NodeClassHashVersionAnnotationKey} \<longrightarrow>
         map_get (nc_Annotations (server_claim mp name cur (map snd tr))) k = map_get (nc_Annotations cur) k)
    \<and> server_claim mp name cur (map snd tr) =
        set_Annotations (nc_Annotations (server_claim mp name cur (map snd tr))) cur"
proof -
  note proj = server_projection [OF assms, of name cur]
  then have "agree (- {NodeClaimTTLResetAnnotationKey, NodeClassHashAnnotationKey, NodeClassHashVersionAnnotationKey})
      (server_claim mp name cur (map snd tr)) cur" by blast
  moreover have "ttlStart (server_claim mp name cur (map snd tr)) = ttlStart (server_claim mp name cur (events_of TTL tr))"
    using proj ttlStart_agree by blast
  moreover have "fst (run_state (IsDrifted hs p (server_claim mp name cur (map snd tr))) h) =
        fst (run_state (IsDrifted hs p (server_claim mp name cur (events_of NodeClass tr))) h)"
    using proj IsDrifted_agree by blast
  ultimately show ?thesis unfolding agree_def by blast
qed

theorem controllers_do_not_interfere_witness:
  "ttlStart (server_claim plain_merge ''claim-1'' ex_shared [ex_reset ex_shared, ex_stamp]) =
     ttlStart (server_claim plain_merge ''claim-1'' ex_shared [ex_reset ex_shared])
   \<and> map_get (nc_Annotations (server_claim plain_merge ''claim-1'' ex_shared [ex_reset ex_shared, ex_stamp])) ''a'' =
     map_get (nc_Annotations ex_shared) ''a''"
proof -
  have "from_runs [(TTL, ex_reset ex_shared), (NodeClass, ex_stamp)]"
    using ex_shared_reset ex_stamp_event by (simp add: from_runs_def)
  from controllers_do_not_interfere [OF plain_merge_laws this, of "''claim-1''" ex_shared]
  show ?thesis by (simp add: events_of_def annotation_key_defs)
qed

text \<open>
  C13. The verdict on a node is the comparison of specifications for as long as the node lives. Take a
  claim as the core stores it after \<open>Create\<close>, with the class reference and the two hash annotations of
  the result, and then any mixture of patches of both controllers, each from a version of the claim
  from before the launch or one the server has had since. The node class controller never writes
  the claim, and \<open>IsDrifted\<close> on what the server then has answers whether the class differs from
  the one the node was launched with.
\<close>

theorem drift_verdict_for_life:
  assumes "polls (lib_poll L)" and "slices_as_sets (lib_hash L)"
    and "fst (run_state (CloudProvider.Create L hst p nc) h) = Inr nc'"
    and "nc_NodeClassRef nc = Some ref" and "k_GetNodeClass (cp_Client p) h (ncr_Name ref) = Inr u"
    and "nc_NodeClassRef cur = nc_NodeClassRef nc'"
    and "\<And>k. k \<in> {NodeClassHashAnnotationKey, NodeClassHashVersionAnnotationKey} \<Longrightarrow>
      map_get (nc_Annotations cur) k = map_get (nc_Annotations nc') k"
    and "merge_patch mp" and "from_runs tr" and "reads_versions mp name cur tr"
    and "k_GetNodeClass (cp_Client q) h' (ncr_Name ref) = Inr v"
    and "lib_hash L (hash_input (cls_Spec u)) = Inr x" and "lib_hash L (hash_input (cls_Spec v)) = Inr y"
    and "x = y \<Longrightarrow> same_spec (cls_Spec u) (cls_Spec v)"
  shows "fst (run_state (IsDrifted (lib_hash L) q (server_claim mp name cur (map snd tr))) h') =
      (if same_spec (cls_Spec u) (cls_Spec v) then '''' else NodeClassDrifted, None)
    \<and> (\<forall>old new. EPatchClaim old new \<in> set (events_of NodeClass tr) \<longrightarrow> nc_Name old \<noteq> name)"
proof -
  obtain sn ls server where nc': "nc' = created_claim (lib_hash L) sn ls u ref server"
    using Create_success [OF assms(1,3)] assms(4,5) by (metis Inr_inject option.inject)
  have get: "map_get (nc_Annotations cur) NodeClassHashAnnotationKey = Some (Hash (lib_hash L) u)"
    "map_get (nc_Annotations cur) NodeClassHashVersionAnnotationKey = Some NodeClassHashVersion"
    "nc_NodeClassRef cur = Some ref"
    using assms(6,7) by (simp_all add: nc' created_claim_def)
  then have "current_stamp cur" by (simp add: current_stamp_def)
  from stamp_stays [OF assms(8-10) this, of "length tr"]
  have agree: "agree {NodeClassHashAnnotationKey, NodeClassHashVersionAnnotationKey} (server_claim mp name cur (map snd tr)) cur"
    and quiet: "\<forall>i < length tr. fst (tr ! i) = NodeClass \<longrightarrow> (\<forall>old new. snd (tr ! i) = EPatchClaim old new \<longrightarrow> nc_Name old \<noteq> name)"
    by auto
  have "fst (run_state (IsDrifted (lib_hash L) q cur) h') = (if same_spec (cls_Spec u) (cls_Spec v) then '''' else NodeClassDrifted, None)"
    by (rule IsDrifted_spec_change [OF assms(2) get(3) _ _ assms(11-14)]) (simp_all add: get map_read_Some)
  moreover have "nc_Name old \<noteq> name" if "EPatchClaim old new \<in> set (events_of NodeClass tr)" for old new
  proof -
    have "(NodeClass, EPatchClaim old new) \<in> set tr" using that by (auto simp: events_of_def)
    then obtain i where "i < length tr" "tr ! i = (NodeClass, EPatchClaim old new)" by (auto simp: in_set_conv_nth)
    then show ?thesis using quiet by (metis fst_conv snd_conv)
  qed
  ultimately show ?thesis using IsDrifted_agree [OF agree] by simp
qed

theorem drift_verdict_for_life_witness:
  "\<exists>cur. fst (run_state (IsDrifted (lib_hash ex_libs) (ex_cp ex_changed_class)
       (server_claim plain_merge (nc_Name cur) cur [ex_reset cur])) []) = (NodeClassDrifted, None)"
proof -
  obtain nc' where run: "fst (run_state (CloudProvider.Create ex_libs ex_host (ex_cp ex_node_class) ex_nc) []) = Inr nc'"
    using ex_creates by blast
  obtain sn ls server ref and u :: UpCloudNodeClass where nc': "nc' = created_claim (lib_hash ex_libs) sn ls u ref server"
    by (rule Create_success [OF ex_libs_laws(1) run])
  let ?cur = "nc'\<lparr>nc_NodeName := ''node1''\<rparr>"
  let ?tr = "[(TTL, ex_reset ?cur)]"
  have "ttl_event (ex_reset ?cur)"
    by (rule ex_reset_event)
       (simp_all add: nc' created_claim_def zeroMeta_def IsZero_def ttlStart_def ttl_key_distinct [symmetric])
  then have runs: "from_runs ?tr" by (simp add: from_runs_def)
  have reads: "reads_versions plain_merge (nc_Name ?cur) ?cur ?tr"
    by (simp add: reads_versions_def ex_reset_def server_claim_def)
  have diff: "\<not> same_spec (cls_Spec ex_node_class) (cls_Spec ex_changed_class)"
    by (simp add: same_spec_def same_scalars_def ex_changed_class_def ex_node_class_def)
  have "fst (run_state (IsDrifted (lib_hash ex_libs) (ex_cp ex_changed_class)
       (server_claim plain_merge (nc_Name ?cur) ?cur (map snd ?tr))) []) =
      (if same_spec (cls_Spec ex_node_class) (cls_Spec ex_changed_class) then '''' else NodeClassDrifted, None)"
    by (rule conjunct1 [OF drift_verdict_for_life [OF ex_libs_laws(1,3) run _ _ _ _ plain_merge_laws runs reads,
            where x = 9 and y = 11]])
       (simp_all add: ex_nc_def ex_cp_simps ex_cluster_def ex_libs_def plan_length_hash_def hash_input_def
          ex_changed_class_def ex_node_class_def)
  then show ?thesis using diff by (intro exI [of _ ?cur]) simp
qed

end
