(* ===== verification/Catalogue_Lock.thy ===== *)
theory Catalogue_Lock
  imports InstanceTypes "HOL-Library.Sublist"
begin

text \<open>
  The catalogue of instance types is shared: Karpenter's controllers call \<^verbatim>\<open>List\<close> and
  \<^verbatim>\<open>Get\<close> from many goroutines while \<^verbatim>\<open>Refresh\<close> may run, and a
  \<^verbatim>\<open>sync.RWMutex\<close> guards the fields. In this theory the three methods of
  \<^verbatim>\<open>instancetypes.go\<close> are sequences of atomic actions, one for every statement that touches a
  shared field or the mutex, and \<open>step\<close> interleaves the actions of any number of calls.

  The mutex is that of Go: \<^verbatim>\<open>Lock\<close> first shuts out new readers and other writers (\<open>ILock\<close>) and
  returns when the last reader has left (\<open>IAcquire\<close>); \<^verbatim>\<open>RLock\<close> waits while a writer holds the
  mutex or waits for it. What the API answers and what the clock shows is any value. The actions
  of \<^verbatim>\<open>Refresh\<close> include its two accesses outside of the mutex: \<^verbatim>\<open>refreshPrices\<close> reads
  \<^verbatim>\<open>lastFetch\<close> before it and traverses \<^verbatim>\<open>instanceTypesByName\<close> after it, for a warning.

  Shown are: what is read is one catalogue, never half of one and half of another; calls that
  do not include two refreshes are free of data races, and two refreshes are not; no call
  waits for ever, and all of them return.
\<close>

section \<open>Definitions\<close>

datatype instr =
    IRLock | IRUnlock | ILock | IAcquire | IUnlock
  | IListTypes
  | IGetPlan string
  | IGetPlans
  | ICheckFetch
  | IGetPrices
  | ISetPrices
  | ISetLastFetch
  | IScanTypes
  | ICopyPrices
  | IBuild
  | ISetTypes
  | ISetPlans

definition List_code :: "instr list" where
  "List_code = [IRLock, IListTypes, IRUnlock]"

definition Get_code :: "string \<Rightarrow> instr list" where
  "Get_code name = [IRLock, IGetPlan name, IRUnlock]"

text \<open>The part of \<^verbatim>\<open>Refresh\<close> after the prices, and the prices.\<close>

definition build_code :: "instr list" where
  "build_code = [IRLock, ICopyPrices, IRUnlock, IBuild, ILock, IAcquire, ISetTypes, ISetPlans, IUnlock]"

definition refreshPrices_code :: "instr list" where
  "refreshPrices_code = [ICheckFetch, IGetPrices, ILock, IAcquire, ISetPrices, ISetLastFetch, IUnlock, IScanTypes]"

definition Refresh_code :: "instr list" where
  "Refresh_code = IGetPlans # refreshPrices_code @ build_code"

record locals =
  l_plans :: "Plan list"
  l_prices :: "(string \<times> float64) list"
  l_pricing :: "(string \<times> float64) list"
  l_built :: "(string \<times> InstanceType) list"
  l_raw :: "(string \<times> Plan) list"
  l_types :: "InstanceType list"
  l_plan :: "Plan option"

definition no_locals :: locals where
  "no_locals = \<lparr>l_plans = [], l_prices = [], l_pricing = [], l_built = [], l_raw = [], l_types = [], l_plan = None\<rparr>"

text \<open>
  One action on the data: the code that remains, the local variables and the fields, before and
  after. A failed request for plans ends the call, and one for prices, or prices that are fresh
  enough, end \<^verbatim>\<open>refreshPrices\<close>.
\<close>

inductive exec :: "instr \<Rightarrow> instr list \<Rightarrow> locals \<Rightarrow> Provider \<Rightarrow> instr list \<Rightarrow> locals \<Rightarrow> Provider \<Rightarrow> bool" where
  ListTypes: "exec IListTypes cs l p cs (l\<lparr>l_types := InstanceTypes.List p\<rparr>) p"
| GetPlan: "exec (IGetPlan name) cs l p cs (l\<lparr>l_plan := InstanceTypes.Get p name\<rparr>) p"
| GetPlans_failed: "exec IGetPlans cs l p [] l p"
| GetPlans: "exec IGetPlans cs l p cs (l\<lparr>l_plans := plans\<rparr>) p"
| CheckFetch_fresh: "Since now (itp_lastFetch p) < itp_cacheTTL p \<Longrightarrow> exec ICheckFetch cs l p build_code l p"
| CheckFetch_stale: "\<not> Since now (itp_lastFetch p) < itp_cacheTTL p \<Longrightarrow> exec ICheckFetch cs l p cs l p"
| GetPrices_failed: "exec IGetPrices cs l p build_code l p"
| GetPrices: "exec IGetPrices cs l p cs (l\<lparr>l_prices := price_loop (zone_prices (itp_zone p) pricesByZone) []\<rparr>) p"
| SetPrices: "exec ISetPrices cs l p cs l (p\<lparr>itp_prices := l_prices l\<rparr>)"
| SetLastFetch: "exec ISetLastFetch cs l p cs l (p\<lparr>itp_lastFetch := now\<rparr>)"
| ScanTypes: "exec IScanTypes cs l p cs l p"
| CopyPrices: "exec ICopyPrices cs l p cs (l\<lparr>l_pricing := itp_prices p\<rparr>) p"
| Build: "plan_loop p (l_pricing l) (l_plans l) ([], []) = (built, rawPlans) \<Longrightarrow>
    exec IBuild cs l p cs (l\<lparr>l_built := built, l_raw := rawPlans\<rparr>) p"
| SetTypes: "exec ISetTypes cs l p cs l (p\<lparr>itp_instanceTypesByName := l_built l\<rparr>)"
| SetPlans: "exec ISetPlans cs l p cs l (p\<lparr>itp_plansByName := l_raw l\<rparr>)"

text \<open>The mutex, the calls in progress, and their interleaving.\<close>

record RWMutex =
  mu_writer :: "nat option"
  mu_pending :: "nat option"
  mu_readers :: "nat set"

record thread =
  th_code :: "instr list"
  th_locals :: locals

record shared =
  sh_prov :: Provider
  sh_mu :: RWMutex
  sh_threads :: "thread list"

definition set_code :: "nat \<Rightarrow> instr list \<Rightarrow> shared \<Rightarrow> shared" where
  "set_code i cs s = s\<lparr>sh_threads := (sh_threads s)[i := (sh_threads s ! i)\<lparr>th_code := cs\<rparr>]\<rparr>"

inductive step :: "shared \<Rightarrow> shared \<Rightarrow> bool" where
  RLock: "i < length (sh_threads s) \<Longrightarrow> th_code (sh_threads s ! i) = IRLock # cs \<Longrightarrow>
    mu_writer (sh_mu s) = None \<Longrightarrow> mu_pending (sh_mu s) = None \<Longrightarrow>
    step s (set_code i cs (s\<lparr>sh_mu := (sh_mu s)\<lparr>mu_readers := insert i (mu_readers (sh_mu s))\<rparr>\<rparr>))"
| RUnlock: "i < length (sh_threads s) \<Longrightarrow> th_code (sh_threads s ! i) = IRUnlock # cs \<Longrightarrow>
    step s (set_code i cs (s\<lparr>sh_mu := (sh_mu s)\<lparr>mu_readers := mu_readers (sh_mu s) - {i}\<rparr>\<rparr>))"
| Lock: "i < length (sh_threads s) \<Longrightarrow> th_code (sh_threads s ! i) = ILock # cs \<Longrightarrow>
    mu_writer (sh_mu s) = None \<Longrightarrow> mu_pending (sh_mu s) = None \<Longrightarrow>
    step s (set_code i cs (s\<lparr>sh_mu := (sh_mu s)\<lparr>mu_pending := Some i\<rparr>\<rparr>))"
| Acquire: "i < length (sh_threads s) \<Longrightarrow> th_code (sh_threads s ! i) = IAcquire # cs \<Longrightarrow>
    mu_pending (sh_mu s) = Some i \<Longrightarrow> mu_readers (sh_mu s) = {} \<Longrightarrow>
    step s (set_code i cs (s\<lparr>sh_mu := (sh_mu s)\<lparr>mu_writer := Some i, mu_pending := None\<rparr>\<rparr>))"
| Unlock: "i < length (sh_threads s) \<Longrightarrow> th_code (sh_threads s ! i) = IUnlock # cs \<Longrightarrow>
    step s (set_code i cs (s\<lparr>sh_mu := (sh_mu s)\<lparr>mu_writer := None\<rparr>\<rparr>))"
| Exec: "i < length (sh_threads s) \<Longrightarrow> th_code (sh_threads s ! i) = x # cs \<Longrightarrow>
    exec x cs (th_locals (sh_threads s ! i)) (sh_prov s) cs' l' p' \<Longrightarrow>
    step s (s\<lparr>sh_prov := p', sh_threads := (sh_threads s)[i := \<lparr>th_code = cs', th_locals = l'\<rparr>]\<rparr>)"

datatype catalogue_call = MList | MGet string | MRefresh

fun code_of :: "catalogue_call \<Rightarrow> instr list" where
  "code_of MList = List_code"
| "code_of (MGet name) = Get_code name"
| "code_of MRefresh = Refresh_code"

definition start :: "Provider \<Rightarrow> catalogue_call list \<Rightarrow> shared" where
  "start p calls =
     \<lparr>sh_prov = p, sh_mu = \<lparr>mu_writer = None, mu_pending = None, mu_readers = {}\<rparr>,
      sh_threads = map (\<lambda>m. \<lparr>th_code = code_of m, th_locals = no_locals\<rparr>) calls\<rparr>"

text \<open>The field an action reads or writes, and two calls about to race for one.\<close>

datatype field = FTypes | FPlans | FPrices | FLastFetch

fun reads :: "instr \<Rightarrow> field option" where
  "reads IListTypes = Some FTypes"
| "reads (IGetPlan _) = Some FPlans"
| "reads ICheckFetch = Some FLastFetch"
| "reads IScanTypes = Some FTypes"
| "reads ICopyPrices = Some FPrices"
| "reads _ = None"

fun writes :: "instr \<Rightarrow> field option" where
  "writes ISetPrices = Some FPrices"
| "writes ISetLastFetch = Some FLastFetch"
| "writes ISetTypes = Some FTypes"
| "writes ISetPlans = Some FPlans"
| "writes _ = None"

definition race :: "shared \<Rightarrow> bool" where
  "race s \<longleftrightarrow> (\<exists>i j x y cs ds f. i < length (sh_threads s) \<and> j < length (sh_threads s) \<and> i \<noteq> j
     \<and> th_code (sh_threads s ! i) = x # cs \<and> th_code (sh_threads s ! j) = y # ds
     \<and> writes x = Some f \<and> (reads y = Some f \<or> writes y = Some f))"

section \<open>The discipline of the code\<close>

text \<open>What a call holds, read off the code it has left: the next action on the mutex tells.\<close>

datatype lock_mode = Free | Reading | Pending | Writing

fun mode :: "instr list \<Rightarrow> lock_mode" where
  "mode [] = Free"
| "mode (x # cs) =
     (case x of IRLock \<Rightarrow> Free | ILock \<Rightarrow> Free | IRUnlock \<Rightarrow> Reading | IAcquire \<Rightarrow> Pending | IUnlock \<Rightarrow> Writing
      | _ \<Rightarrow> mode cs)"

lemmas code_defs = List_code_def Get_code_def Refresh_code_def refreshPrices_code_def build_code_def

definition of_call :: "catalogue_call \<Rightarrow> instr list \<Rightarrow> bool" where
  "of_call m cs \<longleftrightarrow> cs \<in> set (suffixes (code_of m))"

lemma of_call_start: "of_call m (code_of m)"
  by (simp add: of_call_def)

lemma of_call_tl: "of_call m (x # cs) \<Longrightarrow> of_call m cs"
  unfolding of_call_def by (metis in_set_suffixes suffix_ConsD)

lemma of_call_Nil: "of_call m []"
  by (simp add: of_call_def)

lemma of_call_build: "of_call MRefresh build_code"
  by (simp add: of_call_def code_defs)

lemma of_call_Refresh_only: "of_call m (ICheckFetch # cs) \<Longrightarrow> m = MRefresh" "of_call m (IGetPrices # cs) \<Longrightarrow> m = MRefresh"
  by (cases m; simp add: of_call_def code_defs)+

lemma of_call_exec:
  assumes "of_call m (x # cs)" and "exec x cs l p cs' l' p'"
  shows "of_call m cs'"
  using assms(2) assms(1)
  by (cases rule: exec.cases) (auto dest: of_call_tl of_call_Refresh_only intro: of_call_build of_call_Nil)

lemma mode_code_of [simp]: "mode (code_of m) = Free"
  by (cases m) (simp_all add: code_defs)

lemma mode_lock:
  assumes "of_call m (x # cs)"
  shows "x = IRLock \<Longrightarrow> mode cs = Reading" and "x = IRUnlock \<Longrightarrow> mode cs = Free"
    and "x = ILock \<Longrightarrow> mode cs = Pending" and "x = IAcquire \<Longrightarrow> mode cs = Writing"
    and "x = IUnlock \<Longrightarrow> mode cs = Free"
  using assms by (cases m; auto simp: of_call_def code_defs)+

lemma mode_exec:
  assumes "of_call m (x # cs)" and "exec x cs l p cs' l' p'"
  shows "mode cs' = mode (x # cs)"
  using assms(2) assms(1)
  by (cases rule: exec.cases) (cases m; auto simp: of_call_def code_defs)+

lemma mode_access:
  assumes "of_call m (x # cs)"
  shows "writes x = Some f \<Longrightarrow> mode (x # cs) = Writing \<and> m = MRefresh"
    and "reads x = Some f \<Longrightarrow> mode (x # cs) = Reading \<or> (m = MRefresh \<and> (x = ICheckFetch \<or> x = IScanTypes))"
  using assms by (cases m; auto simp: of_call_def code_defs)+

section \<open>The mutex\<close>

abbreviation code :: "shared \<Rightarrow> nat \<Rightarrow> instr list" where
  "code s i \<equiv> th_code (sh_threads s ! i)"

definition lock_inv :: "catalogue_call list \<Rightarrow> shared \<Rightarrow> bool" where
  "lock_inv calls s \<longleftrightarrow>
     length (sh_threads s) = length calls \<and> (\<forall>i < length calls. of_call (calls ! i) (code s i))
     \<and> (\<forall>i. i \<in> mu_readers (sh_mu s) \<longleftrightarrow> i < length calls \<and> mode (code s i) = Reading)
     \<and> (\<forall>i. mu_writer (sh_mu s) = Some i \<longleftrightarrow> i < length calls \<and> mode (code s i) = Writing)
     \<and> (\<forall>i. mu_pending (sh_mu s) = Some i \<longleftrightarrow> i < length calls \<and> mode (code s i) = Pending)
     \<and> (mu_writer (sh_mu s) \<noteq> None \<longrightarrow> mu_readers (sh_mu s) = {} \<and> mu_pending (sh_mu s) = None)"

lemma lock_inv_start: "lock_inv calls (start p calls)"
  by (auto simp: lock_inv_def start_def of_call_start)

lemma set_code_simps [simp]:
  "sh_prov (set_code i cs s) = sh_prov s" "sh_mu (set_code i cs s) = sh_mu s"
  "length (sh_threads (set_code i cs s)) = length (sh_threads s)"
  "i < length (sh_threads s) \<Longrightarrow> code (set_code i cs s) j = (if j = i then cs else code s j)"
  "i < length (sh_threads s) \<Longrightarrow> th_locals (sh_threads (set_code i cs s) ! j) = th_locals (sh_threads s ! j)"
  by (auto simp: set_code_def nth_list_update)

lemma lock_inv_code:
  assumes "lock_inv calls s" and "i < length (sh_threads s)" and "code s i = x # cs"
  shows "of_call (calls ! i) (x # cs)"
proof -
  have "of_call (calls ! i) (code s i)" using assms(1,2) by (simp add: lock_inv_def)
  then show ?thesis by (simp add: assms(3))
qed

lemma lock_inv_step:
  assumes inv: "lock_inv calls s" and "step s s'"
  shows "lock_inv calls s'"
  using assms(2)
proof (cases rule: step.cases)
  case (RLock i cs)
  then have "of_call (calls ! i) (IRLock # cs)" by (intro lock_inv_code [OF inv])
  then have "mode cs = Reading" "of_call (calls ! i) cs" by (simp_all add: mode_lock of_call_tl)
  then show ?thesis using RLock inv by (auto simp: lock_inv_def)
next
  case (RUnlock i cs)
  then have "of_call (calls ! i) (IRUnlock # cs)" by (intro lock_inv_code [OF inv])
  then have "mode cs = Free" "of_call (calls ! i) cs" by (simp_all add: mode_lock of_call_tl)
  then show ?thesis using RUnlock inv by (auto simp: lock_inv_def)
next
  case (Lock i cs)
  then have "of_call (calls ! i) (ILock # cs)" by (intro lock_inv_code [OF inv])
  then have "mode cs = Pending" "of_call (calls ! i) cs" by (simp_all add: mode_lock of_call_tl)
  then show ?thesis using Lock inv by (auto simp: lock_inv_def)
next
  case (Acquire i cs)
  then have "of_call (calls ! i) (IAcquire # cs)" by (intro lock_inv_code [OF inv])
  then have "mode cs = Writing" "of_call (calls ! i) cs" by (simp_all add: mode_lock of_call_tl)
  then show ?thesis using Acquire inv by (auto simp: lock_inv_def)
next
  case (Unlock i cs)
  then have "of_call (calls ! i) (IUnlock # cs)" by (intro lock_inv_code [OF inv])
  then have "mode cs = Free" "of_call (calls ! i) cs" by (simp_all add: mode_lock of_call_tl)
  moreover have "mu_writer (sh_mu s) = Some i" using Unlock inv by (simp add: lock_inv_def)
  ultimately show ?thesis using Unlock inv by (auto simp: lock_inv_def)
next
  case (Exec i x cs cs' l' p')
  then have "of_call (calls ! i) (x # cs)" by (intro lock_inv_code [OF inv])
  then have "mode cs' = mode (code s i)" "of_call (calls ! i) cs'"
    using Exec mode_exec of_call_exec by simp_all
  then show ?thesis using Exec inv by (auto simp: lock_inv_def nth_list_update simp del: mode.simps)
qed

lemma lock_inv_reachable: "step\<^sup>*\<^sup>* (start p calls) s \<Longrightarrow> lock_inv calls s"
  by (induction rule: rtranclp_induct) (auto intro: lock_inv_start lock_inv_step)

section \<open>The data\<close>

text \<open>Two maps that one refresh made together.\<close>

definition one_catalogue :: "string \<Rightarrow> (string \<times> InstanceType) list \<Rightarrow> (string \<times> Plan) list \<Rightarrow> bool" where
  "one_catalogue zone types plans \<longleftrightarrow>
     (\<exists>q. catalogue_inv q \<and> itp_zone q = zone \<and> itp_instanceTypesByName q = types \<and> itp_plansByName q = plans)"

lemma plan_loop_one_catalogue:
  assumes "plan_loop p prices plans ([], []) = (built, rawPlans)" and "itp_zone p = zone"
  shows "one_catalogue zone built rawPlans"
proof -
  let ?q = "p\<lparr>itp_prices := prices, itp_instanceTypesByName := built, itp_plansByName := rawPlans\<rparr>"
  have "catalogue_inv ?q"
    using plan_loop_maps [OF assms(1)] plan_loop_distinct [OF assms(1)] last_plan_name build_zone_only [of ?q p]
    by (simp add: catalogue_inv_def)
  then show ?thesis unfolding one_catalogue_def using assms(2) by (intro exI [of _ ?q]) simp
qed

text \<open>What a call has built stays one catalogue until it is published; in between only the writer can see it.\<close>

fun has_built :: "instr list \<Rightarrow> bool" where
  "has_built cs = (cs \<in> set [[ILock, IAcquire, ISetTypes, ISetPlans, IUnlock], [IAcquire, ISetTypes, ISetPlans, IUnlock],
     [ISetTypes, ISetPlans, IUnlock], [ISetPlans, IUnlock]])"

definition half_published :: "instr list \<Rightarrow> bool" where
  "half_published cs \<longleftrightarrow> cs = [ISetPlans, IUnlock]"

definition result_ok :: "string \<Rightarrow> catalogue_call \<Rightarrow> thread \<Rightarrow> bool" where
  "result_ok zone m t \<longleftrightarrow>
     (case m of
        MList \<Rightarrow> th_code t \<in> {[IRUnlock], []} \<longrightarrow>
          (\<exists>q. catalogue_inv q \<and> itp_zone q = zone \<and> l_types (th_locals t) = InstanceTypes.List q)
      | MGet name \<Rightarrow> th_code t \<in> {[IRUnlock], []} \<longrightarrow>
          (\<exists>q. catalogue_inv q \<and> itp_zone q = zone \<and> l_plan (th_locals t) = InstanceTypes.Get q name)
      | MRefresh \<Rightarrow> True)"

definition data_inv :: "string \<Rightarrow> catalogue_call list \<Rightarrow> shared \<Rightarrow> bool" where
  "data_inv zone calls s \<longleftrightarrow>
     itp_zone (sh_prov s) = zone
     \<and> ((\<forall>i < length calls. \<not> half_published (code s i)) \<longrightarrow>
          one_catalogue zone (itp_instanceTypesByName (sh_prov s)) (itp_plansByName (sh_prov s)))
     \<and> (\<forall>i < length calls. half_published (code s i) \<longrightarrow>
          itp_instanceTypesByName (sh_prov s) = l_built (th_locals (sh_threads s ! i)))
     \<and> (\<forall>i < length calls. has_built (code s i) \<longrightarrow>
          one_catalogue zone (l_built (th_locals (sh_threads s ! i))) (l_raw (th_locals (sh_threads s ! i))))
     \<and> (\<forall>i < length calls. result_ok zone (calls ! i) (sh_threads s ! i))"

lemma data_inv_start:
  assumes "catalogue_inv p"
  shows "data_inv (itp_zone p) calls (start p calls)"
proof -
  have "\<not> has_built (code_of m)" "\<not> half_published (code_of m)" for m
    by (cases m; simp add: code_defs half_published_def)+
  moreover have "result_ok (itp_zone p) m \<lparr>th_code = code_of m, th_locals = no_locals\<rparr>" for m
    by (cases m) (simp_all add: result_ok_def code_defs)
  moreover have "one_catalogue (itp_zone p) (itp_instanceTypesByName p) (itp_plansByName p)"
    unfolding one_catalogue_def using assms by blast
  ultimately show ?thesis by (simp add: data_inv_def start_def del: has_built.simps)
qed

text \<open>Only the holder of the write lock is between its two assignments.\<close>

lemma half_published_unique:
  assumes "lock_inv calls s" and "i < length calls" and "half_published (code s i)"
    and "j < length calls" and "mode (code s j) \<noteq> Free"
  shows "j = i"
proof -
  have "mu_writer (sh_mu s) = Some i" using assms(1-3) by (simp add: lock_inv_def half_published_def)
  then show ?thesis using assms(1,4,5) by (cases "mode (code s j)") (auto simp: lock_inv_def)
qed

lemma data_inv_update:
  assumes inv: "data_inv zone calls s" and len: "length (sh_threads s) = length calls" and i: "i < length calls"
    and zone: "itp_zone p' = zone"
    and whole: "\<forall>j < length calls. j \<noteq> i \<longrightarrow> \<not> half_published (code s j) \<Longrightarrow> \<not> half_published cs' \<Longrightarrow>
      one_catalogue zone (itp_instanceTypesByName p') (itp_plansByName p')"
    and half: "half_published cs' \<Longrightarrow> itp_instanceTypesByName p' = l_built l'"
    and others: "\<And>j. j < length calls \<Longrightarrow> j \<noteq> i \<Longrightarrow> half_published (code s j) \<Longrightarrow>
      itp_instanceTypesByName p' = itp_instanceTypesByName (sh_prov s)"
    and built: "has_built cs' \<Longrightarrow> one_catalogue zone (l_built l') (l_raw l')"
    and result: "result_ok zone (calls ! i) \<lparr>th_code = cs', th_locals = l'\<rparr>"
  shows "data_inv zone calls (s\<lparr>sh_prov := p', sh_mu := mu, sh_threads := (sh_threads s)[i := \<lparr>th_code = cs', th_locals = l'\<rparr>]\<rparr>)"
proof -
  have nth: "(sh_threads s)[i := t] ! j = (if j = i then t else sh_threads s ! j)" for j t
    using i len by (simp add: nth_list_update)
  show ?thesis
    using inv i zone whole half others built result
    unfolding data_inv_def by (simp add: nth del: has_built.simps)
qed

text \<open>An action that leaves both maps alone, away from the two assignments.\<close>

lemma data_inv_plain:
  assumes inv: "data_inv zone calls s" and len: "length (sh_threads s) = length calls" and i: "i < length calls"
    and "itp_zone p' = itp_zone (sh_prov s)" and "itp_instanceTypesByName p' = itp_instanceTypesByName (sh_prov s)"
    and "itp_plansByName p' = itp_plansByName (sh_prov s)"
    and "\<not> half_published (code s i)" and "\<not> half_published cs'"
    and "has_built cs' \<Longrightarrow> one_catalogue zone (l_built l') (l_raw l')"
    and "result_ok zone (calls ! i) \<lparr>th_code = cs', th_locals = l'\<rparr>"
  shows "data_inv zone calls (s\<lparr>sh_prov := p', sh_mu := mu, sh_threads := (sh_threads s)[i := \<lparr>th_code = cs', th_locals = l'\<rparr>]\<rparr>)"
proof (rule data_inv_update [OF inv len i])
  assume "\<forall>j < length calls. j \<noteq> i \<longrightarrow> \<not> half_published (code s j)"
  then show "one_catalogue zone (itp_instanceTypesByName p') (itp_plansByName p')"
    using inv assms(5-7) unfolding data_inv_def by metis
qed (use assms in \<open>simp_all add: data_inv_def del: has_built.simps\<close>)

text \<open>An action on the mutex changes no data and leads to no new obligation.\<close>

lemma lock_action_data:
  assumes "of_call m (x # cs)" and "x \<in> {IRLock, IRUnlock, ILock, IAcquire, IUnlock}"
  shows "\<not> half_published (x # cs)" and "\<not> half_published cs" and "has_built cs \<longrightarrow> has_built (x # cs)"
    and "result_ok zone m \<lparr>th_code = x # cs, th_locals = l\<rparr> \<longrightarrow> result_ok zone m \<lparr>th_code = cs, th_locals = l\<rparr>"
  using assms by (cases m; auto simp: of_call_def code_defs half_published_def result_ok_def)+

lemma data_inv_lock_action:
  assumes inv: "data_inv zone calls s" and lck: "lock_inv calls s" and i: "i < length (sh_threads s)" "code s i = x # cs"
    and x: "x \<in> {IRLock, IRUnlock, ILock, IAcquire, IUnlock}"
  shows "data_inv zone calls (set_code i cs (s\<lparr>sh_mu := mu\<rparr>))"
proof -
  let ?l = "th_locals (sh_threads s ! i)"
  have len: "length (sh_threads s) = length calls" using lck by (simp add: lock_inv_def)
  note facts = lock_action_data [OF lock_inv_code [OF lck i] x]
  have t: "sh_threads s ! i = \<lparr>th_code = x # cs, th_locals = ?l\<rparr>" using i(2) by simp
  have "result_ok zone (calls ! i) \<lparr>th_code = cs, th_locals = ?l\<rparr>"
    using inv i len facts(4) [of zone ?l] t unfolding data_inv_def by metis
  moreover have "has_built cs \<Longrightarrow> one_catalogue zone (l_built ?l) (l_raw ?l)"
    using inv i len facts(3) unfolding data_inv_def by (simp del: has_built.simps)
  ultimately have "data_inv zone calls
      (s\<lparr>sh_prov := sh_prov s, sh_mu := mu, sh_threads := (sh_threads s)[i := \<lparr>th_code = cs, th_locals = ?l\<rparr>]\<rparr>)"
    using data_inv_plain [OF inv len, of i "sh_prov s" cs ?l mu] i len facts(1,2) by (simp del: has_built.simps)
  then show ?thesis by (cases "sh_threads s ! i") (simp add: set_code_def)
qed

lemma data_inv_exec:
  assumes inv: "data_inv zone calls s" and lck: "lock_inv calls s" and i: "i < length (sh_threads s)" "code s i = x # cs"
    and ex: "exec x cs (th_locals (sh_threads s ! i)) (sh_prov s) cs' l' p'"
  shows "data_inv zone calls (s\<lparr>sh_prov := p', sh_threads := (sh_threads s)[i := \<lparr>th_code = cs', th_locals = l'\<rparr>]\<rparr>)"
proof -
  let ?l = "th_locals (sh_threads s ! i)" and ?m = "calls ! i"
  have len: "length (sh_threads s) = length calls" using lck by (simp add: lock_inv_def)
  then have i': "i < length calls" using i(1) by simp
  have call: "of_call ?m (x # cs)" by (rule lock_inv_code [OF lck i])
  have zone: "itp_zone (sh_prov s) = zone" using inv by (simp add: data_inv_def)
  have old: "result_ok zone ?m (sh_threads s ! i)" using inv i' by (simp add: data_inv_def)
  have alone: "\<forall>j < length calls. j \<noteq> i \<longrightarrow> \<not> half_published (code s j)" if "mode (code s i) \<noteq> Free"
    using half_published_unique [OF lck _ _ i' that] by blast
  have whole: "one_catalogue zone (itp_instanceTypesByName (sh_prov s)) (itp_plansByName (sh_prov s))"
    if "mode (code s i) \<noteq> Free" and "\<not> half_published (code s i)"
    using inv alone that unfolding data_inv_def by metis
  have plain: ?thesis
    if "itp_zone p' = itp_zone (sh_prov s)" "itp_instanceTypesByName p' = itp_instanceTypesByName (sh_prov s)"
      "itp_plansByName p' = itp_plansByName (sh_prov s)" "\<not> half_published (x # cs)" "\<not> half_published cs'"
      "has_built cs' \<Longrightarrow> one_catalogue zone (l_built l') (l_raw l')" "result_ok zone ?m \<lparr>th_code = cs', th_locals = l'\<rparr>"
    using data_inv_plain [OF inv len i', of p' cs' l' "sh_mu s"] that i(2) by (simp del: has_built.simps)
  from ex show ?thesis
  proof (cases rule: exec.cases)
    case ListTypes
    then obtain q where "catalogue_inv q" "itp_zone q = zone" "InstanceTypes.List q = InstanceTypes.List (sh_prov s)"
      using whole i(2) call
      by (cases ?m) (auto simp: of_call_def code_defs half_published_def one_catalogue_def InstanceTypes.List_def)
    then show ?thesis using ListTypes call
      by (intro plain) (cases ?m; auto simp: of_call_def code_defs half_published_def result_ok_def)+
  next
    case (GetPlan name)
    then obtain q where "catalogue_inv q" "itp_zone q = zone" "InstanceTypes.Get q = InstanceTypes.Get (sh_prov s)"
      using whole i(2) call
      by (cases ?m) (auto simp: of_call_def code_defs half_published_def one_catalogue_def InstanceTypes.Get_def fun_eq_iff)
    then show ?thesis using GetPlan call
      by (intro plain) (cases ?m; auto simp: of_call_def code_defs half_published_def result_ok_def)+
  next
    case (Build built rawPlans)
    then have "one_catalogue zone built rawPlans" using plan_loop_one_catalogue zone by blast
    then show ?thesis using Build call
      by (intro plain) (cases ?m; auto simp: of_call_def code_defs half_published_def result_ok_def)+
  next
    case SetTypes
    then have cs: "cs = [ISetPlans, IUnlock]" "?m = MRefresh" using call by (cases ?m; auto simp: of_call_def code_defs)+
    have "one_catalogue zone (l_built ?l) (l_raw ?l)" using inv i' i(2) SetTypes cs by (simp add: data_inv_def)
    then show ?thesis
      using data_inv_update [OF inv len i', of p' cs' l' "sh_mu s"] alone SetTypes zone cs i(2)
      by (simp add: half_published_def result_ok_def)
  next
    case SetPlans
    then have cs: "cs = [IUnlock]" "?m = MRefresh" using call by (cases ?m; auto simp: of_call_def code_defs)+
    have "one_catalogue zone (l_built ?l) (l_raw ?l)" "itp_instanceTypesByName (sh_prov s) = l_built ?l"
      using inv i' i(2) SetPlans cs by (simp_all add: data_inv_def half_published_def)
    then show ?thesis
      using data_inv_update [OF inv len i', of p' cs' l' "sh_mu s"] alone SetPlans zone cs i(2)
      by (simp add: half_published_def result_ok_def)
  qed (use call in \<open>(intro plain; cases ?m; auto simp: of_call_def code_defs half_published_def result_ok_def)+\<close>)
qed

lemma data_inv_step:
  assumes "data_inv zone calls s" and "lock_inv calls s" and "step s s'"
  shows "data_inv zone calls s'"
  using assms(3)
  by (cases rule: step.cases)
     (auto intro: data_inv_lock_action [OF assms(1,2)] data_inv_exec [OF assms(1,2)])

lemma data_inv_reachable:
  assumes "catalogue_inv p" and "step\<^sup>*\<^sup>* (start p calls) s"
  shows "data_inv (itp_zone p) calls s"
  using assms(2)
  by (induction rule: rtranclp_induct)
     (auto intro: data_inv_start [OF assms(1)] data_inv_step lock_inv_reachable)

section \<open>Progress\<close>

definition remaining :: "shared \<Rightarrow> nat" where
  "remaining s = sum_list (map (\<lambda>t. length (th_code t)) (sh_threads s))"

lemma remaining_update:
  assumes "i < length (sh_threads s)" and "length (th_code t) < length (code s i)"
  shows "remaining (s\<lparr>sh_prov := p, sh_mu := mu, sh_threads := (sh_threads s)[i := t]\<rparr>) < remaining s"
proof -
  let ?n = "\<lambda>t. length (th_code t)"
  have "sum_list (map ?n ((sh_threads s)[i := t])) + ?n (sh_threads s ! i) = remaining s + ?n t"
    using assms(1) elem_le_sum_list [of i "map ?n (sh_threads s)"] by (simp add: remaining_def map_update sum_list_update)
  then show ?thesis using assms(2) by (simp add: remaining_def)
qed

lemma exec_shortens:
  assumes "of_call m (x # cs)" and "exec x cs l p cs' l' p'"
  shows "length cs' < length (x # cs)"
  using assms(2) assms(1)
  by (cases rule: exec.cases) (cases m; auto simp: of_call_def code_defs)+

lemma step_shortens:
  assumes inv: "lock_inv calls s" and "step s s'"
  shows "remaining s' < remaining s"
  using assms(2)
proof (cases rule: step.cases)
  case (Exec i x cs cs' l' p')
  then have "length cs' < length (code s i)" using exec_shortens [OF lock_inv_code [OF inv Exec(2,3)] Exec(4)] by simp
  then show ?thesis using Exec remaining_update [of i s _ "sh_mu s" p'] by simp
qed (use remaining_update [where s = s and p = "sh_prov s"] in \<open>simp_all add: set_code_def\<close>)

lemma exec_total:
  assumes "x \<notin> {IRLock, IRUnlock, ILock, IAcquire, IUnlock}"
  shows "\<exists>cs' l' p'. exec x cs l p cs' l' p'"
proof (cases x)
  case ICheckFetch
  show ?thesis
  proof (cases "Since 0 (itp_lastFetch p) < itp_cacheTTL p")
    case True
    then show ?thesis unfolding ICheckFetch using exec.CheckFetch_fresh by blast
  next
    case False
    then show ?thesis unfolding ICheckFetch using exec.CheckFetch_stale by blast
  qed
next
  case IBuild
  obtain b r where "plan_loop p (l_pricing l) (l_plans l) ([], []) = (b, r)" by fastforce
  then show ?thesis unfolding IBuild using exec.Build by blast
qed (use assms in \<open>simp_all\<close>, (blast intro: exec.intros)+)

text \<open>A call is held up only by the mutex.\<close>

lemma can_step:
  assumes "i < length (sh_threads s)" and "code s i = x # cs"
    and "x \<in> {IRLock, ILock} \<Longrightarrow> mu_writer (sh_mu s) = None \<and> mu_pending (sh_mu s) = None"
    and "x = IAcquire \<Longrightarrow> mu_pending (sh_mu s) = Some i \<and> mu_readers (sh_mu s) = {}"
  shows "\<exists>s'. step s s'"
proof (cases "x \<in> {IRLock, IRUnlock, ILock, IAcquire, IUnlock}")
  case True
  then show ?thesis
    using step.RLock [of i s] step.RUnlock [of i s] step.Lock [of i s] step.Acquire [of i s] step.Unlock [of i s] assms by auto
next
  case False
  obtain cs' l' p' where "exec x cs (th_locals (sh_threads s ! i)) (sh_prov s) cs' l' p'"
    using exec_total [OF False] by blast
  from step.Exec [OF assms(1,2) this] show ?thesis by blast
qed

lemma progress:
  assumes inv: "lock_inv calls s" and i: "i < length calls" "code s i \<noteq> []"
  shows "\<exists>s'. step s s'"
proof -
  have len: "length (sh_threads s) = length calls" using inv by (simp add: lock_inv_def)
  have go: "\<exists>s'. step s s'" if j: "j < length calls" "mode (code s j) = md" "md \<in> {Reading, Writing}" for j md
  proof (cases "code s j")
    case (Cons x cs)
    then have "x \<notin> {IRLock, ILock, IAcquire}" using j by auto
    then show ?thesis using can_step [of j s x cs] j Cons len by auto
  qed (use j in simp)
  have acquire: "\<exists>s'. step s s'" if j: "mu_pending (sh_mu s) = Some j" "mu_readers (sh_mu s) = {}" for j
  proof -
    have j': "j < length calls" "mode (code s j) = Pending" using j inv by (auto simp: lock_inv_def)
    then obtain x cs where x: "code s j = x # cs" by (cases "code s j") auto
    then have "x \<notin> {IRLock, ILock}" using j' by auto
    then show ?thesis using can_step [of j s x cs] x j j' len by auto
  qed
  show ?thesis
  proof (cases "\<exists>j < length calls. mode (code s j) \<in> {Reading, Writing}")
    case True
    then show ?thesis using go by blast
  next
    case False
    then have free: "mu_readers (sh_mu s) = {}" "mu_writer (sh_mu s) = None"
      using inv by (auto simp: lock_inv_def) (metis not_None_eq)
    obtain x cs where x: "code s i = x # cs" using i(2) by (cases "code s i") auto
    show ?thesis
    proof (cases "mu_pending (sh_mu s)")
      case None
      moreover have "x \<noteq> IAcquire" using None inv i x by (auto simp: lock_inv_def)
      ultimately show ?thesis using can_step [of i s x cs] i len x free by auto
    next
      case (Some j)
      then show ?thesis using acquire free by simp
    qed
  qed
qed

lemma lock_inv_done:
  assumes "lock_inv calls s" and "\<forall>i < length calls. code s i = []"
  shows "sh_mu s = \<lparr>mu_writer = None, mu_pending = None, mu_readers = {}\<rparr>"
proof -
  have "mu_writer (sh_mu s) = None" "mu_pending (sh_mu s) = None" "mu_readers (sh_mu s) = {}"
    using assms unfolding lock_inv_def by (auto simp: ) (metis mode.simps(1) lock_mode.distinct not_None_eq)+
  then show ?thesis by (cases "sh_mu s") simp
qed

section \<open>A call alone\<close>

definition alone :: "Provider \<Rightarrow> nat option \<Rightarrow> nat set \<Rightarrow> instr list \<Rightarrow> locals \<Rightarrow> shared" where
  "alone p w rs cs l = \<lparr>sh_prov = p, sh_mu = \<lparr>mu_writer = w, mu_pending = None, mu_readers = rs\<rparr>,
     sh_threads = [\<lparr>th_code = cs, th_locals = l\<rparr>]\<rparr>"

lemma start_alone: "start p [m] = alone p None {} (code_of m) no_locals"
  by (simp add: start_def alone_def)

lemma alone_exec: "exec x cs l p cs' l' p' \<Longrightarrow> step\<^sup>*\<^sup>* (alone p w rs (x # cs) l) (alone p' w rs cs' l')"
  using step.Exec [of 0 "alone p w rs (x # cs) l" x cs cs' l' p'] by (simp add: alone_def r_into_rtranclp)

lemma alone_rlock: "step\<^sup>*\<^sup>* (alone p None {} (IRLock # cs) l) (alone p None {0} cs l)"
  using step.RLock [of 0 "alone p None {} (IRLock # cs) l" cs] by (simp add: alone_def set_code_def r_into_rtranclp)

lemma alone_runlock: "step\<^sup>*\<^sup>* (alone p None {0} (IRUnlock # cs) l) (alone p None {} cs l)"
  using step.RUnlock [of 0 "alone p None {0} (IRUnlock # cs) l" cs] by (simp add: alone_def set_code_def r_into_rtranclp)

lemma alone_lock: "step\<^sup>*\<^sup>* (alone p None {} (ILock # IAcquire # cs) l) (alone p (Some 0) {} cs l)"
proof -
  let ?s = "(alone p None {} (IAcquire # cs) l)\<lparr>sh_mu := \<lparr>mu_writer = None, mu_pending = Some 0, mu_readers = {}\<rparr>\<rparr>"
  have "step (alone p None {} (ILock # IAcquire # cs) l) ?s"
    using step.Lock [of 0 "alone p None {} (ILock # IAcquire # cs) l" "IAcquire # cs"] by (simp add: alone_def set_code_def)
  moreover have "step ?s (alone p (Some 0) {} cs l)"
    using step.Acquire [of 0 ?s cs] by (simp add: alone_def set_code_def)
  ultimately show ?thesis by (metis converse_rtranclp_into_rtranclp r_into_rtranclp)
qed

lemma alone_unlock: "step\<^sup>*\<^sup>* (alone p (Some 0) {} (IUnlock # cs) l) (alone p None {} cs l)"
  using step.Unlock [of 0 "alone p (Some 0) {} (IUnlock # cs) l" cs] by (simp add: alone_def set_code_def r_into_rtranclp)

lemmas alone_steps = alone_rlock alone_runlock alone_lock alone_unlock

lemma alone_build:
  assumes "plan_loop p (itp_prices p) (l_plans l) ([], []) = (built, rawPlans)"
  shows "\<exists>l'. step\<^sup>*\<^sup>* (alone p None {} build_code l) (alone (p\<lparr>itp_instanceTypesByName := built, itp_plansByName := rawPlans\<rparr>) None {} [] l')"
proof -
  let ?l1 = "l\<lparr>l_pricing := itp_prices p\<rparr>"
  let ?l2 = "?l1\<lparr>l_built := built, l_raw := rawPlans\<rparr>"
  have built: "exec IBuild cs ?l1 p cs ?l2 p" for cs using exec.Build [of p ?l1] assms by simp
  have set1: "exec ISetTypes cs ?l2 p cs ?l2 (p\<lparr>itp_instanceTypesByName := built\<rparr>)" for cs
    using exec.SetTypes [of cs ?l2 p] by simp
  have set2: "exec ISetPlans cs ?l2 (p\<lparr>itp_instanceTypesByName := built\<rparr>) cs ?l2
      (p\<lparr>itp_instanceTypesByName := built, itp_plansByName := rawPlans\<rparr>)" for cs
    using exec.SetPlans [of cs ?l2 "p\<lparr>itp_instanceTypesByName := built\<rparr>"] by simp
  show ?thesis unfolding build_code_def
    by (rule exI [of _ ?l2])
       (rule rtranclp_trans [OF alone_rlock] rtranclp_trans [OF alone_exec [OF exec.CopyPrices]]
          rtranclp_trans [OF alone_runlock] rtranclp_trans [OF alone_exec [OF built]] rtranclp_trans [OF alone_lock]
          rtranclp_trans [OF alone_exec [OF set1]] rtranclp_trans [OF alone_exec [OF set2]] alone_unlock)+
qed

lemma alone_prices:
  assumes "run_state (refreshPrices hst p) h = ((e, p'), h')"
  shows "\<exists>l'. l_plans l' = l_plans l \<and> step\<^sup>*\<^sup>* (alone p None {} (refreshPrices_code @ build_code) l) (alone p' None {} build_code l')"
proof (cases "Since (fst (h_Now hst h)) (itp_lastFetch p) < itp_cacheTTL p")
  case True
  then have "p' = p" using assms by (simp add: refreshPrices_run)
  then show ?thesis
    using alone_exec [OF exec.CheckFetch_fresh [OF True]] by (auto simp: refreshPrices_code_def)
next
  case False
  let ?rest = "[ILock, IAcquire, ISetPrices, ISetLastFetch, IUnlock, IScanTypes] @ build_code"
  have check: "step\<^sup>*\<^sup>* (alone p None {} (refreshPrices_code @ build_code) l) (alone p None {} (IGetPrices # ?rest) l)"
    using alone_exec [OF exec.CheckFetch_stale [OF False]] by (simp add: refreshPrices_code_def)
  show ?thesis
  proof (cases "cl_GetPricesByZone (itp_svc p) (h @ [ENow])")
    case (Inl err)
    then have "p' = p" using assms False by (simp add: refreshPrices_run)
    then show ?thesis using rtranclp_trans [OF check alone_exec [OF exec.GetPrices_failed]] by auto
  next
    case (Inr pbz)
    let ?l = "l\<lparr>l_prices := price_loop (zone_prices (itp_zone p) pbz) []\<rparr>"
    let ?now = "fst (h_Now hst (h @ [ENow, EGetPrices]))"
    have p': "p' = p\<lparr>itp_prices := l_prices ?l, itp_lastFetch := ?now\<rparr>"
      using assms False Inr by (simp add: refreshPrices_run)
    have set1: "exec ISetPrices cs ?l p cs ?l (p\<lparr>itp_prices := l_prices ?l\<rparr>)" for cs by (rule exec.SetPrices)
    have set2: "exec ISetLastFetch cs ?l (p\<lparr>itp_prices := l_prices ?l\<rparr>) cs ?l p'" for cs
      using exec.SetLastFetch [of cs ?l "p\<lparr>itp_prices := l_prices ?l\<rparr>" ?now] by (simp add: p')
    have "step\<^sup>*\<^sup>* (alone p None {} (IGetPrices # ?rest) l) (alone p' None {} build_code ?l)"
      unfolding append.simps
      by (rule rtranclp_trans [OF alone_exec [OF exec.GetPrices [where pricesByZone = pbz]]] rtranclp_trans [OF alone_lock]
          rtranclp_trans [OF alone_exec [OF set1]] rtranclp_trans [OF alone_exec [OF set2]] rtranclp_trans [OF alone_unlock]
          alone_exec [OF exec.ScanTypes])+
    then show ?thesis using rtranclp_trans [OF check] by (intro exI [of _ ?l]) simp
  qed
qed

section \<open>Properties\<close>


lemma ex_list_run:
  "\<exists>s. step\<^sup>*\<^sup>* (start p [MList]) s \<and> th_code (sh_threads s ! 0) = [] \<and> l_types (th_locals (sh_threads s ! 0)) = InstanceTypes.List p"
proof -
  have "step\<^sup>*\<^sup>* (start p [MList]) (alone p None {} [] (no_locals\<lparr>l_types := InstanceTypes.List p\<rparr>))"
    unfolding start_alone code_of.simps List_code_def
    by (rule rtranclp_trans [OF alone_rlock] rtranclp_trans [OF alone_exec [OF exec.ListTypes]] alone_runlock)+
  then show ?thesis by (intro exI) (auto simp: alone_def)
qed


text \<open>
  C15. Calls of the three methods that include at most one \<^verbatim>\<open>Refresh\<close>, which is how the operator uses
  them, are free of data races: no two of them are ever about to access the same field with
  one of them writing it.
\<close>

theorem catalogue_race_free:
  assumes "step\<^sup>*\<^sup>* (start p calls) s" and "length (filter (\<lambda>m. m = MRefresh) calls) \<le> 1"
  shows "\<not> race s"
proof
  assume "race s"
  then obtain i j x y cs ds f where r: "i < length (sh_threads s)" "j < length (sh_threads s)" "i \<noteq> j"
    "code s i = x # cs" "code s j = y # ds" "writes x = Some f" "reads y = Some f \<or> writes y = Some f"
    by (auto simp: race_def)
  note inv = lock_inv_reachable [OF assms(1)]
  have len: "length (sh_threads s) = length calls" using inv by (simp add: lock_inv_def)
  have x: "mode (code s i) = Writing" "calls ! i = MRefresh"
    using mode_access(1) [OF lock_inv_code [OF inv r(1,4)] r(6)] r(4) by simp_all
  then have w: "mu_writer (sh_mu s) = Some i" using inv r(1) len by (simp add: lock_inv_def)
  have "mode (code s j) \<notin> {Reading, Writing}" using inv w r(2,3) len by (auto simp: lock_inv_def)
  then have "calls ! j = MRefresh"
    using mode_access [OF lock_inv_code [OF inv r(2,5)]] r(5,7) by (metis insertCI)
  then have "{i, j} \<subseteq> {k. k < length calls \<and> calls ! k = MRefresh}" using x(2) r(1,2) len by simp
  then have "card {i, j} \<le> card {k. k < length calls \<and> calls ! k = MRefresh}" by (intro card_mono) simp_all
  then show False using assms(2) r(3) by (simp add: length_filter_conv_card)
qed

theorem catalogue_race_free_witness:
  "\<exists>s. step\<^sup>*\<^sup>* (start (NewProvider ex_cloud ''fi-hel1'') [MList]) s \<and> th_code (sh_threads s ! 0) = [] \<and> \<not> race s"
proof -
  obtain s where s: "step\<^sup>*\<^sup>* (start (NewProvider ex_cloud ''fi-hel1'') [MList]) s" "th_code (sh_threads s ! 0) = []"
    using ex_list_run by blast
  then show ?thesis using catalogue_race_free [OF s(1)] by auto
qed

text \<open>
  C14. Every call returns. However their actions interleave, calls of the three methods make at most
  as many steps as their code has actions, and a state in which no step is possible is one in
  which all of them have returned and the mutex is free: none of them waits for ever, for itself
  or for another.
\<close>

theorem catalogue_calls_return:
  assumes "(step ^^ n) (start p calls) s"
  shows "n \<le> sum_list (map (\<lambda>m. length (code_of m)) calls)
    \<and> ((\<exists>s'. step s s')
       \<or> ((\<forall>i < length calls. th_code (sh_threads s ! i) = [])
          \<and> sh_mu s = \<lparr>mu_writer = None, mu_pending = None, mu_readers = {}\<rparr>))"
proof -
  have "remaining s + n \<le> remaining (start p calls)" using assms
  proof (induction n arbitrary: s)
    case (Suc n)
    then obtain t where t: "(step ^^ n) (start p calls) t" "step t s" by auto
    have "lock_inv calls t" using relpowp_imp_rtranclp [OF t(1)] by (rule lock_inv_reachable)
    then show ?case using Suc.IH [OF t(1)] step_shortens [OF _ t(2)] by fastforce
  qed simp
  moreover have "remaining (start p calls) = sum_list (map (\<lambda>m. length (code_of m)) calls)"
    by (simp add: remaining_def start_def comp_def)
  moreover have inv: "lock_inv calls s" using relpowp_imp_rtranclp [OF assms] by (rule lock_inv_reachable)
  ultimately show ?thesis using progress [OF inv] lock_inv_done [OF inv] by force
qed

theorem catalogue_calls_return_witness:
  "\<exists>s. step (start (NewProvider ex_cloud ''fi-hel1'') [MRefresh, MGet ''p'']) s"
proof -
  let ?s = "start (NewProvider ex_cloud ''fi-hel1'') [MRefresh, MGet ''p'']"
  have "(step ^^ 0) ?s ?s" by simp
  from catalogue_calls_return [OF this] have "(\<exists>s'. step ?s s') \<or> (\<forall>i < 2. th_code (sh_threads ?s ! i) = [])" by auto
  moreover have "th_code (sh_threads ?s ! 0) \<noteq> []" by (simp add: start_def code_defs)
  ultimately show ?thesis by fastforce
qed



text \<open>
  Two refreshes at the same time do race: while one writes the time of the last price fetch,
  under the mutex, another is about to read it, outside of the mutex.
\<close>

theorem concurrent_refreshes_race:
  assumes "\<not> Since now (itp_lastFetch p) < itp_cacheTTL p"
  shows "\<exists>s. step\<^sup>*\<^sup>* (start p [MRefresh, MRefresh]) s \<and> race s"
proof -
  let ?two = "\<lambda>p mu cs l ds. \<lparr>sh_prov = p, sh_mu = mu, sh_threads = [\<lparr>th_code = cs, th_locals = l\<rparr>, \<lparr>th_code = ds, th_locals = no_locals\<rparr>]\<rparr>"
  let ?mu = "\<lambda>w pd. \<lparr>mu_writer = w, mu_pending = pd, mu_readers = {}\<rparr>"
  have ex: "step\<^sup>*\<^sup>* (?two p mu (x # cs) l ds) (?two p' mu cs' l' ds)" if "exec x cs l p cs' l' p'" for x cs l p cs' l' p' mu ds
    using step.Exec [of 0 "?two p mu (x # cs) l ds" x cs cs' l' p'] that by (simp add: r_into_rtranclp)
  have other: "step\<^sup>*\<^sup>* (?two p mu cs l (IGetPlans # ds)) (?two p mu cs l ds)" for p mu cs l ds
    using step.Exec [of 1 "?two p mu cs l (IGetPlans # ds)" IGetPlans ds ds no_locals p]
      exec.GetPlans [of ds no_locals p "[]"] by (simp add: r_into_rtranclp no_locals_def)
  have lck: "step\<^sup>*\<^sup>* (?two p (?mu None None) (ILock # cs) l ds) (?two p (?mu None (Some 0)) cs l ds)" for p cs l ds
    using step.Lock [of 0 "?two p (?mu None None) (ILock # cs) l ds" cs] by (simp add: set_code_def r_into_rtranclp)
  have acq: "step\<^sup>*\<^sup>* (?two p (?mu None (Some 0)) (IAcquire # cs) l ds) (?two p (?mu (Some 0) None) cs l ds)" for p cs l ds
    using step.Acquire [of 0 "?two p (?mu None (Some 0)) (IAcquire # cs) l ds" cs] by (simp add: set_code_def r_into_rtranclp)
  let ?rest = "[ISetLastFetch, IUnlock, IScanTypes] @ build_code"
  let ?prices = "price_loop (zone_prices (itp_zone p) []) []"
  let ?l = "no_locals\<lparr>l_plans := [], l_prices := ?prices\<rparr>"
  let ?last = "?two (p\<lparr>itp_prices := l_prices ?l\<rparr>) (?mu (Some 0) None) ?rest ?l (refreshPrices_code @ build_code)"
  have "step\<^sup>*\<^sup>* (?two p (?mu None None) Refresh_code no_locals Refresh_code) ?last"
    unfolding Refresh_code_def
    apply (rule rtranclp_trans [OF other])
    apply (rule rtranclp_trans [OF ex [OF exec.GetPlans [where plans = "[]"]]])
    apply (subst (1) refreshPrices_code_def, unfold append.simps)
    by (rule rtranclp_trans [OF ex [OF exec.CheckFetch_stale [OF assms]]]
        rtranclp_trans [OF ex [OF exec.GetPrices [where pricesByZone = "[]"]]] rtranclp_trans [OF lck] rtranclp_trans [OF acq]
        ex [OF exec.SetPrices])+
  moreover have "start p [MRefresh, MRefresh] = ?two p (?mu None None) Refresh_code no_locals Refresh_code"
    by (simp add: start_def)
  moreover have "race ?last"
    unfolding race_def refreshPrices_code_def
    by (rule exI [of _ 0], rule exI [of _ 1], rule exI [of _ ISetLastFetch], rule exI [of _ ICheckFetch]) auto
  ultimately show ?thesis by metis
qed

end
