(* ===== verification/Startup.thy ===== *)
theory Startup
  imports TTL_Controller NodeClass_Controller CloudProvider
begin

text \<open>
  The start of the operator: \<^verbatim>\<open>pkg/providers/options.go\<close> and the functions \<^verbatim>\<open>main\<close>,
  \<^verbatim>\<open>run\<close>, \<^verbatim>\<open>resolveClusterEndpoint\<close> and \<^verbatim>\<open>requireEnv\<close> of
  \<^verbatim>\<open>cmd/karpenter-upcloud/main.go\<close>. The environment is a function from names to values in
  which an unset variable is empty, as \<^verbatim>\<open>os.Getenv\<close> reads it.

  What is imported is the record \<open>startup_libs\<close>: the UpCloud service made from a token,
  \<^verbatim>\<open>time.ParseDuration\<close> (which converts fractions in floating point), the verb \<^verbatim>\<open>%q\<close>,
  the YAML decoder, reduced to the server fields of the clusters of a kubeconfig, and the
  manager that controllers are registered with. Nothing is assumed of them. The Karpenter core (state,
  overlay, controllers) is constructed and started without a result the program looks at; the
  event \<open>EStart\<close> marks the point. \<open>run\<close> returns, instead of nil, what the process then runs
  with.

  The locale \<open>env_reader\<close> is the contract of the two functions that read a required variable.
\<close>

section \<open>Definitions\<close>

type_synonym environment = "string \<Rightarrow> string"

record KubernetesCluster =
  kcl_Name :: string
  kcl_Zone :: string
  kcl_Network :: string

record upcloud_service =
  us_server :: server_service
  us_cloud :: cloud_service
  us_GetKubernetesCluster :: "history \<Rightarrow> string \<Rightarrow> goerror + KubernetesCluster"
  us_GetKubernetesKubeconfig :: "history \<Rightarrow> string \<Rightarrow> goerror + string"

record startup_libs =
  su_service :: "string \<Rightarrow> upcloud_service"
  su_ParseDuration :: "string \<Rightarrow> goerror + duration"
  su_quote :: "string \<Rightarrow> string"
  su_Unmarshal :: "string \<Rightarrow> goerror + string list"
  su_manager :: manager

record Options =
  opt_Token :: string
  opt_ClusterUUID :: string
  opt_RepairToleration :: duration

definition getRequiredEnv :: "environment \<Rightarrow> string \<Rightarrow> goerror + string" where
  "getRequiredEnv env key =
     (let val = env key in
      if val = '''' then Inl (ErrText (key @ '' environment variable is required'')) else Inr val)"

definition requireEnv :: "environment \<Rightarrow> string \<Rightarrow> goerror + string" where
  "requireEnv env key =
     (let val = env key in
      if val = '''' then Inl (ErrText (key @ '' environment variable is required'')) else Inr val)"

definition NewOptionsFromEnvironment :: "startup_libs \<Rightarrow> environment \<Rightarrow> goerror + Options" where
  "NewOptionsFromEnvironment S env =
     (case getRequiredEnv env ''UPCLOUD_TOKEN'' of
        Inl err \<Rightarrow> Inl err
      | Inr token \<Rightarrow>
     (case getRequiredEnv env ''UPCLOUD_KUBERNETES_CLUSTER_ID'' of
        Inl err \<Rightarrow> Inl err
      | Inr clusterUUID \<Rightarrow>
     (case getRequiredEnv env ''UPCLOUD_REPAIR_TOLERATION'' of
        Inl err \<Rightarrow> Inl err
      | Inr repairTolerationStr \<Rightarrow>
     (case su_ParseDuration S repairTolerationStr of
        Inl err \<Rightarrow> Inl (Wrapf (''parsing UPCLOUD_REPAIR_TOLERATION '' @ su_quote S repairTolerationStr) err)
      | Inr repairToleration \<Rightarrow>
          Inr \<lparr>opt_Token = token, opt_ClusterUUID = clusterUUID, opt_RepairToleration = repairToleration\<rparr>))))"

definition resolveClusterEndpoint ::
  "startup_libs \<Rightarrow> environment \<Rightarrow> upcloud_service \<Rightarrow> string \<Rightarrow> (goerror + string) prog" where
  "resolveClusterEndpoint S env svc clusterUUID =
     (if env ''CLUSTER_ENDPOINT'' \<noteq> '''' then ret (Inr (env ''CLUSTER_ENDPOINT''))
      else do {
        r \<leftarrow> call (EGetKubernetesKubeconfig clusterUUID) (\<lambda>h. us_GetKubernetesKubeconfig svc h clusterUUID);
        (case r of
           Inl err \<Rightarrow> ret (Inl (Wrapf ''getting kubeconfig'' err))
         | Inr kubeconfig \<Rightarrow>
             (case su_Unmarshal S kubeconfig of
                Inl err \<Rightarrow> ret (Inl (Wrapf ''parsing kubeconfig'' err))
              | Inr servers \<Rightarrow>
                  if length servers = 0 \<or> servers ! 0 = ''''
                  then ret (Inl (ErrText ''no server endpoint found in kubeconfig''))
                  else ret (Inr (servers ! 0))))
      })"

record running_operator =
  ro_cp :: UpCloudCloudProvider
  ro_nodeclass :: NodeClassController
  ro_ttl :: "TTLController option"

text \<open>The end of \<open>run\<close>: the two controllers of the repository and the start.\<close>

definition start_controllers ::
  "startup_libs \<Rightarrow> environment \<Rightarrow> kube_client \<Rightarrow> UpCloudCloudProvider \<Rightarrow> (goerror + running_operator) prog" where
  "start_controllers S env kube cp =
     do {
       e1 \<leftarrow> NC_SetupWithManager (su_manager S) \<lparr>ncc_Client = kube\<rparr>;
       (case e1 of
          Some err \<Rightarrow> ret (Inl (Wrapf ''setting up nodeclass controller'' err))
        | None \<Rightarrow>
            (let v = env ''UPCLOUD_NODECLAIM_TTL'' in
             if v \<noteq> '''' then
               (case su_ParseDuration S v of
                  Inl err \<Rightarrow> ret (Inl (Wrapf (''parsing UPCLOUD_NODECLAIM_TTL '' @ su_quote S v) err))
                | Inr d \<Rightarrow>
                    do {
                      e2 \<leftarrow> TTL_SetupWithManager (su_manager S) \<lparr>ttl_Client = kube, ttl_TTL = d\<rparr>;
                      (case e2 of
                         Some err \<Rightarrow> ret (Inl (Wrapf ''setting up nodeclaim TTL controller'' err))
                       | None \<Rightarrow>
                           do {
                             _ \<leftarrow> call (ELog (LogTTLEnabled d)) (\<lambda>h. ());
                             _ \<leftarrow> call EStart (\<lambda>h. ());
                             ret (Inr \<lparr>ro_cp = cp, ro_nodeclass = \<lparr>ncc_Client = kube\<rparr>,
                                       ro_ttl = Some \<lparr>ttl_Client = kube, ttl_TTL = d\<rparr>\<rparr>)
                           })
                    })
             else
               do {
                 _ \<leftarrow> call EStart (\<lambda>h. ());
                 ret (Inr \<lparr>ro_cp = cp, ro_nodeclass = \<lparr>ncc_Client = kube\<rparr>, ro_ttl = None\<rparr>)
               }))
     }"

definition run ::
  "startup_libs \<Rightarrow> environment \<Rightarrow> host \<Rightarrow> kube_client \<Rightarrow> csr_client \<Rightarrow> (goerror + running_operator) prog" where
  "run S env hst kube csrs =
     (case NewOptionsFromEnvironment S env of
        Inl err \<Rightarrow> ret (Inl (Wrapf ''parsing options'' err))
      | Inr opts \<Rightarrow>
          (let svc = su_service S (opt_Token opts) in
           do {
             r \<leftarrow> call (EGetKubernetesCluster (opt_ClusterUUID opts))
               (\<lambda>h. us_GetKubernetesCluster svc h (opt_ClusterUUID opts));
             (case r of
                Inl err \<Rightarrow> ret (Inl (Wrapf ''fetching cluster details'' err))
              | Inr cluster \<Rightarrow>
                  do {
                    e \<leftarrow> resolveClusterEndpoint S env svc (opt_ClusterUUID opts);
                    (case e of
                       Inl err \<Rightarrow> ret (Inl (Wrapf ''resolving cluster endpoint'' err))
                     | Inr clusterEndpoint \<Rightarrow>
                         (case requireEnv env ''UPCLOUD_TEMPLATE_UUID'' of
                            Inl err \<Rightarrow> ret (Inl err)
                          | Inr storageUUID \<Rightarrow>
                              do {
                                (rerr, itProvider) \<leftarrow> Refresh hst (NewProvider (us_cloud svc) (kcl_Zone cluster));
                                (case rerr of
                                   Some err \<Rightarrow> ret (Inl (Wrapf ''refreshing instance types'' err))
                                 | None \<Rightarrow>
                                     start_controllers S env kube
                                       (NewCloudProvider kube csrs
                                          (NewInstanceProvider (us_server svc) storageUUID (kcl_Network cluster)
                                             (opt_ClusterUUID opts) (kcl_Name cluster))
                                          itProvider (kcl_Zone cluster) clusterEndpoint (opt_RepairToleration opts)))
                              }))
                  })
           }))"

text \<open>The build variables, which a release build sets with linker flags, and \<^verbatim>\<open>main\<close>: its exit status.\<close>

record build_version =
  bv_Version :: string
  bv_Commit :: string
  bv_TreeState :: string

definition default_version :: build_version where
  "default_version = \<lparr>bv_Version = ''dev'', bv_Commit = ''none'', bv_TreeState = ''unknown''\<rparr>"

definition main ::
  "build_version \<Rightarrow> startup_libs \<Rightarrow> environment \<Rightarrow> host \<Rightarrow> kube_client \<Rightarrow> csr_client \<Rightarrow> int prog" where
  "main bv S env hst kube csrs =
     do {
       _ \<leftarrow> call (ELog (LogStarting (bv_Version bv) (bv_Commit bv) (bv_TreeState bv))) (\<lambda>h. ());
       r \<leftarrow> run S env hst kube csrs;
       (case r of
          Inl err \<Rightarrow> do { _ \<leftarrow> call (ELog (LogFailed err)) (\<lambda>h. ()); ret 1 }
        | Inr ro \<Rightarrow> ret 0)
     }"

section \<open>The contract of reading a required variable\<close>

locale env_reader =
  fixes read :: "environment \<Rightarrow> string \<Rightarrow> goerror + string"
  assumes present: "read env key = Inr v \<longleftrightarrow> env key = v \<and> v \<noteq> ''''"
    and missing: "env key = '''' \<Longrightarrow> read env key = Inl (ErrText (key @ '' environment variable is required''))"
begin

lemma read_cases: "read env key = Inr (env key) \<or> env key = ''''"
  using present by blast

lemma missing_names_the_key: "env key = '''' \<Longrightarrow> \<exists>e. read env key = Inl e \<and> HasPrefix (Error e) key"
  by (simp add: missing HasPrefix_iff)

end

interpretation options: env_reader getRequiredEnv
  by unfold_locales (auto simp: getRequiredEnv_def Let_def)

interpretation command: env_reader requireEnv
  by unfold_locales (auto simp: requireEnv_def Let_def)

section \<open>Lemmas\<close>

lemma NewOptions_ok:
  "NewOptionsFromEnvironment S env = Inr opts \<longleftrightarrow>
     env ''UPCLOUD_TOKEN'' \<noteq> '''' \<and> env ''UPCLOUD_KUBERNETES_CLUSTER_ID'' \<noteq> '''' \<and> env ''UPCLOUD_REPAIR_TOLERATION'' \<noteq> ''''
     \<and> opt_Token opts = env ''UPCLOUD_TOKEN'' \<and> opt_ClusterUUID opts = env ''UPCLOUD_KUBERNETES_CLUSTER_ID''
     \<and> su_ParseDuration S (env ''UPCLOUD_REPAIR_TOLERATION'') = Inr (opt_RepairToleration opts)"
  by (cases opts) (auto simp: NewOptionsFromEnvironment_def getRequiredEnv_def Let_def split: sum.splits)

lemma resolveClusterEndpoint_nonempty:
  "fst (run_state (resolveClusterEndpoint S env svc uuid) h) = Inr e \<Longrightarrow> e \<noteq> ''''"
  by (auto simp: resolveClusterEndpoint_def split: if_splits sum.splits)

lemma start_controllers_ok:
  assumes "fst (run_state (start_controllers S env kube cp) h) = Inr ro"
  shows "ro_cp ro = cp \<and> ro_nodeclass ro = \<lparr>ncc_Client = kube\<rparr>
    \<and> (if env ''UPCLOUD_NODECLAIM_TTL'' = '''' then ro_ttl ro = None
       else \<exists>d. su_ParseDuration S (env ''UPCLOUD_NODECLAIM_TTL'') = Inr d \<and> ro_ttl ro = Some \<lparr>ttl_Client = kube, ttl_TTL = d\<rparr>)"
  using assms
  by (auto simp: start_controllers_def NC_SetupWithManager_def TTL_SetupWithManager_def Let_def
      split: if_splits sum.splits option.splits)

section \<open>Properties\<close>

text \<open>
  Without one of its three options the operator stops before it calls anything, with an error
  that names a variable that is indeed missing.
\<close>

theorem missing_option_stops:
  assumes "env ''UPCLOUD_TOKEN'' = '''' \<or> env ''UPCLOUD_KUBERNETES_CLUSTER_ID'' = '''' \<or> env ''UPCLOUD_REPAIR_TOLERATION'' = ''''"
  shows "\<exists>e k. run_state (run S env hst kube csrs) h = (Inl e, h) \<and> env k = ''''
    \<and> Error e = ''parsing options: '' @ k @ '' environment variable is required''"
proof -
  have "\<exists>e k. NewOptionsFromEnvironment S env = Inl e \<and> env k = '''' \<and> Error e = k @ '' environment variable is required''"
  proof -
    have read: "getRequiredEnv env k =
        (if env k = '''' then Inl (ErrText (k @ '' environment variable is required'')) else Inr (env k))" for k
      by (simp add: getRequiredEnv_def Let_def)
    define missing where "missing = (if env ''UPCLOUD_TOKEN'' = '''' then ''UPCLOUD_TOKEN''
      else if env ''UPCLOUD_KUBERNETES_CLUSTER_ID'' = '''' then ''UPCLOUD_KUBERNETES_CLUSTER_ID''
      else ''UPCLOUD_REPAIR_TOLERATION'')"
    have "NewOptionsFromEnvironment S env = Inl (ErrText (missing @ '' environment variable is required''))"
      using assms by (auto simp: NewOptionsFromEnvironment_def read missing_def)
    moreover have "env missing = ''''" using assms by (auto simp: missing_def)
    ultimately show ?thesis by fastforce
  qed
  then obtain e k where "NewOptionsFromEnvironment S env = Inl e" "env k = ''''"
    "Error e = k @ '' environment variable is required''" by blast
  then show ?thesis
    by (intro exI [of _ "Wrapf ''parsing options'' e"] exI [of _ k]) (simp add: run_def)
qed

definition ex_startup :: startup_libs where
  "ex_startup = \<lparr>su_service = \<lambda>_. \<lparr>us_server = down_servers, us_cloud = ex_cloud,
       us_GetKubernetesCluster = \<lambda>_ _. Inr \<lparr>kcl_Name = ''prod'', kcl_Zone = ''fi-hel1'', kcl_Network = ''net''\<rparr>,
       us_GetKubernetesKubeconfig = \<lambda>_ _. Inr ''kubeconfig''\<rparr>,
     su_ParseDuration = \<lambda>_. Inr Minute, su_quote = \<lambda>s. s, su_Unmarshal = \<lambda>_. Inr [''https://api:6443''],
     su_manager = \<lambda>_ _. None\<rparr>"

theorem missing_option_stops_witness:
  "\<exists>e k. run_state (run ex_startup (\<lambda>_. '''') (still_host 0 '''') down_kube down_csr) [] = (Inl e, [])
     \<and> Error e = ''parsing options: '' @ k @ '' environment variable is required''"
  using missing_option_stops [of "\<lambda>_. ''''" ex_startup "still_host 0 ''''" down_kube down_csr "[]"] by blast

text \<open>
  C22. An operator that starts is wired to one cluster: it has the options of its environment, the
  zone, network and name of the cluster it fetched, a non-empty endpoint and template, a
  consistent catalogue for that zone in which every advertised type is a known plan, and the
  TTL controller exactly where a TTL is set, with that TTL.
\<close>

theorem run_wires_one_cluster:
  assumes "fst (run_state (run S env hst kube csrs) h) = Inr ro"
  shows "\<exists>svc cluster. svc = su_service S (env ''UPCLOUD_TOKEN'') \<and> env ''UPCLOUD_TOKEN'' \<noteq> ''''
    \<and> us_GetKubernetesCluster svc h (env ''UPCLOUD_KUBERNETES_CLUSTER_ID'') = Inr cluster
    \<and> cp_instanceProvider (ro_cp ro) = NewInstanceProvider (us_server svc) (env ''UPCLOUD_TEMPLATE_UUID'')
         (kcl_Network cluster) (env ''UPCLOUD_KUBERNETES_CLUSTER_ID'') (kcl_Name cluster)
    \<and> env ''UPCLOUD_TEMPLATE_UUID'' \<noteq> '''' \<and> cp_zone (ro_cp ro) = kcl_Zone cluster \<and> cp_clusterEndpoint (ro_cp ro) \<noteq> ''''
    \<and> su_ParseDuration S (env ''UPCLOUD_REPAIR_TOLERATION'') = Inr (cp_repairToleration (ro_cp ro))
    \<and> itp_zone (cp_instanceTypeProvider (ro_cp ro)) = kcl_Zone cluster
    \<and> it_Name ` set (GetInstanceTypes (ro_cp ro)) = dom (InstanceTypes.Get (cp_instanceTypeProvider (ro_cp ro)))
    \<and> (if env ''UPCLOUD_NODECLAIM_TTL'' = '''' then ro_ttl ro = None
       else \<exists>d. su_ParseDuration S (env ''UPCLOUD_NODECLAIM_TTL'') = Inr d \<and> ro_ttl ro = Some \<lparr>ttl_Client = kube, ttl_TTL = d\<rparr>)"
proof -
  obtain opts where opts: "NewOptionsFromEnvironment S env = Inr opts"
    using assms by (cases "NewOptionsFromEnvironment S env") (auto simp: run_def)
  let ?svc = "su_service S (opt_Token opts)"
  let ?h1 = "h @ [EGetKubernetesCluster (opt_ClusterUUID opts)]"
  obtain cluster where cluster: "us_GetKubernetesCluster ?svc h (opt_ClusterUUID opts) = Inr cluster"
    using assms opts
    by (cases "us_GetKubernetesCluster ?svc h (opt_ClusterUUID opts)") (auto simp: run_def Let_def)
  obtain r h2 where r: "run_state (resolveClusterEndpoint S env ?svc (opt_ClusterUUID opts)) ?h1 = (r, h2)" by fastforce
  obtain ep where ep: "r = Inr ep" using assms opts cluster r by (cases r) (auto simp: run_def Let_def)
  obtain t where t: "requireEnv env ''UPCLOUD_TEMPLATE_UUID'' = Inr t"
    using assms opts cluster r ep by (cases "requireEnv env ''UPCLOUD_TEMPLATE_UUID''") (auto simp: run_def Let_def)
  obtain rerr it h3 where it: "run_state (Refresh hst (NewProvider (us_cloud ?svc) (kcl_Zone cluster))) h2 = ((rerr, it), h3)"
    by (metis prod.exhaust)
  let ?cp = "NewCloudProvider kube csrs (NewInstanceProvider (us_server ?svc) t (kcl_Network cluster)
      (opt_ClusterUUID opts) (kcl_Name cluster)) it (kcl_Zone cluster) ep (opt_RepairToleration opts)"
  have start: "fst (run_state (start_controllers S env kube ?cp) h3) = Inr ro"
    using assms opts cluster r ep t it by (cases rerr) (auto simp: run_def Let_def)
  have "reachable hst (us_cloud ?svc) (kcl_Zone cluster) it"
    by (rule reachable_refresh [OF reachable_new it])
  then have "catalogue_inv it" and "itp_zone it = kcl_Zone cluster" using reachable_inv by blast+
  moreover have "ep \<noteq> ''''" using resolveClusterEndpoint_nonempty r ep by (metis fst_conv)
  ultimately show ?thesis
    using start_controllers_ok [OF start] opts [unfolded NewOptions_ok] cluster t [unfolded command.present]
      plans.names_are_the_domain [of it]
    by (intro exI [of _ ?svc] exI [of _ cluster]) (auto simp: NewCloudProvider_def GetInstanceTypes_def)
qed

lemma ex_starts: "\<exists>ro. fst (run_state (run ex_startup (\<lambda>_. ''x'') (still_host 0 '''') down_kube down_csr) []) = Inr ro"
proof -
  let ?p = "NewProvider ex_cloud ''fi-hel1''"
  have plans: "cl_GetPlans (itp_svc ?p) h = Inr [ex_plan]" for h
    by (simp add: NewProvider_def ex_cloud_def)
  have refresh: "\<exists>p' h'. run_state (Refresh (still_host 0 '''') ?p) h = ((None, p'), h')" for h
    by (rule Refresh_success [OF plans [of h], where hst = "still_host 0 ''''"]) blast
  have start: "\<exists>ro. fst (run_state (start_controllers ex_startup (\<lambda>_. ''x'') down_kube cp) h) = Inr ro" for cp h
    by (simp add: start_controllers_def NC_SetupWithManager_def TTL_SetupWithManager_def ex_startup_def)
  obtain p' h' where "run_state (Refresh (still_host 0 '''') ?p) [EGetKubernetesCluster ''x''] = ((None, p'), h')"
    using refresh by blast
  then show ?thesis
    using start
    by (simp add: run_def NewOptionsFromEnvironment_def getRequiredEnv_def requireEnv_def resolveClusterEndpoint_def
        Let_def ex_startup_def)
qed

theorem run_wires_one_cluster_witness:
  "\<exists>ro. fst (run_state (run ex_startup (\<lambda>_. ''x'') (still_host 0 '''') down_kube down_csr) []) = Inr ro
     \<and> cp_zone (ro_cp ro) = ''fi-hel1''"
proof -
  obtain ro where run: "fst (run_state (run ex_startup (\<lambda>_. ''x'') (still_host 0 '''') down_kube down_csr) []) = Inr ro"
    using ex_starts by blast
  from run_wires_one_cluster [OF run] have "cp_zone (ro_cp ro) = ''fi-hel1''"
    by (auto simp: ex_startup_def)
  then show ?thesis using run by blast
qed

section \<open>Exit and start\<close>

text \<open>
  The programs that end with a start of everything or with an error and no start: what such a
  program may report together with which calls, and the rules that take it through \<open>run\<close>.
\<close>

definition quiet :: "event \<Rightarrow> bool" where
  "quiet e \<longleftrightarrow> e \<noteq> EStart \<and> (\<forall>d reg. e \<noteq> ESetupTTL d reg)"

definition start_outcome :: "environment \<Rightarrow> goerror + running_operator \<Rightarrow> history \<Rightarrow> bool" where
  "start_outcome env r evs \<longleftrightarrow>
     (case r of
        Inl e \<Rightarrow> EStart \<notin> set evs
      | Inr ro \<Rightarrow> \<exists>pre. evs = pre @ [EStart] \<and> EStart \<notin> set pre \<and> ESetupNodeClass nodeclass_registration \<in> set pre
          \<and> ((\<exists>d. ESetupTTL d TTL_registration \<in> set pre) \<longleftrightarrow> env ''UPCLOUD_NODECLAIM_TTL'' \<noteq> ''''))"

definition starts_or_fails :: "environment \<Rightarrow> (goerror + running_operator) prog \<Rightarrow> bool" where
  "starts_or_fails env m \<longleftrightarrow> (\<forall>h. \<exists>evs. snd (run_state m h) = h @ evs \<and> start_outcome env (fst (run_state m h)) evs)"

lemma start_outcome_prefix: "start_outcome env r evs \<Longrightarrow> list_all quiet pre \<Longrightarrow> start_outcome env r (pre @ evs)"
proof (cases r)
  case (Inr ro)
  assume pre: "list_all quiet pre" and "start_outcome env r evs"
  then obtain mid where "evs = mid @ [EStart]" "EStart \<notin> set mid" "ESetupNodeClass nodeclass_registration \<in> set mid"
    "(\<exists>d. ESetupTTL d TTL_registration \<in> set mid) \<longleftrightarrow> env ''UPCLOUD_NODECLAIM_TTL'' \<noteq> ''''"
    by (auto simp: start_outcome_def Inr)
  moreover have "EStart \<notin> set pre" "\<forall>d. ESetupTTL d TTL_registration \<notin> set pre"
    using pre by (auto simp: quiet_def list_all_iff)
  ultimately show ?thesis by (simp add: start_outcome_def Inr)
qed (auto simp: start_outcome_def quiet_def list_all_iff)

lemma sof_error: "starts_or_fails env (ret (Inl e))"
  by (simp add: starts_or_fails_def start_outcome_def)

lemma sof_bind:
  assumes "emits quiet m" and "\<And>x. starts_or_fails env (f x)"
  shows "starts_or_fails env (State_Monad.bind m f)"
  unfolding starts_or_fails_def
proof
  fix h
  obtain x h' where m: "run_state m h = (x, h')" by fastforce
  obtain pre where pre: "h' = h @ pre" "list_all quiet pre" using emitsE [OF assms(1), of h] m by auto
  obtain evs where "snd (run_state (f x) h') = h' @ evs" "start_outcome env (fst (run_state (f x) h')) evs"
    using assms(2) [of x] unfolding starts_or_fails_def by blast
  then show "\<exists>evs. snd (run_state (State_Monad.bind m f) h) = h @ evs
      \<and> start_outcome env (fst (run_state (State_Monad.bind m f) h)) evs"
    using m pre start_outcome_prefix by (intro exI [of _ "pre @ evs"]) simp
qed

lemma sof_case_sum:
  "(\<And>e. x = Inl e \<Longrightarrow> starts_or_fails env (m e)) \<Longrightarrow> (\<And>y. x = Inr y \<Longrightarrow> starts_or_fails env (f y)) \<Longrightarrow>
     starts_or_fails env (case x of Inl e \<Rightarrow> m e | Inr y \<Rightarrow> f y)"
  by (cases x) simp_all

lemma sof_case_option:
  "(\<And>e. x = Some e \<Longrightarrow> starts_or_fails env (m e)) \<Longrightarrow> (x = None \<Longrightarrow> starts_or_fails env n) \<Longrightarrow>
     starts_or_fails env (case x of None \<Rightarrow> n | Some e \<Rightarrow> m e)"
  by (cases x) simp_all

lemma sof_start_controllers: "starts_or_fails env (start_controllers S env kube cp)"
  unfolding starts_or_fails_def start_outcome_def
  by (auto simp: start_controllers_def NC_SetupWithManager_def TTL_SetupWithManager_def Let_def
      split: sum.split option.split)

lemma emits_quiet_endpoint: "emits quiet (resolveClusterEndpoint S env svc uuid)"
  unfolding resolveClusterEndpoint_def by (intro emits_rules) (simp_all add: quiet_def)

lemma emits_quiet_Refresh: "emits quiet (Refresh hst p)"
  unfolding Refresh_def refreshPrices_def call_defs
  by (auto simp: quiet_def split: prod.split intro!: emits_rules)

lemma sof_run: "starts_or_fails env (run S env hst kube csrs)"
  unfolding run_def Let_def
  by (intro sof_case_sum sof_error sof_bind emits_quiet_endpoint emits_quiet_Refresh)
     (auto simp: quiet_def intro!: sof_case_option sof_error sof_start_controllers emits_call)

text \<open>
  C23. The process either starts everything or stops with status 1 and starts nothing. With status 0,
  the start of the manager is its last act, the node class controller has been registered for
  its class before it, and the TTL controller has been registered exactly where
  \<^verbatim>\<open>UPCLOUD_NODECLAIM_TTL\<close> is set. With status 1, the last act is to log the error, and the
  manager has not been started.
\<close>

theorem main_starts_or_fails:
  "\<exists>evs. snd (run_state (main bv S env hst kube csrs) h) =
       h @ ELog (LogStarting (bv_Version bv) (bv_Commit bv) (bv_TreeState bv)) # evs
     \<and> (fst (run_state (main bv S env hst kube csrs) h) = 0
          \<and> (\<exists>pre. evs = pre @ [EStart] \<and> EStart \<notin> set pre \<and> ESetupNodeClass nodeclass_registration \<in> set pre
               \<and> ((\<exists>d. ESetupTTL d TTL_registration \<in> set pre) \<longleftrightarrow> env ''UPCLOUD_NODECLAIM_TTL'' \<noteq> ''''))
        \<or> fst (run_state (main bv S env hst kube csrs) h) = 1
          \<and> (\<exists>pre e. evs = pre @ [ELog (LogFailed e)] \<and> EStart \<notin> set pre))"
proof -
  let ?l = "ELog (LogStarting (bv_Version bv) (bv_Commit bv) (bv_TreeState bv))"
  obtain evs where evs: "snd (run_state (run S env hst kube csrs) (h @ [?l])) = (h @ [?l]) @ evs"
    and out: "start_outcome env (fst (run_state (run S env hst kube csrs) (h @ [?l]))) evs"
    using sof_run unfolding starts_or_fails_def by blast
  obtain r where r: "run_state (run S env hst kube csrs) (h @ [?l]) = (r, h @ ?l # evs)"
    using evs by (metis append.assoc append_Cons append_Nil prod.collapse)
  show ?thesis using out r by (cases r) (auto simp: main_def start_outcome_def)
qed

end
