(* ===== verification/DeepCopy_Heap.thy ===== *)
theory DeepCopy_Heap
  imports NodeClass_Api "HOL-Library.Sublist"
begin

text \<open>
  The copying functions of \<^verbatim>\<open>apis/v1alpha2/zz_generated.deepcopy.go\<close>. Their purpose is
  that a copy shares no memory with its original, which a model of values cannot express: here
  the memory is explicit. A store is a list of cells, an address is an index into it, \<open>alloc\<close>
  appends a cell, and a pointer, slice or map of Go is an optional address (\<open>None\<close> is nil). A
  slice is the address of a cell with all of its elements. \<^verbatim>\<open>make\<close> or \<^verbatim>\<open>new\<close> and the
  statements that fill what they made are one \<open>alloc\<close> of the filled cell: the order in which Go
  allocates is not observable.

  A method \<^verbatim>\<open>in.DeepCopyInto(out)\<close> is the function from the struct at \<open>in\<close> to the
  struct that \<open>out\<close> then holds; every caller in the file passes an \<open>out\<close> other than \<open>in\<close>. The
  copying methods of the imported structs \<^verbatim>\<open>ObjectMeta\<close>, \<^verbatim>\<open>ListMeta\<close> and
  \<^verbatim>\<open>Condition\<close> are the parameter \<open>meta_lib\<close>; the memory of a metadata struct is one cell. What
  is relied on is the named hypothesis \<open>deep_meta\<close>: they copy, into new memory.

  The locale \<open>deep_copier\<close> is the contract of such a method, with the lemmas its users want;
  it is interpreted for the four methods. What a struct owns leaves out, for a specification,
  its \<^verbatim>\<open>Storage\<close>: that pointer the code does not follow.
\<close>

section \<open>Memory\<close>

type_synonym ref = nat

record ListMeta =
  lm_ResourceVersion :: string
  lm_Continue :: string
  lm_RemainingItemCount :: "int64 option"

record StorageSpec_mem =
  hst_Size :: int64
  hst_Tier :: string
  hst_Encrypted :: "ref option"

record Spec_mem =
  hs_Zone :: string
  hs_Plan :: string
  hs_Storage :: "ref option"
  hs_SSHKeys :: "ref option"
  hs_KubeletArgs :: "ref option"
  hs_Labels :: "ref option"
  hs_Taints :: "ref option"
  hs_ServerGroupUUID :: string
  hs_UtilityNetworkAccess :: "ref option"

record Status_mem =
  ht_Conditions :: "ref option"
  ht_Hash :: string

record NodeClass_mem =
  hc_Kind :: string
  hc_APIVersion :: string
  hc_ObjectMeta :: ref
  hc_Spec :: Spec_mem
  hc_Status :: Status_mem

record List_mem =
  hl_Kind :: string
  hl_APIVersion :: string
  hl_ListMeta :: ref
  hl_Items :: "ref option"

datatype cell =
    CStrings (as_strings: "string list")
  | CArgs (as_args: "KubeletArg list")
  | CMap (as_map: "(string \<times> string) list")
  | CTaints (as_taints: "KubernetesTaint list")
  | CConditions (as_conditions: "Condition list")
  | CBool (as_bool: bool)
  | CStorage (as_storage: StorageSpec_mem)
  | CMeta (as_meta: ObjectMeta)
  | CListMeta (as_listmeta: ListMeta)
  | CClasses (as_classes: "NodeClass_mem list")
  | CSpec (as_spec: Spec_mem)
  | CStatus (as_status: Status_mem)
  | CClass (as_class: NodeClass_mem)
  | CList (as_list: List_mem)

type_synonym store = "cell list"

definition alloc :: "cell \<Rightarrow> store \<Rightarrow> ref \<times> store" where
  "alloc c s = (length s, s @ [c])"

definition copy_ref :: "(cell \<Rightarrow> cell) \<Rightarrow> ref option \<Rightarrow> store \<Rightarrow> ref option \<times> store" where
  "copy_ref f r s =
     (case r of None \<Rightarrow> (None, s)
      | Some a \<Rightarrow> (let (b, s') = alloc (f (s ! a)) s in (Some b, s')))"

record meta_lib =
  ml_ObjectMeta :: "ref \<Rightarrow> store \<Rightarrow> ref \<times> store"
  ml_ListMeta :: "ref \<Rightarrow> store \<Rightarrow> ref \<times> store"
  ml_Condition :: "Condition \<Rightarrow> Condition"

section \<open>Definitions\<close>

definition Spec_DeepCopyInto :: "Spec_mem \<Rightarrow> store \<Rightarrow> Spec_mem \<times> store" where
  "Spec_DeepCopyInto i s0 =
     (let out = i;
          (ssh, s1) = copy_ref (\<lambda>c. CStrings (as_strings c)) (hs_SSHKeys i) s0;
          (args, s2) = copy_ref (\<lambda>c. CArgs (as_args c)) (hs_KubeletArgs i) s1;
          (lbl, s3) = copy_ref (\<lambda>c. CMap (fold (\<lambda>(key, v) m. AList.update key v m) (as_map c) [])) (hs_Labels i) s2;
          (tnt, s4) = copy_ref (\<lambda>c. CTaints (as_taints c)) (hs_Taints i) s3;
          (una, s5) = copy_ref (\<lambda>c. CBool (as_bool c)) (hs_UtilityNetworkAccess i) s4
      in (out\<lparr>hs_SSHKeys := ssh, hs_KubeletArgs := args, hs_Labels := lbl, hs_Taints := tnt,
              hs_UtilityNetworkAccess := una\<rparr>, s5))"

definition Status_DeepCopyInto :: "meta_lib \<Rightarrow> Status_mem \<Rightarrow> store \<Rightarrow> Status_mem \<times> store" where
  "Status_DeepCopyInto L i s0 =
     (let out = i;
          (cs, s1) = copy_ref (\<lambda>c. CConditions (map (ml_Condition L) (as_conditions c))) (ht_Conditions i) s0
      in (out\<lparr>ht_Conditions := cs\<rparr>, s1))"

definition NodeClass_DeepCopyInto :: "meta_lib \<Rightarrow> NodeClass_mem \<Rightarrow> store \<Rightarrow> NodeClass_mem \<times> store" where
  "NodeClass_DeepCopyInto L i s0 =
     (let out = i;
          (m, s1) = ml_ObjectMeta L (hc_ObjectMeta i) s0;
          (sp, s2) = Spec_DeepCopyInto (hc_Spec i) s1;
          (st, s3) = Status_DeepCopyInto L (hc_Status i) s2
      in (out\<lparr>hc_ObjectMeta := m, hc_Spec := sp, hc_Status := st\<rparr>, s3))"

primrec copy_items :: "meta_lib \<Rightarrow> NodeClass_mem list \<Rightarrow> store \<Rightarrow> NodeClass_mem list \<times> store" where
  "copy_items L [] s = ([], s)"
| "copy_items L (x # xs) s =
     (let (y, s1) = NodeClass_DeepCopyInto L x s; (ys, s2) = copy_items L xs s1 in (y # ys, s2))"

definition List_DeepCopyInto :: "meta_lib \<Rightarrow> List_mem \<Rightarrow> store \<Rightarrow> List_mem \<times> store" where
  "List_DeepCopyInto L i s0 =
     (let out = i;
          (m, s1) = ml_ListMeta L (hl_ListMeta i) s0;
          out = out\<lparr>hl_ListMeta := m\<rparr>
      in case hl_Items i of
           None \<Rightarrow> (out, s1)
         | Some a \<Rightarrow>
             (let (ys, s2) = copy_items L (as_classes (s1 ! a)) s1; (b, s3) = alloc (CClasses ys) s2
              in (out\<lparr>hl_Items := Some b\<rparr>, s3)))"

text \<open>\<^verbatim>\<open>DeepCopy\<close> and \<^verbatim>\<open>DeepCopyObject\<close> on pointers, nil included.\<close>

definition Spec_DeepCopy :: "ref option \<Rightarrow> store \<Rightarrow> ref option \<times> store" where
  "Spec_DeepCopy i s =
     (case i of None \<Rightarrow> (None, s)
      | Some p \<Rightarrow> (let (out, s1) = Spec_DeepCopyInto (as_spec (s ! p)) s; (q, s2) = alloc (CSpec out) s1 in (Some q, s2)))"

definition Status_DeepCopy :: "meta_lib \<Rightarrow> ref option \<Rightarrow> store \<Rightarrow> ref option \<times> store" where
  "Status_DeepCopy L i s =
     (case i of None \<Rightarrow> (None, s)
      | Some p \<Rightarrow> (let (out, s1) = Status_DeepCopyInto L (as_status (s ! p)) s; (q, s2) = alloc (CStatus out) s1 in (Some q, s2)))"

definition NodeClass_DeepCopy :: "meta_lib \<Rightarrow> ref option \<Rightarrow> store \<Rightarrow> ref option \<times> store" where
  "NodeClass_DeepCopy L i s =
     (case i of None \<Rightarrow> (None, s)
      | Some p \<Rightarrow> (let (out, s1) = NodeClass_DeepCopyInto L (as_class (s ! p)) s; (q, s2) = alloc (CClass out) s1 in (Some q, s2)))"

definition List_DeepCopy :: "meta_lib \<Rightarrow> ref option \<Rightarrow> store \<Rightarrow> ref option \<times> store" where
  "List_DeepCopy L i s =
     (case i of None \<Rightarrow> (None, s)
      | Some p \<Rightarrow> (let (out, s1) = List_DeepCopyInto L (as_list (s ! p)) s; (q, s2) = alloc (CList out) s1 in (Some q, s2)))"

definition NodeClass_DeepCopyObject :: "meta_lib \<Rightarrow> ref option \<Rightarrow> store \<Rightarrow> ref option \<times> store" where
  "NodeClass_DeepCopyObject L i s =
     (let (c, s1) = NodeClass_DeepCopy L i s in case c of Some q \<Rightarrow> (Some q, s1) | None \<Rightarrow> (None, s1))"

definition List_DeepCopyObject :: "meta_lib \<Rightarrow> ref option \<Rightarrow> store \<Rightarrow> ref option \<times> store" where
  "List_DeepCopyObject L i s =
     (let (c, s1) = List_DeepCopy L i s in case c of Some q \<Rightarrow> (Some q, s1) | None \<Rightarrow> (None, s1))"

section \<open>What a struct in memory means\<close>

text \<open>The value a struct has in a store, in the types of \<open>NodeClass_Api\<close>.\<close>

definition read_opt :: "(cell \<Rightarrow> 'a) \<Rightarrow> ref option \<Rightarrow> store \<Rightarrow> 'a option" where
  "read_opt f r s = map_option (\<lambda>a. f (s ! a)) r"

definition storage_val :: "StorageSpec_mem \<Rightarrow> store \<Rightarrow> StorageSpec" where
  "storage_val x s = \<lparr>st_Size = hst_Size x, st_Tier = hst_Tier x, st_Encrypted = read_opt as_bool (hst_Encrypted x) s\<rparr>"

definition spec_val :: "Spec_mem \<Rightarrow> store \<Rightarrow> UpCloudNodeClassSpec" where
  "spec_val x s =
     \<lparr>spec_Zone = hs_Zone x, spec_Plan = hs_Plan x,
      spec_Storage = read_opt (\<lambda>c. storage_val (as_storage c) s) (hs_Storage x) s,
      spec_SSHKeys = read_opt as_strings (hs_SSHKeys x) s,
      spec_KubeletArgs = read_opt as_args (hs_KubeletArgs x) s,
      spec_Labels = read_opt as_map (hs_Labels x) s,
      spec_Taints = read_opt as_taints (hs_Taints x) s,
      spec_ServerGroupUUID = hs_ServerGroupUUID x,
      spec_UtilityNetworkAccess = read_opt as_bool (hs_UtilityNetworkAccess x) s\<rparr>"

definition status_val :: "Status_mem \<Rightarrow> store \<Rightarrow> Condition list option \<times> string" where
  "status_val x s = (read_opt as_conditions (ht_Conditions x) s, ht_Hash x)"

definition class_val :: "NodeClass_mem \<Rightarrow> store \<Rightarrow>
    (string \<times> string) \<times> ObjectMeta \<times> UpCloudNodeClassSpec \<times> Condition list option \<times> string" where
  "class_val x s =
     ((hc_Kind x, hc_APIVersion x), as_meta (s ! hc_ObjectMeta x), spec_val (hc_Spec x) s, status_val (hc_Status x) s)"

definition list_val :: "List_mem \<Rightarrow> store \<Rightarrow> _" where
  "list_val x s =
     ((hl_Kind x, hl_APIVersion x), as_listmeta (s ! hl_ListMeta x),
      read_opt (\<lambda>c. map (\<lambda>y. class_val y s) (as_classes c)) (hl_Items x) s)"

text \<open>The addresses a struct owns (its \<^verbatim>\<open>Storage\<close> left out), and those that its value depends on.\<close>

definition spec_own :: "Spec_mem \<Rightarrow> store \<Rightarrow> ref set" where
  "spec_own x s = set_option (hs_SSHKeys x) \<union> set_option (hs_KubeletArgs x) \<union> set_option (hs_Labels x)
     \<union> set_option (hs_Taints x) \<union> set_option (hs_UtilityNetworkAccess x)"

definition storage_refs :: "Spec_mem \<Rightarrow> store \<Rightarrow> ref set" where
  "storage_refs x s =
     (case hs_Storage x of None \<Rightarrow> {} | Some a \<Rightarrow> insert a (set_option (hst_Encrypted (as_storage (s ! a)))))"

definition spec_reach :: "Spec_mem \<Rightarrow> store \<Rightarrow> ref set" where
  "spec_reach x s = spec_own x s \<union> storage_refs x s"

definition status_own :: "Status_mem \<Rightarrow> store \<Rightarrow> ref set" where
  "status_own x s = set_option (ht_Conditions x)"

definition class_own :: "NodeClass_mem \<Rightarrow> store \<Rightarrow> ref set" where
  "class_own x s = insert (hc_ObjectMeta x) (spec_own (hc_Spec x) s \<union> status_own (hc_Status x) s)"

definition class_reach :: "NodeClass_mem \<Rightarrow> store \<Rightarrow> ref set" where
  "class_reach x s = class_own x s \<union> storage_refs (hc_Spec x) s"

definition list_refs :: "(NodeClass_mem \<Rightarrow> store \<Rightarrow> ref set) \<Rightarrow> List_mem \<Rightarrow> store \<Rightarrow> ref set" where
  "list_refs f x s =
     insert (hl_ListMeta x)
       (case hl_Items x of None \<Rightarrow> {} | Some a \<Rightarrow> insert a (\<Union>y \<in> set (as_classes (s ! a)). f y s))"

text \<open>No dangling pointers, and no key twice in a map.\<close>

definition distinct_keys :: "ref option \<Rightarrow> store \<Rightarrow> bool" where
  "distinct_keys r s = (case read_opt as_map r s of None \<Rightarrow> True | Some al \<Rightarrow> distinct (map fst al))"

definition spec_wf :: "Spec_mem \<Rightarrow> store \<Rightarrow> bool" where
  "spec_wf x s \<longleftrightarrow> spec_reach x s \<subseteq> {..<length s}
     \<and> distinct_keys (hs_Labels x) s"

definition status_wf :: "Status_mem \<Rightarrow> store \<Rightarrow> bool" where
  "status_wf x s \<longleftrightarrow> status_own x s \<subseteq> {..<length s}"

definition class_wf :: "NodeClass_mem \<Rightarrow> store \<Rightarrow> bool" where
  "class_wf x s \<longleftrightarrow> hc_ObjectMeta x < length s \<and> spec_wf (hc_Spec x) s \<and> status_wf (hc_Status x) s"

definition list_wf :: "List_mem \<Rightarrow> store \<Rightarrow> bool" where
  "list_wf x s \<longleftrightarrow> hl_ListMeta x < length s
     \<and> (case hl_Items x of None \<Rightarrow> True | Some a \<Rightarrow> a < length s \<and> (\<forall>y \<in> set (as_classes (s ! a)). class_wf y s))"

definition deep_meta :: "meta_lib \<Rightarrow> bool" where
  "deep_meta L \<longleftrightarrow>
     (\<forall>m s. m < length s \<longrightarrow>
        (let (m', s') = ml_ObjectMeta L m s in
         prefix s s' \<and> length s \<le> m' \<and> m' < length s' \<and> as_meta (s' ! m') = as_meta (s ! m)))
   \<and> (\<forall>m s. m < length s \<longrightarrow>
        (let (m', s') = ml_ListMeta L m s in
         prefix s s' \<and> length s \<le> m' \<and> m' < length s' \<and> as_listmeta (s' ! m') = as_listmeta (s ! m)))
   \<and> (\<forall>c. ml_Condition L c = c)"

section \<open>The contract of a copying method\<close>

lemma prefix_nth: "prefix s s' \<Longrightarrow> r < length s \<Longrightarrow> s' ! r = s ! r"
  by (auto simp: prefix_def nth_append)

locale deep_copier =
  fixes into :: "meta_lib \<Rightarrow> 'a \<Rightarrow> store \<Rightarrow> 'a \<times> store"
    and wf :: "'a \<Rightarrow> store \<Rightarrow> bool"
    and val :: "'a \<Rightarrow> store \<Rightarrow> 'v"
    and own :: "'a \<Rightarrow> store \<Rightarrow> ref set"
    and reach :: "'a \<Rightarrow> store \<Rightarrow> ref set"
  assumes in_memory: "wf x s \<Longrightarrow> reach x s \<subseteq> {..<length s}"
    and depends: "\<forall>r \<in> reach x s. s' ! r = s ! r \<Longrightarrow> val x s' = val x s"
    and copies: "deep_meta L \<Longrightarrow> wf x s \<Longrightarrow> into L x s = (y, s') \<Longrightarrow>
      prefix s s' \<and> wf y s' \<and> val y s' = val x s \<and> own y s' \<subseteq> {length s..<length s'}"
begin

lemma survives: "wf x s \<Longrightarrow> prefix s s' \<Longrightarrow> val x s' = val x s"
  using in_memory [of x s] by (intro depends) (auto simp: subset_iff prefix_nth)

lemma copy_equal:
  "deep_meta L \<Longrightarrow> wf x s \<Longrightarrow> into L x s = (y, s') \<Longrightarrow> val y s' = val x s \<and> val x s' = val x s"
  using copies survives by blast

lemma own_write_isolated:
  assumes "deep_meta L" and "wf x s" and "into L x s = (y, s')" and "r \<in> own y s'"
  shows "val x (s'[r := c]) = val x s"
proof (rule depends, rule ballI)
  fix q assume "q \<in> reach x s"
  then have "q < length s" using in_memory assms(2) by blast
  moreover have "prefix s s'" and "length s \<le> r" using copies [OF assms(1-3)] assms(4) by auto
  ultimately show "s'[r := c] ! q = s ! q" by (auto simp: prefix_def nth_append)
qed

lemma original_write_isolated:
  assumes "deep_meta L" and "wf x s" and "into L x s = (y, s')" and "r \<notin> reach y s'"
  shows "val y (s'[r := c]) = val x s"
  using depends [of y s' "s'[r := c]"] copies [OF assms(1-3)] assms(4) by (metis nth_list_update_neq)

end

section \<open>The four methods satisfy it\<close>

lemma fresh_mono: "A \<subseteq> {length s..<length s'} \<Longrightarrow> prefix s0 s \<Longrightarrow> prefix s' t \<Longrightarrow> A \<subseteq> {length s0..<length t}"
  by (auto dest!: prefix_length_le)

lemma old_mono: "A \<subseteq> {..<length s} \<Longrightarrow> prefix s t \<Longrightarrow> A \<subseteq> {..<length t}"
  by (auto dest!: prefix_length_le)

lemma copy_ref_grows:
  assumes "copy_ref f r s = (r', s')"
  shows "prefix s s'" and "set_option r' \<subseteq> {length s..<length s'}"
  using assms by (auto simp: copy_ref_def alloc_def split: option.splits)

lemma copy_ref_reads:
  assumes "copy_ref f r s = (r', s')" and "prefix s0 s" and "set_option r \<subseteq> {..<length s0}" and "prefix s' t"
    and "\<And>a. r = Some a \<Longrightarrow> g (f (s0 ! a)) = g (s0 ! a)"
  shows "read_opt g r' t = read_opt g r s0"
proof (cases r)
  case None
  then show ?thesis using assms(1) by (simp add: copy_ref_def read_opt_def)
next
  case (Some a)
  then have r': "r' = Some (length s)" "s' = s @ [f (s ! a)]" using assms(1) by (simp_all add: copy_ref_def alloc_def)
  have "s ! a = s0 ! a" using assms(2,3) Some by (simp add: prefix_nth)
  moreover have "t ! length s = f (s ! a)" using assms(4) r' by (simp add: prefix_nth)
  ultimately show ?thesis using assms(5) Some r' by (simp add: read_opt_def)
qed

lemma fold_update_distinct:
  "distinct (map fst (ys @ xs)) \<Longrightarrow> fold (\<lambda>(key, v) m. AList.update key v m) xs ys = ys @ xs"
proof (induction xs arbitrary: ys)
  case (Cons x xs)
  obtain k v where x: "x = (k, v)" by fastforce
  have "AList.update k v ys = ys @ [(k, v)]" if "k \<notin> fst ` set ys"
    using that by (induction ys) auto
  then show ?case using Cons x by auto
qed simp

lemma storage_val_cong:
  "\<forall>r \<in> set_option (hst_Encrypted x). s' ! r = s ! r \<Longrightarrow> storage_val x s' = storage_val x s"
  by (cases "hst_Encrypted x") (auto simp: storage_val_def read_opt_def)

lemma read_opt_cong: "\<forall>r \<in> set_option x. s' ! r = s ! r \<Longrightarrow> read_opt f x s' = read_opt f x s"
  by (cases x) (auto simp: read_opt_def)

lemma spec_storage_cong:
  assumes "\<forall>r \<in> storage_refs x s. s' ! r = s ! r"
  shows "read_opt (\<lambda>c. storage_val (as_storage c) s') (hs_Storage x) s' = read_opt (\<lambda>c. storage_val (as_storage c) s) (hs_Storage x) s"
  using assms by (cases "hs_Storage x") (auto simp: storage_refs_def read_opt_def intro!: storage_val_cong)

lemma spec_depends: "\<forall>r \<in> spec_reach x s. s' ! r = s ! r \<Longrightarrow> spec_val x s' = spec_val x s"
  using spec_storage_cong [of x s s']
  by (simp add: spec_val_def spec_reach_def spec_own_def ball_Un read_opt_cong)

lemma status_depends: "\<forall>r \<in> status_own x s. s' ! r = s ! r \<Longrightarrow> status_val x s' = status_val x s"
  by (simp add: status_val_def status_own_def read_opt_cong)

lemma storage_refs_keep:
  assumes "storage_refs x s \<subseteq> {..<length s}" and "prefix s s'" and "hs_Storage y = hs_Storage x"
  shows "storage_refs y s' = storage_refs x s"
  using assms by (auto simp: storage_refs_def prefix_nth split: option.splits)

lemma distinct_keys_cong: "read_opt as_map r s = read_opt as_map r' s' \<Longrightarrow> distinct_keys r s = distinct_keys r' s'"
  by (simp add: distinct_keys_def)

lemma spec_copies:
  assumes wf: "spec_wf x s" and into: "Spec_DeepCopyInto x s = (y, s')"
  shows "prefix s s' \<and> spec_wf y s' \<and> spec_val y s' = spec_val x s \<and> spec_own y s' \<subseteq> {length s..<length s'}
    \<and> hs_Storage y = hs_Storage x"
proof -
  obtain ssh s1 where c1: "copy_ref (\<lambda>c. CStrings (as_strings c)) (hs_SSHKeys x) s = (ssh, s1)" by fastforce
  obtain args s2 where c2: "copy_ref (\<lambda>c. CArgs (as_args c)) (hs_KubeletArgs x) s1 = (args, s2)" by fastforce
  let ?m = "\<lambda>c. CMap (fold (\<lambda>(key, v) m. AList.update key v m) (as_map c) [])"
  obtain lbl s3 where c3: "copy_ref ?m (hs_Labels x) s2 = (lbl, s3)" by fastforce
  obtain tnt s4 where c4: "copy_ref (\<lambda>c. CTaints (as_taints c)) (hs_Taints x) s3 = (tnt, s4)" by fastforce
  obtain una s5 where c5: "copy_ref (\<lambda>c. CBool (as_bool c)) (hs_UtilityNetworkAccess x) s4 = (una, s5)" by fastforce
  have y: "y = x\<lparr>hs_SSHKeys := ssh, hs_KubeletArgs := args, hs_Labels := lbl, hs_Taints := tnt, hs_UtilityNetworkAccess := una\<rparr>"
    and s5: "s' = s5"
    using into c1 c2 c3 c4 c5 by (simp_all add: Spec_DeepCopyInto_def Let_def)
  note p = copy_ref_grows(1) [OF c1] copy_ref_grows(1) [OF c2] copy_ref_grows(1) [OF c3] copy_ref_grows(1) [OF c4]
    copy_ref_grows(1) [OF c5]
  have ps: "prefix s s2" "prefix s s3" "prefix s s4" "prefix s s5" "prefix s1 s5" "prefix s2 s5" "prefix s3 s5" "prefix s4 s5"
    using p by (meson prefix_order.trans)+
  have reach: "spec_reach x s \<subseteq> {..<length s}" using wf by (simp add: spec_wf_def)
  then have old: "set_option (hs_SSHKeys x) \<subseteq> {..<length s}" "set_option (hs_KubeletArgs x) \<subseteq> {..<length s}"
    "set_option (hs_Labels x) \<subseteq> {..<length s}" "set_option (hs_Taints x) \<subseteq> {..<length s}"
    "set_option (hs_UtilityNetworkAccess x) \<subseteq> {..<length s}" "storage_refs x s \<subseteq> {..<length s}"
    by (auto simp: spec_reach_def spec_own_def)
  have keys: "fold (\<lambda>(key, v) m. AList.update key v m) (as_map (s ! a)) [] = as_map (s ! a)" if "hs_Labels x = Some a" for a
    using wf that by (simp add: spec_wf_def distinct_keys_def read_opt_def fold_update_distinct [of "[]", simplified])
  have reads: "read_opt as_strings ssh s5 = read_opt as_strings (hs_SSHKeys x) s"
    "read_opt as_args args s5 = read_opt as_args (hs_KubeletArgs x) s"
    "read_opt as_map lbl s5 = read_opt as_map (hs_Labels x) s"
    "read_opt as_taints tnt s5 = read_opt as_taints (hs_Taints x) s"
    "read_opt as_bool una s5 = read_opt as_bool (hs_UtilityNetworkAccess x) s"
    by (simp_all add: copy_ref_reads [OF c1 prefix_order.refl old(1)] copy_ref_reads [OF c2 p(1) old(2)]
        copy_ref_reads [OF c3 ps(1) old(3)] copy_ref_reads [OF c4 ps(2) old(4)] copy_ref_reads [OF c5 ps(3) old(5)] ps keys)
  have st: "storage_refs y s5 = storage_refs x s" using storage_refs_keep [OF old(6) ps(4), of y] y by simp
  have own: "spec_own y s5 \<subseteq> {length s..<length s5}"
    using fresh_mono [OF copy_ref_grows(2) [OF c1]] fresh_mono [OF copy_ref_grows(2) [OF c2]]
      fresh_mono [OF copy_ref_grows(2) [OF c3]] fresh_mono [OF copy_ref_grows(2) [OF c4]]
      fresh_mono [OF copy_ref_grows(2) [OF c5]] p ps y
    by (simp add: spec_own_def)
  have "spec_val y s5 = spec_val x s"
    using reads y spec_storage_cong [of x s s5] old(6) ps(4) by (auto simp: spec_val_def prefix_nth subset_iff)
  moreover have "distinct_keys lbl s5" using distinct_keys_cong [OF reads(3)] wf by (simp add: spec_wf_def)
  moreover have "spec_reach y s5 \<subseteq> {..<length s5}"
    using own st old_mono [OF old(6) ps(4)] by (auto simp: spec_reach_def)
  ultimately show ?thesis
    using s5 ps(4) own y by (simp add: spec_wf_def)
qed

interpretation specs: deep_copier "\<lambda>L. Spec_DeepCopyInto" spec_wf spec_val spec_own spec_reach
proof unfold_locales
  fix x s assume "spec_wf x s"
  then show "spec_reach x s \<subseteq> {..<length s}" by (simp add: spec_wf_def)
next
  fix x s s' assume "\<forall>r \<in> spec_reach x s. s' ! r = s ! r"
  then show "spec_val x s' = spec_val x s" by (rule spec_depends)
next
  fix x s y s' assume "spec_wf x s" "Spec_DeepCopyInto x s = (y, s')"
  from spec_copies [OF this] show "prefix s s' \<and> spec_wf y s' \<and> spec_val y s' = spec_val x s
    \<and> spec_own y s' \<subseteq> {length s..<length s'}" by blast
qed

lemma deep_meta_object:
  assumes "deep_meta L" and "m < length s" and "ml_ObjectMeta L m s = (m', s')"
  shows "prefix s s'" and "length s \<le> m'" and "m' < length s'" and "as_meta (s' ! m') = as_meta (s ! m)"
  using assms(1) [unfolded deep_meta_def, THEN conjunct1, rule_format, OF assms(2)] assms(3) by simp_all

lemma deep_meta_list:
  assumes "deep_meta L" and "m < length s" and "ml_ListMeta L m s = (m', s')"
  shows "prefix s s'" and "length s \<le> m'" and "m' < length s'" and "as_listmeta (s' ! m') = as_listmeta (s ! m)"
  using assms(1) [unfolded deep_meta_def, THEN conjunct2, THEN conjunct1, rule_format, OF assms(2)] assms(3) by simp_all

lemma status_copies:
  assumes L: "deep_meta L" and wf: "status_wf x s" and into: "Status_DeepCopyInto L x s = (y, s')"
  shows "prefix s s' \<and> status_wf y s' \<and> status_val y s' = status_val x s \<and> status_own y s' \<subseteq> {length s..<length s'}"
proof -
  let ?f = "\<lambda>c. CConditions (map (ml_Condition L) (as_conditions c))"
  obtain cs s1 where c: "copy_ref ?f (ht_Conditions x) s = (cs, s1)" by fastforce
  have y: "y = x\<lparr>ht_Conditions := cs\<rparr>" "s' = s1" using into c by (simp_all add: Status_DeepCopyInto_def)
  have "ml_Condition L = (\<lambda>c. c)" using L by (auto simp: deep_meta_def)
  then have "read_opt as_conditions cs s1 = read_opt as_conditions (ht_Conditions x) s"
    using wf by (intro copy_ref_reads [OF c]) (auto simp: status_wf_def status_own_def)
  then show ?thesis using copy_ref_grows [OF c] y by (auto simp: status_wf_def status_own_def status_val_def)
qed

interpretation statuses: deep_copier Status_DeepCopyInto status_wf status_val status_own status_own
proof unfold_locales
  fix x s assume "status_wf x s"
  then show "status_own x s \<subseteq> {..<length s}" by (simp add: status_wf_def)
next
  fix x s s' assume "\<forall>r \<in> status_own x s. s' ! r = s ! r"
  then show "status_val x s' = status_val x s" by (rule status_depends)
next
  fix L x s y s' assume "deep_meta L" "status_wf x s" "Status_DeepCopyInto L x s = (y, s')"
  from status_copies [OF this] show "prefix s s' \<and> status_wf y s' \<and> status_val y s' = status_val x s
    \<and> status_own y s' \<subseteq> {length s..<length s'}" .
qed

lemma spec_wf_mono: "spec_wf x s \<Longrightarrow> prefix s s' \<Longrightarrow> spec_wf x s'"
  using storage_refs_keep [of x s s' x] old_mono [of "spec_reach x s" s s'] distinct_keys_cong [OF read_opt_cong, of "hs_Labels x" s' s]
  by (auto simp: spec_wf_def spec_reach_def spec_own_def prefix_nth subset_iff)

lemma status_wf_mono: "status_wf x s \<Longrightarrow> prefix s s' \<Longrightarrow> status_wf x s'"
  using old_mono [of "status_own x s" s s'] by (simp add: status_wf_def status_own_def)

lemma class_wf_mono: "class_wf x s \<Longrightarrow> prefix s s' \<Longrightarrow> class_wf x s'"
  using spec_wf_mono status_wf_mono by (auto simp: class_wf_def dest: prefix_length_le)

lemma class_depends: "\<forall>r \<in> class_reach x s. s' ! r = s ! r \<Longrightarrow> class_val x s' = class_val x s"
  using spec_depends [of "hc_Spec x" s s'] status_depends [of "hc_Status x" s s']
  by (simp add: class_val_def class_reach_def class_own_def spec_reach_def ball_Un)

lemma class_in_memory: "class_wf x s \<Longrightarrow> class_reach x s \<subseteq> {..<length s}"
  by (auto simp: class_wf_def class_reach_def class_own_def spec_wf_def spec_reach_def status_wf_def)

lemma class_copies:
  assumes L: "deep_meta L" and wf: "class_wf x s" and into: "NodeClass_DeepCopyInto L x s = (y, s')"
  shows "prefix s s' \<and> class_wf y s' \<and> class_val y s' = class_val x s \<and> class_own y s' \<subseteq> {length s..<length s'}
    \<and> hs_Storage (hc_Spec y) = hs_Storage (hc_Spec x)"
proof -
  obtain m s1 where m: "ml_ObjectMeta L (hc_ObjectMeta x) s = (m, s1)" by fastforce
  obtain sp s2 where sp: "Spec_DeepCopyInto (hc_Spec x) s1 = (sp, s2)" by fastforce
  obtain st s3 where st: "Status_DeepCopyInto L (hc_Status x) s2 = (st, s3)" by fastforce
  have y: "y = x\<lparr>hc_ObjectMeta := m, hc_Spec := sp, hc_Status := st\<rparr>" "s' = s3"
    using into m sp st by (simp_all add: NodeClass_DeepCopyInto_def)
  have wfs: "hc_ObjectMeta x < length s" "spec_wf (hc_Spec x) s" "status_wf (hc_Status x) s"
    using wf by (simp_all add: class_wf_def)
  note M = deep_meta_object [OF L wfs(1) m]
  note S = spec_copies [OF spec_wf_mono [OF wfs(2) M(1)] sp]
  have p2: "prefix s s2" using M(1) S by (meson prefix_order.trans)
  note T = status_copies [OF L status_wf_mono [OF wfs(3) p2] st]
  have p3: "prefix s s3" "prefix s1 s3" "prefix s2 s3" using p2 S T by (meson prefix_order.trans)+
  have "as_meta (s3 ! m) = as_meta (s ! hc_ObjectMeta x)" using M p3(2) by (simp add: prefix_nth)
  moreover have "spec_val sp s3 = spec_val (hc_Spec x) s"
    using S specs.survives [of sp s2 s3] specs.survives [OF wfs(2) M(1)] p3(3) by simp
  moreover have "status_val st s3 = status_val (hc_Status x) s"
    using T statuses.survives [OF wfs(3) p2] by simp
  ultimately have "class_val y s3 = class_val x s" using y by (simp add: class_val_def)
  moreover have "class_wf y s3"
    using y M(3) S T spec_wf_mono [of sp s2 s3] p3 by (auto simp: class_wf_def dest!: prefix_length_le)
  moreover have "spec_own sp s3 \<subseteq> {length s..<length s3}" "status_own st s3 \<subseteq> {length s..<length s3}"
    using fresh_mono [of "spec_own sp s2" s1 s2 s s3] fresh_mono [of "status_own st s3" s2 s3 s s3] S T M(1) p2 p3
    by (simp_all add: spec_own_def)
  ultimately show ?thesis using y p3 M S by (auto simp: class_own_def dest!: prefix_length_le)
qed

interpretation classes: deep_copier NodeClass_DeepCopyInto class_wf class_val class_own class_reach
proof unfold_locales
  fix L x s y s' assume "deep_meta L" "class_wf x s" "NodeClass_DeepCopyInto L x s = (y, s')"
  from class_copies [OF this] show "prefix s s' \<and> class_wf y s' \<and> class_val y s' = class_val x s
    \<and> class_own y s' \<subseteq> {length s..<length s'}" by blast
qed (fact class_in_memory class_depends)+

lemma items_copy:
  assumes L: "deep_meta L"
  shows "\<forall>x \<in> set xs. class_wf x s \<Longrightarrow> copy_items L xs s = (ys, s') \<Longrightarrow>
    prefix s s' \<and> (\<forall>y \<in> set ys. class_wf y s' \<and> class_own y s' \<subseteq> {length s..<length s'})
    \<and> map (\<lambda>y. class_val y s') ys = map (\<lambda>x. class_val x s) xs
    \<and> map (\<lambda>y. hs_Storage (hc_Spec y)) ys = map (\<lambda>x. hs_Storage (hc_Spec x)) xs"
proof (induction xs arbitrary: s ys)
  case (Cons x xs)
  obtain y s1 where y: "NodeClass_DeepCopyInto L x s = (y, s1)" by fastforce
  obtain zs s2 where zs: "copy_items L xs s1 = (zs, s2)" by fastforce
  have ys: "ys = y # zs" "s2 = s'" using Cons.prems(2) y zs by simp_all
  have wfx: "class_wf x s" using Cons.prems(1) by simp
  note X = class_copies [OF L wfx y]
  have wfs: "\<forall>x \<in> set xs. class_wf x s1" using Cons.prems(1) X class_wf_mono by auto
  note R = Cons.IH [OF wfs, of zs] zs
  then have R: "prefix s1 s'" "\<forall>y \<in> set zs. class_wf y s' \<and> class_own y s' \<subseteq> {length s1..<length s'}"
    "map (\<lambda>y. class_val y s') zs = map (\<lambda>x. class_val x s1) xs"
    "map (\<lambda>y. hs_Storage (hc_Spec y)) zs = map (\<lambda>x. hs_Storage (hc_Spec x)) xs"
    using ys by simp_all
  have same: "map (\<lambda>x. class_val x s1) xs = map (\<lambda>x. class_val x s) xs"
    using classes.survives X Cons.prems(1) by simp
  have "class_val y s' = class_val x s" "class_wf y s'" "class_own y s' \<subseteq> {length s..<length s'}"
    using X R(1) classes.survives [of y s1 s'] class_wf_mono [of y s1 s'] fresh_mono [of "class_own y s1" s s1 s s']
    by (simp_all add: class_own_def spec_own_def status_own_def)
  moreover have "prefix s s'" using X R(1) by (meson prefix_order.trans)
  moreover have "class_own z s' \<subseteq> {length s..<length s'}" if "z \<in> set zs" for z
    using R(2) that X fresh_mono [of "class_own z s'" s1 s' s s'] by simp
  ultimately show ?case using ys R same X by simp
qed simp

lemma list_depends:
  assumes "\<forall>r \<in> list_refs class_reach x s. s' ! r = s ! r"
  shows "list_val x s' = list_val x s"
  using assms
  by (cases "hl_Items x") (auto simp: list_val_def list_refs_def read_opt_def intro!: class_depends)

lemma list_copies:
  assumes L: "deep_meta L" and wf: "list_wf x s" and into: "List_DeepCopyInto L x s = (y, s')"
  shows "prefix s s' \<and> list_wf y s' \<and> list_val y s' = list_val x s \<and> list_refs class_own y s' \<subseteq> {length s..<length s'}"
proof -
  obtain m s1 where m: "ml_ListMeta L (hl_ListMeta x) s = (m, s1)" by fastforce
  have lt: "hl_ListMeta x < length s" using wf by (simp add: list_wf_def)
  note M = deep_meta_list [OF L lt m]
  show ?thesis
  proof (cases "hl_Items x")
    case None
    then show ?thesis using into m M
      by (auto simp: List_DeepCopyInto_def list_wf_def list_val_def list_refs_def read_opt_def)
  next
    case (Some a)
    obtain ys s2 where ys: "copy_items L (as_classes (s1 ! a)) s1 = (ys, s2)" by fastforce
    have y: "y = x\<lparr>hl_ListMeta := m, hl_Items := Some (length s2)\<rparr>" "s' = s2 @ [CClasses ys]"
      using into m Some ys by (simp_all add: List_DeepCopyInto_def alloc_def)
    have a: "a < length s" "\<forall>z \<in> set (as_classes (s ! a)). class_wf z s" using wf Some by (simp_all add: list_wf_def)
    have s1a: "s1 ! a = s ! a" using M(1) a by (simp add: prefix_nth)
    have wf1: "\<forall>z \<in> set (as_classes (s1 ! a)). class_wf z s1" using s1a a M(1) class_wf_mono by auto
    note I = items_copy [OF L wf1 ys]
    have p: "prefix s s2" "prefix s2 s'" "prefix s s'" using M(1) I y by (auto intro: prefix_order.trans)
    have "class_val z s' = class_val z s2" "class_wf z s'" "class_own z s' \<subseteq> {length s..<length s'}" if "z \<in> set ys" for z
      using that I p M(1) classes.survives [of z s2 s'] class_wf_mono [of z s2 s'] fresh_mono [of "class_own z s2" s1 s2 s s']
      by (simp_all add: class_own_def spec_own_def status_own_def)
    moreover have "map (\<lambda>z. class_val z s1) (as_classes (s ! a)) = map (\<lambda>z. class_val z s) (as_classes (s ! a))"
      using a M(1) classes.survives by simp
    moreover have "length s \<le> m" "m < length s2" using M I by (auto dest!: prefix_length_le)
    moreover have "as_listmeta (s' ! m) = as_listmeta (s ! hl_ListMeta x)"
      using M I p(2) prefix_nth [of s1 s' m] by (metis prefix_order.trans)
    ultimately show ?thesis
      using I y p Some s1a
      by (auto simp: list_wf_def list_val_def list_refs_def read_opt_def prefix_length_le cong: map_cong)
  qed
qed

interpretation lists: deep_copier List_DeepCopyInto list_wf list_val "list_refs class_own" "list_refs class_reach"
proof unfold_locales
  fix x s assume "list_wf x s"
  then show "list_refs class_reach x s \<subseteq> {..<length s}"
    using class_in_memory by (cases "hl_Items x") (auto simp: list_wf_def list_refs_def)
qed (fact list_depends list_copies)+

section \<open>Properties\<close>

text \<open>A pointer to a fresh cell, and a store one cell longer: what \<^verbatim>\<open>DeepCopy\<close> adds.\<close>

lemma NodeClass_DeepCopy_Some:
  assumes "NodeClass_DeepCopyInto L (as_class (s ! p)) s = (out, s1)"
  shows "NodeClass_DeepCopy L (Some p) s = (Some (length s1), s1 @ [CClass out])"
  using assms by (simp add: NodeClass_DeepCopy_def alloc_def)

lemma List_DeepCopy_Some:
  assumes "List_DeepCopyInto L (as_list (s ! p)) s = (out, s1)"
  shows "List_DeepCopy L (Some p) s = (Some (length s1), s1 @ [CList out])"
  using assms by (simp add: List_DeepCopy_def alloc_def)

lemma own_append:
  "class_own y (s1 @ t) = class_own y s1" by (simp add: class_own_def spec_own_def status_own_def)

lemma write_fresh: "prefix s s' \<Longrightarrow> length s \<le> r \<Longrightarrow> q < length s \<Longrightarrow> s'[r := c] ! q = s ! q"
  by (auto simp: prefix_nth)


definition ex_meta_lib :: meta_lib where
  "ex_meta_lib = \<lparr>ml_ObjectMeta = \<lambda>m s. alloc (s ! m) s, ml_ListMeta = \<lambda>m s. alloc (s ! m) s, ml_Condition = \<lambda>c. c\<rparr>"

definition ex_store :: store where
  "ex_store =
     [CMeta zeroMeta, CStorage \<lparr>hst_Size = 20, hst_Tier = ''maxiops'', hst_Encrypted = None\<rparr>, CStrings [''ssh-rsa A''],
      CClass \<lparr>hc_Kind = '''', hc_APIVersion = '''', hc_ObjectMeta = 0,
        hc_Spec = \<lparr>hs_Zone = ''fi-hel1'', hs_Plan = ''p'', hs_Storage = Some 1, hs_SSHKeys = Some 2, hs_KubeletArgs = None,
          hs_Labels = None, hs_Taints = None, hs_ServerGroupUUID = '''', hs_UtilityNetworkAccess = None\<rparr>,
        hc_Status = \<lparr>ht_Conditions = None, ht_Hash = ''h''\<rparr>\<rparr>]"

lemma ex_meta_lib_deep: "deep_meta ex_meta_lib"
  by (simp add: deep_meta_def ex_meta_lib_def alloc_def)

lemma ex_store_wf: "class_wf (as_class (ex_store ! 3)) ex_store" "(3::nat) < length ex_store"
  by (simp_all add: ex_store_def class_wf_def spec_wf_def distinct_keys_def read_opt_def spec_reach_def spec_own_def storage_refs_def status_wf_def
      status_own_def)


text \<open>
  The deep copy of a list of node classes reads the same as its original, item by item, and
  neither the copied list, nor its slice, nor what an item of it owns is memory of the original.
\<close>

theorem list_copy_isolated:
  assumes "deep_meta L" and "p < length s" and "list_wf (as_list (s ! p)) s"
  shows "\<exists>q s'. List_DeepCopyObject L (Some p) s = (Some q, s') \<and> prefix s s'
    \<and> list_val (as_list (s' ! q)) s' = list_val (as_list (s ! p)) s
    \<and> insert q (list_refs class_own (as_list (s' ! q)) s') \<subseteq> {length s..<length s'}"
proof -
  obtain out s1 where into: "List_DeepCopyInto L (as_list (s ! p)) s = (out, s1)" by fastforce
  let ?s' = "s1 @ [CList out]"
  note C = list_copies [OF assms(1,3) into]
  have refs: "list_refs class_own out ?s' = list_refs class_own out s1"
    using C by (cases "hl_Items out") (auto simp: list_refs_def own_append list_wf_def nth_append)
  have "list_val out ?s' = list_val (as_list (s ! p)) s" using C lists.survives [of out s1 ?s'] by simp
  then show ?thesis
    using List_DeepCopy_Some [OF into] C refs
    by (intro exI [of _ "length s1"] exI [of _ ?s'])
      (auto simp: List_DeepCopyObject_def dest: prefix_length_le intro: prefix_order.trans)
qed

definition ex_list_store :: store where
  "ex_list_store = ex_store @
     [CListMeta \<lparr>lm_ResourceVersion = ''7'', lm_Continue = '''', lm_RemainingItemCount = None\<rparr>,
      CClasses [as_class (ex_store ! 3)],
      CList \<lparr>hl_Kind = '''', hl_APIVersion = '''', hl_ListMeta = 4, hl_Items = Some 5\<rparr>]"

lemma ex_list_store_nth:
  "length ex_list_store = 7" "ex_list_store ! 5 = CClasses [as_class (ex_store ! 3)]"
  "ex_list_store ! 6 = CList \<lparr>hl_Kind = '''', hl_APIVersion = '''', hl_ListMeta = 4, hl_Items = Some 5\<rparr>"
  by (simp_all add: ex_list_store_def ex_store_def)

lemma ex_list_store_wf: "list_wf (as_list (ex_list_store ! 6)) ex_list_store"
proof -
  have "prefix ex_store ex_list_store" by (simp add: ex_list_store_def)
  then show ?thesis
    using class_wf_mono [OF ex_store_wf(1)] by (simp add: list_wf_def ex_list_store_nth)
qed

theorem list_copy_isolated_witness:
  "\<exists>q s'. List_DeepCopyObject ex_meta_lib (Some 6) ex_list_store = (Some q, s')
     \<and> insert q (list_refs class_own (as_list (s' ! q)) s') \<subseteq> {7..<length s'}"
  using list_copy_isolated [OF ex_meta_lib_deep _ ex_list_store_wf] unfolding ex_list_store_nth(1) by fastforce

text \<open>
  The storage settings are shared: the copy has the pointer of the original, so that what is
  written through the copy is what the original reads.
\<close>

theorem storage_is_shared:
  assumes "deep_meta L" and "class_wf (as_class (s ! p)) s" and "hs_Storage (hc_Spec (as_class (s ! p))) = Some a"
  shows "\<exists>q s'. NodeClass_DeepCopy L (Some p) s = (Some q, s') \<and> hs_Storage (hc_Spec (as_class (s' ! q))) = Some a
    \<and> (\<forall>w. spec_Storage (spec_val (hc_Spec (as_class (s ! p))) (s'[a := CStorage w]))
           = Some (storage_val w (s'[a := CStorage w])))"
proof -
  obtain out s1 where into: "NodeClass_DeepCopyInto L (as_class (s ! p)) s = (out, s1)" by fastforce
  note C = class_copies [OF assms(1,2) into]
  have "a \<in> class_reach (as_class (s ! p)) s" using assms(3) by (simp add: class_reach_def storage_refs_def)
  then have "a < length s1" using class_in_memory [OF assms(2)] C by (auto dest!: prefix_length_le)
  then show ?thesis
    using NodeClass_DeepCopy_Some [OF into] C assms(3)
    by (intro exI [of _ "length s1"] exI [of _ "s1 @ [CClass out]"]) (simp add: spec_val_def read_opt_def)
qed

end
