(* ===== verification/Spec2Isabelle.thy ===== *)
theory Spec2Isabelle
  imports Api_Scheme TTL_Controller Convergence Shared_Claims CloudProvider Catalogue_Lock Startup DeepCopy_Heap
begin

text \<open>
  A verification development of the Karpenter provider for UpCloud: the Go operator under
  \<^verbatim>\<open>cmd\<close>, \<^verbatim>\<open>pkg\<close> and \<^verbatim>\<open>apis\<close>.

  \<^bold>\<open>The program.\<close> Karpenter's core asks a cloud provider for nodes. The provider
  (\<^verbatim>\<open>pkg/cloudprovider\<close>) answers with UpCloud servers: \<^verbatim>\<open>Create\<close> resolves the
  \<^verbatim>\<open>UpCloudNodeClass\<close> of a \<^verbatim>\<open>NodeClaim\<close>, obtains a kubelet certificate from
  the cluster, generates a cloud-init document and has the instance provider create the server;
  \<^verbatim>\<open>IsDrifted\<close> compares the hash a claim carries with that of the live class. The
  catalogue of instance types is filled from the plans and prices of the account. Two
  controllers run beside it: one validates node classes, publishes their hash and re-stamps
  claims whose hash is of an older version; the other decommissions claims older than a TTL. The
  parts interact through the Kubernetes API (annotations, conditions, taints) and through the
  labels of servers.

  \<^bold>\<open>The model.\<close> The program is translated to functions in a state monad over the history
  of its calls (\<open>Prelude\<close>). A service is a record of functions from that history to an answer
  (\<open>World\<close>), so a theorem for all services covers every answer they can give, failures and
  interference by other clients included; what a theorem says of the calls made is a statement
  on the history. Errors are values, panics among them; numbers that can overflow are 64-bit
  words; Go maps are association lists in the order of one traversal, with nil apart.

  \<^item> \<open>Prelude\<close>, \<open>Go_Strings\<close>, \<open>Go_Time\<close>, \<open>Base64\<close>, \<open>Kube_Types\<close>: what the program uses of
    Go's library (strings, UTF-8, decimal and hexadecimal numbers, durations that wrap and
    saturate, RFC 3339 with its round trip, base64 with its round trip) and the fields of the
    Kubernetes types.
  \<^item> \<open>NodeClass_Api\<close>: \<^verbatim>\<open>apis/v1alpha2\<close>, types, constants, \<^verbatim>\<open>Hash\<close>. \<open>Api_Scheme\<close>: its
    \<^verbatim>\<open>register.go\<close>, which gives the types to the scheme without a panic.
  \<^item> \<open>DeepCopy_Heap\<close>: \<^verbatim>\<open>zz_generated.deepcopy.go\<close> over an explicit store. A copy reads
    the same and owns fresh memory only; its storage settings are shared with the original.
  \<^item> \<open>TTL_Controller\<close>: \<^verbatim>\<open>pkg/controllers/nodeclaimttl\<close>. Deletion is safe, an expired
    idle claim is decommissioned, a claim that is not expired comes back exactly at its expiry,
    a reset is read back, tolerations and affinities agree with Kubernetes.
  \<^item> \<open>NodeClass_Controller\<close>: \<^verbatim>\<open>pkg/controllers/nodeclass\<close>. Claims are rewritten only
    where needed, a pass is exact and idempotent, readiness follows validity, deletion releases
    the finalizer; a live class is always called again, and the registered filter drops the events of the
    controller's own writes. Both controllers interpret the locale \<open>reconciler\<close> of \<open>World\<close>.
  \<^item> \<open>Convergence\<close>: repeated requests to that controller, against an API server that keeps what is
    written. Two bring a valid class and its claims to rest, and a further one only reads.
  \<^item> \<open>Shared_Claims\<close>: one claim under the patches of both controllers, in any order and from reads of
    any age. Each keeps to its own annotations (locale \<open>claim_writer\<close>), so that neither the
    TTL nor the drift verdict depends on the other controller; for a claim that \<^verbatim>\<open>Create\<close>
    stamped, the verdict stays the comparison of the two specifications.
  \<^item> \<open>Util\<close>, \<open>InstanceTypes\<close>: plan names and the catalogue
    (\<^verbatim>\<open>pkg/util\<close>, \<^verbatim>\<open>pkg/providers/instancetypes\<close>). In every reachable state the
    advertised types are those of the known plans (locale \<open>catalogue\<close>); a refresh replaces or
    keeps everything; capacities saturate; prices are fetched once per period.
  \<^item> \<open>Catalogue_Lock\<close>: the methods of the catalogue as atomic actions under Go's read-write mutex, interleaved
    by a step relation. Readers find a whole catalogue, all calls return, one refresh beside
    any readers has no data race (two refreshes have), and a refresh alone computes \<open>Refresh\<close>.
  \<^item> \<open>Instance\<close>: \<^verbatim>\<open>pkg/providers/instance\<close>. The request for a server and the list of the
    managed ones, tied by the labels (locale \<open>server_marks\<close>).
  \<^item> \<open>UserData\<close>: \<^verbatim>\<open>pkg/providers/userdata\<close>. Validation is exact (locales \<open>validator\<close> and
    \<open>splitting_validator\<close>), no value adds a line to the document, the shell reads labels as
    data, files decode to what was given.
  \<^item> \<open>Kubelet_Cert\<close>: \<^verbatim>\<open>pkg/cloudprovider/helpers.go\<close>. Only the own request is approved, a
    certificate that is used was issued for it, and one is obtained where the cluster signs.
  \<^item> \<open>CloudProvider\<close>: \<^verbatim>\<open>pkg/cloudprovider/cloudprovider.go\<close> and
    \<^verbatim>\<open>pkg/events\<close>. At most one server per claim, stop before delete, what a created claim
    says, drift as a refinement of a change of the specification.
  \<^item> \<open>Startup\<close>: \<^verbatim>\<open>pkg/providers/options.go\<close> and \<^verbatim>\<open>cmd/karpenter-upcloud/main.go\<close>. An
    operator that starts is wired to one cluster; one without its options stops at once; the process
    starts everything, or exits with status 1 and starts nothing.
  \<^item> This theory: the properties that need more than one of them.

  \<^bold>\<open>Parameters and hypotheses.\<close> Imported code is a parameter: the hash of
    \<^verbatim>\<open>hashstructure\<close> (\<open>slices_as_sets\<close>), the condition sets of \<^verbatim>\<open>operatorpkg\<close>
    (\<open>status_laws\<close>), \<^verbatim>\<open>lo.Assign\<close> (\<open>assigns\<close>), \<^verbatim>\<open>wait.PollUntilContextTimeout\<close>
    (\<open>polls\<close>), an API server without other writers (\<open>quiet_server\<close>, \<open>status_stable\<close>), its merge patches
    (\<open>merge_patch\<close>), the filter of controller-runtime (\<open>generation_filter\<close>), the runtime scheme
    (\<open>scheme_laws\<close>), key generation, the YAML encoder and decoder, \<^verbatim>\<open>time.ParseDuration\<close>, the manager, the
    copying of metadata (\<open>deep_meta\<close>). The names in parentheses are the documented behaviour that is relied
    on; each has an instance in the theory that uses it.

  \<^bold>\<open>Bounds and fuel.\<close> All functions terminate. The only fuel in the model of the code is that
  of the PEM line breaking, the length of the body: more changes nothing
  (\<open>pem_lines_fuel\<close>). The polling loop is a parameter with the law \<open>polls\<close>; \<open>poll_fuel\<close>, with
  45 further attempts for the interval of 2 and the timeout of 90 seconds, is an instance of it
  that occurs in witnesses only.

  \<^bold>\<open>Not modelled.\<close> Karpenter's core, which \<^verbatim>\<open>run\<close> constructs and hands to the manager
  (\<^verbatim>\<open>main.go\<close>, lines 91 to 106), and \<^verbatim>\<open>StatusConditions\<close>, which wraps an imported
  package: the code behind them is not in the repository. Log output, apart from that of the
  start; contexts and their cancellation; Helm charts and tests.

  \<^bold>\<open>Plan.\<close> Still worth stating: the polling of certificates under cancellation, and what a server
  list taken while \<^verbatim>\<open>Create\<close> or \<^verbatim>\<open>Delete\<close> runs can contain.
\<close>

section \<open>Properties that span components\<close>

text \<open>
  C5. The controller that rewrites the hash annotations of claims and the drift detection that reads
  them work together: a claim that would be reported as drifted is never rewritten, and a claim
  that was rewritten is reported as drifted exactly when its class no longer has the hash of the
  class it was rewritten for.
\<close>

theorem rebaseline_hides_no_drift:
  assumes "run_state (NC_Reconcile sl hs r n) h = (res, h @ evs)" and "EPatchClaim old new \<in> set evs"
  shows "\<exists>u v. k_GetNodeClass (ncc_Client r) h n = Inr u
    \<and> (v = ready_class sl hs u \<or> k_PatchStatus (ncc_Client r) (h @ [EGetNodeClass n]) u (ready_class sl hs u) = Inr v)
    \<and> (\<forall>p h1. fst (fst (run_state (IsDrifted hs p old) h1)) = '''')
    \<and> (\<forall>p h1 ref w. nc_NodeClassRef old = Some ref \<longrightarrow> k_GetNodeClass (cp_Client p) h1 (ncr_Name ref) = Inr w \<longrightarrow>
         fst (run_state (IsDrifted hs p new) h1) =
           (if Hash hs v = '''' \<or> Hash hs w = Hash hs v then '''' else NodeClassDrifted, None))"
proof -
  obtain u v h' claims where o: "k_GetNodeClass (ncc_Client r) h n = Inr u"
    "v = ready_class sl hs u \<or> k_PatchStatus (ncc_Client r) (h @ [EGetNodeClass n]) u (ready_class sl hs u) = Inr v"
    "stamps_one_of sl (Hash hs v) claims (EPatchClaim old new)"
    by (rule claim_write_origin [OF assms])
  then have old: "\<not> skip_claim sl old" and new: "new = stamped_claim (Hash hs v) old" by (auto simp: stamps_one_of_def)
  have "map_read (nc_Annotations old) NodeClassHashAnnotationKey = ''''
      \<or> map_read (nc_Annotations old) NodeClassHashVersionAnnotationKey \<noteq> NodeClassHashVersion"
    using old by (auto simp: skip_claim_iff map_read_def)
  then have "fst (fst (run_state (IsDrifted hs p old) h1)) = ''''" for p h1
    by (auto simp: IsDrifted_run split: prod.split sum.split)
  moreover have "map_read (nc_Annotations new) NodeClassHashAnnotationKey = Hash hs v"
    "map_read (nc_Annotations new) NodeClassHashVersionAnnotationKey = NodeClassHashVersion"
    "nc_NodeClassRef new = nc_NodeClassRef old"
    unfolding new by (simp_all add: map_read_def stamped_claim_annotations) (simp add: stamped_claim_def set_Annotations_def)
  then have "fst (run_state (IsDrifted hs p new) h1) =
      (if Hash hs v = '''' \<or> Hash hs w = Hash hs v then '''' else NodeClassDrifted, None)"
    if "nc_NodeClassRef old = Some ref" "k_GetNodeClass (cp_Client p) h1 (ncr_Name ref) = Inr w" for p h1 ref w
    using that by (auto simp: IsDrifted_run resolveNodeClass_run)
  ultimately show ?thesis using o by blast
qed

theorem rebaseline_hides_no_drift_witness:
  "EPatchClaim ex_old_claim (stamped_claim (Hash ex_hasher ex_class) ex_old_claim)
       \<in> set (snd (run_state (NC_Reconcile plain_status ex_hasher NodeClass_Controller.ex_controller ''default'') []))
     \<and> fst (fst (run_state (IsDrifted ex_hasher (ex_cp ex_class) ex_old_claim) [])) = ''''"
  using rebaseline_hides_no_drift [OF ex_nodeclass_run,
      of ex_old_claim "stamped_claim (Hash ex_hasher ex_class) ex_old_claim"] ex_nodeclass_run by auto

text \<open>
  C18. A launched server is found again: wherever the account lists the server of a claim with the
  labels its creation asked for, the cloud provider lists a claim with the same provider
  identifier.
\<close>

theorem launched_claim_is_listed:
  assumes "polls (lib_poll L)" and "run_state (CloudProvider.Create L hst p nc) h = (Inr nc', h' @ [ECreateServer req])"
    and "s_GetServers (ip_svc (cp_instanceProvider p)) h1 = Inr us" and "i < length us"
    and "s_GetServerDetails (ip_svc (cp_instanceProvider p)) (h1 @ EGetServers # map EGetServerDetails (take i us)) (us ! i) = Inr s"
    and "sd_Labels s = csq_Labels req" and "nc_ProviderID nc' = ProviderIDPrefix @ sd_UUID s"
  shows "\<exists>claims c. fst (run_state (CloudProvider.List p) h1) = Inr claims \<and> c \<in> set claims
    \<and> nc_ProviderID c = nc_ProviderID nc' \<and> nc_NodeName c = sd_Hostname s
    \<and> map_get (om_Labels (nc_Meta c)) LabelInstanceTypeStable = Some (sd_Plan s)"
proof -
  let ?ip = "cp_instanceProvider p"
  have ok: "fst (run_state (CloudProvider.Create L hst p nc) h) = Inr nc'" using assms(2) by simp
  obtain name req' h0 and u :: UpCloudNodeClass where "snd (run_state (CloudProvider.Create L hst p nc) h) = h0 @ [ECreateServer req']"
    and labels: "slice_lookup (csq_Labels req') = marks ?ip name (map_get (lib_Assign L [spec_Labels (cls_Spec u)]))"
    by (rule Create_success [OF assms(1) ok])
  then have "req' = req" using assms(2) by simp
  then have "isManaged s"
    using labels assms(6) by (simp add: isManaged_def has_managed_label_lookup marks_def server_label_defs)
  moreover have "Inr s \<in> set (answers (ip_svc ?ip) (h1 @ [EGetServers]) us)" using assms(4,5) by (auto simp: set_answers)
  ultimately have "s \<in> set (filter isManaged (successes (answers (ip_svc ?ip) (h1 @ [EGetServers]) us)))"
    by (simp add: set_successes)
  then show ?thesis
    using assms(3,7)
    by (intro exI [of _ "map (\<lambda>s. buildNodeClaim s (cp_zone p)) (filter isManaged (successes (answers (ip_svc ?ip) (h1 @ [EGetServers]) us)))"]
        exI [of _ "buildNodeClaim s (cp_zone p)"])
      (auto simp: CloudProvider.List_def Instance.List_run buildNodeClaim_def Let_def)
qed

theorem launched_claim_is_listed_witness:
  "\<exists>nc' h' req claims c.
     run_state (CloudProvider.Create ex_libs ex_host (ex_cp ex_node_class) ex_nc) [] = (Inr nc', h' @ [ECreateServer req])
     \<and> fst (run_state (CloudProvider.List (ex_cp ex_node_class)) [ECreateServer req]) = Inr claims \<and> c \<in> set claims
     \<and> nc_ProviderID c = nc_ProviderID nc'"
proof -
  let ?p = "ex_cp ex_node_class"
  obtain nc' where ok: "fst (run_state (CloudProvider.Create ex_libs ex_host ?p ex_nc) []) = Inr nc'"
    using ex_creates by blast
  obtain name ls u ref server req h' where nc': "nc' = created_claim (lib_hash ex_libs) name ls u ref server"
    and h': "snd (run_state (CloudProvider.Create ex_libs ex_host ?p ex_nc) []) = h' @ [ECreateServer req]"
    and server: "s_CreateServer (ip_svc (cp_instanceProvider ?p)) h' req = Inr server"
    by (rule Create_success [OF ex_libs_laws(1) ok])
  have run: "run_state (CloudProvider.Create ex_libs ex_host ?p ex_nc) [] = (Inr nc', h' @ [ECreateServer req])"
    using ok h' by (metis prod.collapse)
  have "server = ex_server req" using server by (simp add: ex_cp_simps ex_account_def)
  then have "nc_ProviderID nc' = ProviderIDPrefix @ sd_UUID (ex_server req)" by (simp add: nc')
  with launched_claim_is_listed [OF ex_libs_laws(1) run, where us = "[''u'']" and i = 0 and s = "ex_server req"
      and ?h1.0 = "[ECreateServer req]"]
  show ?thesis using run by (auto simp: ex_cp_simps ex_account_def ex_server_def)
qed

end
